(* ===== verification/NID_Prelude.thy ===== *)
theory NID_Prelude
  imports Main "HOL-Library.Word" "HOL-Library.Monad_Syntax"
begin

text \<open>
  Shared vocabulary of the development: the machine types of the daemon (bytes, 32-bit words,
  clock values), the result type of code that may kill the process, datagram reads into a
  persistent buffer, and the byte codecs of machine words with their round trips.

  Conventions.
  \<^item> A function of type \<open>'a run\<close> returns \<open>None\<close> exactly where the C code kills the
    process: a division by zero (a hash table of size 0), a read through a null or wild pointer,
    a call of \<open>exit\<close>. A C function that may return a null pointer returns an \<open>option\<close> of its own
    inside the \<open>run\<close>.
  \<^item> An address in network byte order (\<open>in_addr_t\<close>, \<open>struct in6_addr\<close>) is the word whose
    big-endian bytes are the bytes in memory. Host-order 32-bit fields are little-endian in memory,
    as on the x86 machines the Makefile targets.
  \<^item> \<open>time_t\<close> and the fields of \<open>struct timeval\<close> are unbounded integers.
\<close>

unbundle bit_operations_syntax

type_synonym byte = "8 word"
type_synonym u16 = "16 word"
type_synonym u32 = "32 word"
type_synonym time = int
type_synonym 'a run = "'a option"

record timeval =
  tv_sec :: int
  tv_usec :: int

named_theorems codec_simps "field access on encoded structures"
named_theorems table_simps "abstract view of the table operations"

section \<open>Lists\<close>

lemma take_drop_append_mid:
  "length xs = n \<Longrightarrow> length ys = k \<Longrightarrow> take k (drop n (xs @ ys @ zs)) = ys"
  by simp

lemma list_update_map_same:
  "i < length xs \<Longrightarrow> f y = f (xs ! i) \<Longrightarrow> map f (xs[i := y]) = map f xs"
  by (metis list_update_id map_update nth_map)

section \<open>Invariants of runs\<close>

text \<open>
  \<open>run_keeps P f\<close>: whenever \<open>f\<close> returns, it returns a state with \<open>P\<close> if it was given one.
\<close>

definition run_keeps :: "('s \<Rightarrow> bool) \<Rightarrow> ('s \<Rightarrow> 's run) \<Rightarrow> bool" where
  "run_keeps P f \<longleftrightarrow> (\<forall>s s'. f s = Some s' \<longrightarrow> P s \<longrightarrow> P s')"

lemma run_keepsI: "(\<And>s s'. f s = Some s' \<Longrightarrow> P s \<Longrightarrow> P s') \<Longrightarrow> run_keeps P f"
  by (simp add: run_keeps_def)

lemma run_keepsD: "run_keeps P f \<Longrightarrow> f s = Some s' \<Longrightarrow> P s \<Longrightarrow> P s'"
  by (auto simp: run_keeps_def)

lemma run_keeps_bind: "run_keeps P f \<Longrightarrow> run_keeps P g \<Longrightarrow> run_keeps P (\<lambda>s. f s \<bind> g)"
  by (fastforce simp: run_keeps_def bind_eq_Some_conv)

lemma run_keeps_Some: "(\<And>s. P s \<Longrightarrow> P (f s)) \<Longrightarrow> run_keeps P (\<lambda>s. Some (f s))"
  by (auto simp: run_keeps_def)

lemma run_keeps_if:
  "run_keeps P f \<Longrightarrow> run_keeps P g \<Longrightarrow> run_keeps P (\<lambda>s. if b s then f s else g s)"
  by (auto simp: run_keeps_def)

lemmas run_keeps_intros = run_keeps_bind run_keeps_Some run_keeps_if

text \<open>
  \<open>run_safe P f\<close>: given a state with \<open>P\<close>, \<open>f\<close> returns, and returns a state with \<open>P\<close>.
\<close>

definition run_safe :: "('s \<Rightarrow> bool) \<Rightarrow> ('s \<Rightarrow> 's run) \<Rightarrow> bool" where
  "run_safe P f \<longleftrightarrow> (\<forall>s. P s \<longrightarrow> (\<exists>s'. f s = Some s' \<and> P s'))"

lemma run_safeI: "(\<And>s. P s \<Longrightarrow> \<exists>s'. f s = Some s' \<and> P s') \<Longrightarrow> run_safe P f"
  by (simp add: run_safe_def)

lemma run_safeD: "run_safe P f \<Longrightarrow> P s \<Longrightarrow> \<exists>s'. f s = Some s' \<and> P s'"
  by (simp add: run_safe_def)

lemma run_safeE:
  assumes "run_safe P f" "P s"
  obtains s' where "f s = Some s'" "P s'"
  using assms by (auto simp: run_safe_def)

lemma run_safe_bind: "run_safe P f \<Longrightarrow> run_safe P g \<Longrightarrow> run_safe P (\<lambda>s. f s \<bind> g)"
  by (fastforce simp: run_safe_def)

lemma run_safe_Some: "(\<And>s. P s \<Longrightarrow> P (f s)) \<Longrightarrow> run_safe P (\<lambda>s. Some (f s))"
  by (simp add: run_safe_def)

lemma run_safe_keeps: "run_safe P f \<Longrightarrow> run_keeps P f"
  by (fastforce simp: run_safe_def run_keeps_def)

section \<open>Datagram reads\<close>

text \<open>
  \<open>read\<close> and \<open>recvfrom\<close> copy at most \<open>n\<close> bytes of one datagram to the start of the buffer and
  leave the rest of the buffer as it was.
\<close>

definition overlay :: "byte list \<Rightarrow> byte list \<Rightarrow> byte list" where
  "overlay d buf = d @ drop (length d) buf"

definition dgram_read :: "nat \<Rightarrow> byte list \<Rightarrow> byte list \<Rightarrow> byte list" where
  "dgram_read n msg buf = overlay (take n msg) buf"

lemma length_overlay [simp]: "length d \<le> length buf \<Longrightarrow> length (overlay d buf) = length buf"
  by (simp add: overlay_def)

lemma length_dgram_read [simp]: "n \<le> length buf \<Longrightarrow> length (dgram_read n msg buf) = length buf"
  by (simp add: dgram_read_def)

lemma take_overlay: "n \<le> length d \<Longrightarrow> take n (overlay d buf) = take n d"
  by (simp add: overlay_def)

lemma take_drop_overlay:
  "k + n \<le> length d \<Longrightarrow> take n (drop k (overlay d buf)) = take n (drop k d)"
  by (simp add: overlay_def)

lemma overlay_full: "length d = length buf \<Longrightarrow> overlay d buf = d"
  by (simp add: overlay_def)

lemma dgram_read_exact: "length msg = n \<Longrightarrow> length buf = n \<Longrightarrow> dgram_read n msg buf = msg"
  by (simp add: dgram_read_def overlay_full)

lemma take_dgram_read [simp]: "length msg \<le> n \<Longrightarrow> take (length msg) (dgram_read n msg buf) = msg"
  by (simp add: dgram_read_def overlay_def)

section \<open>Byte codecs of machine words\<close>

text \<open>Big-endian (network order) bytes of a word, most significant first, and their reader.\<close>

definition be_bytes :: "nat \<Rightarrow> 'a::len word \<Rightarrow> byte list" where
  "be_bytes k w = map (\<lambda>i. ucast (drop_bit (8 * (k - 1 - i)) w)) [0..<k]"

definition be_word :: "byte list \<Rightarrow> 'a::len word" where
  "be_word bs = foldl (\<lambda>acc b. push_bit 8 acc OR ucast b) 0 bs"

text \<open>Little-endian (host order) bytes of a 32-bit word.\<close>

definition le32_bytes :: "u32 \<Rightarrow> byte list" where
  "le32_bytes w = rev (be_bytes 4 w)"

definition le32_word :: "byte list \<Rightarrow> u32" where
  "le32_word bs = be_word (rev bs)"

lemma length_be_bytes [simp]: "length (be_bytes k w) = k"
  by (simp add: be_bytes_def)

lemma length_le32_bytes [simp]: "length (le32_bytes w) = 4"
  by (simp add: le32_bytes_def)

lemma be_bytes_nth: "i < k \<Longrightarrow> be_bytes k w ! i = ucast (drop_bit (8 * (k - 1 - i)) w)"
  by (simp add: be_bytes_def)

lemma be_word_Nil [simp]: "be_word [] = 0"
  by (simp add: be_word_def)

lemma be_word_snoc [simp]: "be_word (bs @ [b]) = push_bit 8 (be_word bs) OR ucast b"
  by (simp add: be_word_def)

lemma be_bytes_Suc: "be_bytes (Suc k) w = be_bytes k (drop_bit 8 w) @ [ucast w]"
proof -
  have "map (\<lambda>i. ucast (drop_bit (8 * (k - i)) w) :: byte) [0..<k]
      = map (\<lambda>i. ucast (drop_bit (8 * (k - 1 - i)) (drop_bit 8 w))) [0..<k]"
  proof (rule map_cong [OF refl])
    fix i assume "i \<in> set [0..<k]"
    then have "8 * (k - i) = 8 * (k - 1 - i) + 8" by auto
    then show "(ucast (drop_bit (8 * (k - i)) w) :: byte)
      = ucast (drop_bit (8 * (k - 1 - i)) (drop_bit 8 w))"
      by (simp add: drop_bit_drop_bit)
  qed
  then show ?thesis by (simp add: be_bytes_def)
qed

lemma be_word_be_bytes_take_bit: "be_word (be_bytes k w) = take_bit (8 * k) w"
proof (induction k arbitrary: w)
  case 0
  show ?case by (simp add: be_bytes_def)
next
  case (Suc k)
  have "push_bit 8 (take_bit (8 * k) (drop_bit 8 w)) OR ucast (ucast w :: byte)
      = take_bit (8 * Suc k) w"
    by (rule bit_word_eqI) (auto simp: bit_simps)
  then show ?case by (simp add: be_bytes_Suc Suc.IH)
qed

lemma be_word_be_bytes:
  "LENGTH('a::len) \<le> 8 * k \<Longrightarrow> be_word (be_bytes k (w :: 'a word)) = w"
  by (simp add: be_word_be_bytes_take_bit take_bit_word_eq_self)

lemma le32_word_le32_bytes [codec_simps]: "le32_word (le32_bytes w) = w"
  by (simp add: le32_word_def le32_bytes_def be_word_be_bytes)

lemma be_bytes_inject:
  assumes "LENGTH('a::len) \<le> 8 * k"
  shows "(be_bytes k (v :: 'a word) = be_bytes k w) = (v = w)"
  by (metis assms be_word_be_bytes)

end
