(* ===== verification/NID_Types.thy ===== *)
theory NID_Types
  imports NID_Prelude
begin

text \<open>
  The data of \<open>src/src/nid.h\<close>: node identities (128 bits, \<open>struct in6_addr\<close>), their 32-bit
  locators (\<open>in_addr_t\<close>), the message type numbers, the node types, the header that is put in
  front of every packet on the overlay (68 bytes) and the control message (88 bytes), with the
  byte layout the C compiler gives the two structures and the round trips of that layout. Also
  the two conversions between identities and 32-bit identities of \<open>configuration.c\<close> and
  \<open>dnshandler.c\<close>, and their agreement.
\<close>

type_synonym NID = "128 word"
type_synonym NID32 = "32 word"

section \<open>Enumerations\<close>

text \<open>The message type field is a 32-bit value; the wire may carry any number in it.\<close>

abbreviation DATA :: u32 where "DATA \<equiv> 0"
abbreviation REDIRECT :: u32 where "REDIRECT \<equiv> 1"
abbreviation RELOCATE :: u32 where "RELOCATE \<equiv> 2"
abbreviation REGISTRY :: u32 where "REGISTRY \<equiv> 3"
abbreviation REDIRECT_CORE :: u32 where "REDIRECT_CORE \<equiv> 4"
abbreviation RVS_UPDATE :: u32 where "RVS_UPDATE \<equiv> 5"
abbreviation RVS_ACK :: u32 where "RVS_ACK \<equiv> 6"
abbreviation RVS_GET :: u32 where "RVS_GET \<equiv> 7"
abbreviation RVS_RESPONSE :: u32 where "RVS_RESPONSE \<equiv> 8"

abbreviation NODE :: u16 where "NODE \<equiv> 0"
abbreviation RVS :: u16 where "RVS \<equiv> 1"
abbreviation GATEWAY :: u16 where "GATEWAY \<equiv> 2"
abbreviation CORE :: u16 where "CORE \<equiv> 3"

abbreviation INTRADOMAIN :: u16 where "INTRADOMAIN \<equiv> 0"
abbreviation INTERDOMAIN :: u16 where "INTERDOMAIN \<equiv> 1"

text \<open>The timing constants, in seconds.\<close>

abbreviation RVS_UPDATE_TIMEOUT :: time where "RVS_UPDATE_TIMEOUT \<equiv> 5"
abbreviation RVS_PROACTIVE :: time where "RVS_PROACTIVE \<equiv> RVS_UPDATE_TIMEOUT - 1"
abbreviation RVS_TIMEOUT :: time where "RVS_TIMEOUT \<equiv> 10"
abbreviation GATEWAY_TIMEOUT :: time where "GATEWAY_TIMEOUT \<equiv> 10"

section \<open>Structures\<close>

record NID_header =
  h_type :: u32
  h_srcNID :: NID
  h_destNID :: NID
  h_srcNIDgw :: NID
  h_destNIDgw :: NID

text \<open>\<open>NID_msg\<close> and \<open>RVS_msg\<close> have the same fields in the same order.\<close>

record NID_msg =
  m_type :: u32
  m_srcNID :: NID
  m_destNID :: NID
  m_srcNIDgw :: NID
  m_destNIDgw :: NID
  m_nid :: NID
  m_ip :: NID32

record conn_entry =
  ce_ip :: NID32
  ce_tstamp :: time

text \<open>The sizes of the two structures (no padding: every field is 4-byte aligned).\<close>

abbreviation nh_len :: nat where "nh_len \<equiv> 68"
abbreviation nmsg_len :: nat where "nmsg_len \<equiv> 88"

section \<open>Memory layout\<close>

abbreviation nid_bytes :: "NID \<Rightarrow> byte list" where
  "nid_bytes n \<equiv> be_bytes 16 n"

abbreviation nid32_bytes :: "NID32 \<Rightarrow> byte list" where
  "nid32_bytes n \<equiv> be_bytes 4 n"

definition nid_at :: "nat \<Rightarrow> byte list \<Rightarrow> NID" where
  "nid_at off buf = be_word (take 16 (drop off buf))"

definition nid32_at :: "nat \<Rightarrow> byte list \<Rightarrow> NID32" where
  "nid32_at off buf = be_word (take 4 (drop off buf))"

definition int_at :: "nat \<Rightarrow> byte list \<Rightarrow> u32" where
  "int_at off buf = le32_word (take 4 (drop off buf))"

definition encode_header :: "NID_header \<Rightarrow> byte list" where
  "encode_header h = le32_bytes (h_type h) @ nid_bytes (h_srcNID h) @ nid_bytes (h_destNID h)
     @ nid_bytes (h_srcNIDgw h) @ nid_bytes (h_destNIDgw h)"

definition decode_header :: "byte list \<Rightarrow> NID_header" where
  "decode_header buf = \<lparr>h_type = int_at 0 buf, h_srcNID = nid_at 4 buf, h_destNID = nid_at 20 buf,
     h_srcNIDgw = nid_at 36 buf, h_destNIDgw = nid_at 52 buf\<rparr>"

definition encode_msg :: "NID_msg \<Rightarrow> byte list" where
  "encode_msg m = le32_bytes (m_type m) @ nid_bytes (m_srcNID m) @ nid_bytes (m_destNID m)
     @ nid_bytes (m_srcNIDgw m) @ nid_bytes (m_destNIDgw m) @ nid_bytes (m_nid m)
     @ nid32_bytes (m_ip m)"

definition decode_msg :: "byte list \<Rightarrow> NID_msg" where
  "decode_msg buf = \<lparr>m_type = int_at 0 buf, m_srcNID = nid_at 4 buf, m_destNID = nid_at 20 buf,
     m_srcNIDgw = nid_at 36 buf, m_destNIDgw = nid_at 52 buf, m_nid = nid_at 68 buf,
     m_ip = nid32_at 84 buf\<rparr>"

section \<open>Identities and 32-bit identities\<close>

text \<open>\<open>nid2nid32\<close> (and \<open>setNID32\<close>, the same body): the last four bytes, the first set to 1.\<close>

definition nid2nid32 :: "NID \<Rightarrow> NID32" where
  "nid2nid32 n = be_word ((take 4 (drop 12 (nid_bytes n)))[0 := 1])"

text \<open>
  The loop of \<open>update_dns_server_address\<close> and of \<open>thread_dnshandler\<close>: bytes 13 to 15 accumulate
  in base 256, \<open>2^24\<close> is added, and \<open>ntohl\<close> puts the sum into network order.
\<close>

definition last24bit :: "NID \<Rightarrow> u32" where
  "last24bit n = fold (\<lambda>i acc. acc * 256 + ucast (nid_bytes n ! i)) [13..<16] 0"

definition dns_nid32 :: "NID \<Rightarrow> NID32" where
  "dns_nid32 n = last24bit n + 16777216"

section \<open>Layout lemmas\<close>

lemma length_encode_header [simp]: "length (encode_header h) = nh_len"
  by (simp add: encode_header_def)

lemma length_encode_msg [simp]: "length (encode_msg m) = nmsg_len"
  by (simp add: encode_msg_def)

lemma nid_at_append [codec_simps]:
  "length xs = off \<Longrightarrow> nid_at off (xs @ nid_bytes n @ ys) = n"
  by (simp add: nid_at_def be_word_be_bytes)

lemma nid_at_append_last [codec_simps]:
  "length xs = off \<Longrightarrow> nid_at off (xs @ nid_bytes n) = n"
  by (simp add: nid_at_def be_word_be_bytes)

lemma nid32_at_append [codec_simps]:
  "length xs = off \<Longrightarrow> nid32_at off (xs @ nid32_bytes n @ ys) = n"
  by (simp add: nid32_at_def be_word_be_bytes)

lemma int_at_0 [codec_simps]: "int_at 0 (le32_bytes w @ ys) = w"
  by (simp add: int_at_def codec_simps)

lemma nid_at_skip:
  "length xs \<le> off \<Longrightarrow> nid_at off (xs @ ys) = nid_at (off - length xs) ys"
  by (simp add: nid_at_def)

lemma nid32_at_skip:
  "length xs \<le> off \<Longrightarrow> nid32_at off (xs @ ys) = nid32_at (off - length xs) ys"
  by (simp add: nid32_at_def)

lemma nid_at_head: "nid_at 0 (nid_bytes n @ ys) = n"
  by (simp add: nid_at_def be_word_be_bytes)

lemma nid32_at_head: "nid32_at 0 (nid32_bytes n @ ys) = n"
  by (simp add: nid32_at_def be_word_be_bytes)

lemma nid_at_nid_bytes [simp]: "nid_at 0 (nid_bytes n) = n"
  using nid_at_head [of n "[]"] by simp

lemma nid32_at_nid32_bytes [simp]: "nid32_at 0 (nid32_bytes n) = n"
  using nid32_at_head [of n "[]"] by simp

lemmas field_simps_at = nid_at_skip nid32_at_skip nid_at_head nid32_at_head int_at_0

text \<open>A header or a message in front of anything else decodes to itself.\<close>

lemma decode_encode_header [codec_simps]: "decode_header (encode_header h @ rest) = h"
  by (simp add: decode_header_def encode_header_def field_simps_at)

lemma decode_encode_msg [codec_simps]: "decode_msg (encode_msg m @ rest) = m"
  by (simp add: decode_msg_def encode_msg_def field_simps_at)

lemma decode_encode_msg0 [codec_simps]: "decode_msg (encode_msg m) = m"
  using decode_encode_msg [of m "[]"] by simp

lemma nid_at_overlay [codec_simps]:
  "off + 16 \<le> length d \<Longrightarrow> nid_at off (overlay d buf) = nid_at off d"
  by (simp add: nid_at_def take_drop_overlay)

lemma nid32_at_overlay [codec_simps]:
  "off + 4 \<le> length d \<Longrightarrow> nid32_at off (overlay d buf) = nid32_at off d"
  by (simp add: nid32_at_def take_drop_overlay)

lemma int_at_overlay [codec_simps]:
  "off + 4 \<le> length d \<Longrightarrow> int_at off (overlay d buf) = int_at off d"
  by (simp add: int_at_def take_drop_overlay)

lemma decode_header_overlay [codec_simps]:
  "nh_len \<le> length d \<Longrightarrow> decode_header (overlay d buf) = decode_header d"
  by (simp add: decode_header_def codec_simps)

lemma decode_msg_overlay [codec_simps]:
  "nmsg_len \<le> length d \<Longrightarrow> decode_msg (overlay d buf) = decode_msg d"
  by (simp add: decode_msg_def codec_simps)

lemma nid32_at_prefix [codec_simps]:
  "off + 4 \<le> length d \<Longrightarrow> nid32_at off (d @ rest) = nid32_at off d"
  by (simp add: nid32_at_def)

lemma decode_header_prefix [codec_simps]:
  "nh_len \<le> length d \<Longrightarrow> decode_header (d @ rest) = decode_header d"
  by (simp add: decode_header_def nid_at_def int_at_def)

lemma decode_msg_prefix [codec_simps]:
  "nmsg_len \<le> length d \<Longrightarrow> decode_msg (d @ rest) = decode_msg d"
  by (simp add: decode_msg_def nid_at_def nid32_at_def int_at_def)

lemma decode_header_take [codec_simps]:
  "nh_len \<le> n \<Longrightarrow> nh_len \<le> length d \<Longrightarrow> decode_header (take n d) = decode_header d"
  using decode_header_prefix [of "take n d" "drop n d"] by simp

lemma decode_msg_take [codec_simps]:
  "nmsg_len \<le> n \<Longrightarrow> nmsg_len \<le> length d \<Longrightarrow> decode_msg (take n d) = decode_msg d"
  using decode_msg_prefix [of "take n d" "drop n d"] by simp

text \<open>A datagram of at least the structure's size replaces it in the reader's buffer.\<close>

lemma decode_msg_dgram_read [codec_simps]:
  "nmsg_len \<le> n \<Longrightarrow> nmsg_len \<le> length msg \<Longrightarrow> decode_msg (dgram_read n msg buf) = decode_msg msg"
  by (simp add: dgram_read_def codec_simps)

lemma decode_header_dgram_read [codec_simps]:
  "nh_len \<le> n \<Longrightarrow> nh_len \<le> length msg \<Longrightarrow>
   decode_header (dgram_read n msg buf) = decode_header msg"
  by (simp add: dgram_read_def codec_simps)

text \<open>
  A control message read from a socket pair into a \<open>NID_msg\<close> variable: the datagram's bytes replace
  the variable's first bytes, the rest of the variable stays.
\<close>

definition recv_msg :: "byte list \<Rightarrow> NID_msg \<Rightarrow> NID_msg" where
  "recv_msg d m = decode_msg (dgram_read nmsg_len d (encode_msg m))"

lemma recv_msg_full [codec_simps]: "nmsg_len \<le> length d \<Longrightarrow> recv_msg d m = decode_msg d"
  by (simp add: recv_msg_def codec_simps)

lemma recv_encode_msg [codec_simps]: "recv_msg (encode_msg x) m = x"
  by (simp add: recv_msg_full codec_simps)

section \<open>The 32-bit identity\<close>

text \<open>The low byte of a word does not meet a shifted word, so adding them is joining their bits.\<close>

lemma shift8_add:
  fixes x :: u32
  shows "x * 256 + ucast (b :: byte) = push_bit 8 x OR ucast b"
proof -
  have "push_bit 8 x AND ucast b = 0"
    by (rule bit_word_eqI) (auto simp: bit_simps dest: bit_imp_le_length)
  then have "push_bit 8 x + ucast b = push_bit 8 x OR ucast b"
    by (rule disjunctive_add_eq_or)
  then show ?thesis by (simp add: push_bit_eq_mult)
qed

lemma low24_bytes:
  "push_bit 16 (ucast (ucast (drop_bit 16 n) :: byte))
     OR push_bit 8 (ucast (ucast (drop_bit 8 n) :: byte)) OR ucast (ucast (n :: NID) :: byte)
   = (ucast n AND 16777215 :: u32)"
proof -
  have m: "(16777215 :: u32) = mask 24"
    by (simp add: mask_eq_exp_minus_1)
  show ?thesis
    unfolding m
  proof (rule bit_word_eqI)
    fix k :: nat
    consider "k < 8" | "8 \<le> k" "k < 16" | "16 \<le> k" "k < 24" | "24 \<le> k" by linarith
    then show "bit (push_bit 16 (ucast (ucast (drop_bit 16 n) :: byte))
        OR push_bit 8 (ucast (ucast (drop_bit 8 n) :: byte)) OR ucast (ucast n :: byte) :: u32) k
      = bit (ucast n AND mask 24 :: u32) k"
      by cases (auto simp: bit_simps)
  qed
qed

lemma nid2nid32_bits: "nid2nid32 n = 16777216 OR (ucast n AND 16777215)"
proof -
  have bs: "take 4 (drop 12 (nid_bytes n))
      = map (\<lambda>i. ucast (drop_bit (8 * (15 - i)) n)) [12, 13, 14, 15]"
    by (simp add: be_bytes_def upt_rec numeral_eq_Suc)
  have "nid2nid32 n = 16777216 OR (push_bit 16 (ucast (ucast (drop_bit 16 n) :: byte))
      OR push_bit 8 (ucast (ucast (drop_bit 8 n) :: byte)) OR ucast (ucast n :: byte))"
    unfolding nid2nid32_def bs by (simp add: be_word_def push_bit_or or.assoc push_bit_push_bit)
  then show ?thesis unfolding low24_bytes .
qed

lemma last24bit_eq: "last24bit n = ucast n AND 16777215"
proof -
  have bs: "nid_bytes n ! 13 = ucast (drop_bit 16 n)" "nid_bytes n ! 14 = ucast (drop_bit 8 n)"
    "nid_bytes n ! 15 = ucast n"
    by (simp_all add: be_bytes_nth)
  have upt: "[13..<16] = [13, 14, 15 :: nat]" by (simp add: upt_rec)
  have "last24bit n = push_bit 16 (ucast (ucast (drop_bit 16 n) :: byte))
      OR push_bit 8 (ucast (ucast (drop_bit 8 n) :: byte)) OR ucast (ucast n :: byte)"
    unfolding last24bit_def upt fold_simps id_apply o_apply bs shift8_add
    by (simp add: push_bit_or or.assoc push_bit_push_bit)
  then show ?thesis unfolding low24_bytes .
qed

lemma dns_nid32_eq_nid2nid32: "dns_nid32 n = nid2nid32 n"
proof -
  have "(ucast n AND 16777215) AND 16777216 = (0 :: u32)"
    by (simp add: and.assoc)
  then have "(ucast n AND 16777215) + 16777216 = (ucast n AND 16777215) OR (16777216 :: u32)"
    by (rule disjunctive_add_eq_or)
  then show ?thesis
    by (simp add: dns_nid32_def last24bit_eq nid2nid32_bits or.commute)
qed

lemma nid2nid32_eq_iff:
  "nid2nid32 a = nid2nid32 b \<longleftrightarrow> ucast a AND 16777215 = (ucast b AND 16777215 :: NID32)"
proof -
  have *: "(16777216 OR (x AND 16777215)) AND 16777215 = x AND (16777215 :: u32)" for x
    by (simp add: bit.conj_disj_distrib2 and.assoc)
  show ?thesis
    unfolding nid2nid32_bits using * by metis
qed

end
