(* ===== verification/Inet.thy ===== *)
theory Inet
  imports NID_Types
begin

text \<open>
  The libc conversions between addresses and their text forms that the daemon calls:
  \<open>inet_ntop\<close> and \<open>inet_pton\<close> for \<open>AF_INET\<close> and \<open>AF_INET6\<close>, as the C library implements them.
  They are the standard library of the program, so they are modelled and not parameters.
  Shown: printing an IPv4 locator and parsing it back gives the locator.
\<close>

section \<open>Decimal and hexadecimal numbers\<close>

definition digit_char :: "nat \<Rightarrow> char" where
  "digit_char d = (if d < 10 then char_of (48 + d) else char_of (87 + d))"

fun num_string :: "nat \<Rightarrow> nat \<Rightarrow> string" where
  "num_string b n =
     (if b < 2 \<or> n < b then [digit_char n] else num_string b (n div b) @ [digit_char (n mod b)])"

declare num_string.simps [simp del]

definition is_dec :: "char \<Rightarrow> bool" where
  "is_dec c \<longleftrightarrow> 48 \<le> (of_char c :: nat) \<and> of_char c \<le> (57 :: nat)"

definition dec_val :: "char \<Rightarrow> nat" where
  "dec_val c = of_char c - 48"

definition hex_digit_value :: "char \<Rightarrow> nat option" where
  "hex_digit_value c =
     (let n = of_char c :: nat in
      if 48 \<le> n \<and> n \<le> 57 then Some (n - 48)
      else if 97 \<le> n \<and> n \<le> 102 then Some (n - 87)
      else if 65 \<le> n \<and> n \<le> 70 then Some (n - 55)
      else None)"

section \<open>IPv4\<close>

definition inet_ntop4 :: "NID32 \<Rightarrow> string" where
  "inet_ntop4 ip = (case map (\<lambda>b. num_string 10 (unat b)) (nid32_bytes ip) of
      [a, b, c, d] \<Rightarrow> a @ ''.'' @ b @ ''.'' @ c @ ''.'' @ d
    | _ \<Rightarrow> [])"

text \<open>
  The scanner of \<open>inet_pton4\<close>: the finished octets (latest first), the octet being read, whether
  it has a digit, and the number of octets begun.
\<close>

fun pton4_scan :: "nat list \<Rightarrow> nat \<Rightarrow> bool \<Rightarrow> nat \<Rightarrow> string \<Rightarrow> nat list option" where
  "pton4_scan tmp cur saw octets [] = (if octets < 4 then None else Some (rev (cur # tmp)))"
| "pton4_scan tmp cur saw octets (ch # src) =
     (if is_dec ch then
        (let new = cur * 10 + dec_val ch in
         if saw \<and> cur = 0 then None
         else if 255 < new then None
         else if \<not> saw then
           (if 4 < Suc octets then None else pton4_scan tmp new True (Suc octets) src)
         else pton4_scan tmp new True octets src)
      else if ch = CHR ''.'' \<and> saw then
        (if octets = 4 then None else pton4_scan (cur # tmp) 0 False octets src)
      else None)"

definition inet_pton4_bytes :: "string \<Rightarrow> byte list option" where
  "inet_pton4_bytes s = map_option (map of_nat) (pton4_scan [] 0 False 0 s)"

definition inet_pton4 :: "string \<Rightarrow> NID32 option" where
  "inet_pton4 s = map_option be_word (inet_pton4_bytes s)"

section \<open>IPv6\<close>

text \<open>
  The scanner of \<open>inet_pton6\<close>: the bytes written so far, the position of a double colon, the
  number of hexadecimal digits of the current group, its value, the text from the start of the
  current group (for an embedded IPv4 address) and the text still to read. The result is the bytes,
  the position of the double colon, the digits and the value of a pending group.
\<close>

fun pton6_scan :: "byte list \<Rightarrow> nat option \<Rightarrow> nat \<Rightarrow> nat \<Rightarrow> string \<Rightarrow> string \<Rightarrow>
    (byte list \<times> nat option \<times> nat \<times> nat) option" where
  "pton6_scan tp colonp xd val curtok [] = Some (tp, colonp, xd, val)"
| "pton6_scan tp colonp xd val curtok (ch # src) =
     (case hex_digit_value ch of
        Some d \<Rightarrow>
          (if xd = 4 then None
           else if 65535 < val * 16 + d then None
           else pton6_scan tp colonp (Suc xd) (val * 16 + d) curtok src)
      | None \<Rightarrow>
          (if ch = CHR '':'' then
             (if xd = 0 then
                (if colonp \<noteq> None then None else pton6_scan tp (Some (length tp)) xd val src src)
              else if src = [] then None
              else if 16 < length tp + 2 then None
              else pton6_scan (tp @ [of_nat (val div 256), of_nat (val mod 256)]) colonp 0 0 src src)
           else if ch = CHR ''.'' \<and> length tp + 4 \<le> 16 then
             (case inet_pton4_bytes curtok of
                Some q \<Rightarrow> Some (tp @ q, colonp, 0, val)
              | None \<Rightarrow> None)
           else None))"

definition pton6_finish :: "byte list \<Rightarrow> nat option \<Rightarrow> nat \<Rightarrow> nat \<Rightarrow> byte list option" where
  "pton6_finish tp colonp xd val =
     (if 0 < xd \<and> 16 < length tp + 2 then None
      else
        (let tp' = (if 0 < xd then tp @ [of_nat (val div 256), of_nat (val mod 256)] else tp) in
         case colonp of
           None \<Rightarrow> if length tp' = 16 then Some tp' else None
         | Some k \<Rightarrow>
             if length tp' = 16 then None
             else Some (take k tp' @ replicate (16 - length tp') 0 @ drop k tp')))"

definition inet_pton6 :: "string \<Rightarrow> NID option" where
  "inet_pton6 s =
     (case s of
        [] \<Rightarrow> None
      | c # rest \<Rightarrow>
          if c = CHR '':'' \<and> (rest = [] \<or> hd rest \<noteq> CHR '':'') then None
          else
            (let src = (if c = CHR '':'' then rest else s) in
             case pton6_scan [] None 0 0 src src of
               None \<Rightarrow> None
             | Some (tp, colonp, xd, val) \<Rightarrow> map_option be_word (pton6_finish tp colonp xd val)))"

text \<open>The groups of an address and the longest run of zero groups \<open>inet_ntop6\<close> shortens.\<close>

definition nid_groups :: "NID \<Rightarrow> nat list" where
  "nid_groups n = map (\<lambda>i. unat (take_bit 16 (drop_bit (16 * (7 - i)) n))) [0..<8]"

fun ntop6_best :: "nat \<Rightarrow> (nat \<times> nat) option \<Rightarrow> (nat \<times> nat) option \<Rightarrow> nat list \<Rightarrow> (nat \<times> nat) option" where
  "ntop6_best i cur best [] =
     (case cur of None \<Rightarrow> best
      | Some (b, l) \<Rightarrow> (case best of None \<Rightarrow> cur | Some (b', l') \<Rightarrow> if l' < l then cur else best))"
| "ntop6_best i cur best (w # ws) =
     (if w = 0 then
        ntop6_best (Suc i) (case cur of None \<Rightarrow> Some (i, 1) | Some (b, l) \<Rightarrow> Some (b, Suc l)) best ws
      else
        ntop6_best (Suc i) None
          (case cur of None \<Rightarrow> best
           | Some (b, l) \<Rightarrow> (case best of None \<Rightarrow> cur | Some (b', l') \<Rightarrow> if l' < l then cur else best)) ws)"

fun ntop6_emit :: "NID \<Rightarrow> nat list \<Rightarrow> (nat \<times> nat) option \<Rightarrow> nat \<Rightarrow> nat list \<Rightarrow> string" where
  "ntop6_emit n g best i [] =
     (case best of Some (b, l) \<Rightarrow> if b + l = 8 then '':'' else [] | None \<Rightarrow> [])"
| "ntop6_emit n g best i (w # ws) =
     (if (case best of Some (b, l) \<Rightarrow> b \<le> i \<and> i < b + l | None \<Rightarrow> False) then
        (if (case best of Some (b, l) \<Rightarrow> i = b | None \<Rightarrow> False) then '':'' else [])
          @ ntop6_emit n g best (Suc i) ws
      else
        (if i \<noteq> 0 then '':'' else []) @
        (if i = 6 \<and> (case best of Some (b, l) \<Rightarrow> b = 0 \<and> (l = 6 \<or> l = 5 \<and> g ! 5 = 65535)
                      | None \<Rightarrow> False)
         then inet_ntop4 (ucast n)
           @ (case best of Some (b, l) \<Rightarrow> if b + l = 8 then '':'' else [] | None \<Rightarrow> [])
         else num_string 16 w @ ntop6_emit n g best (Suc i) ws))"

definition inet_ntop6 :: "NID \<Rightarrow> string" where
  "inet_ntop6 n =
     (let g = nid_groups n;
          best = (case ntop6_best 0 None None g of
                    Some (b, l) \<Rightarrow> if l < 2 then None else Some (b, l) | None \<Rightarrow> None)
      in ntop6_emit n g best 0 g)"

section \<open>Round trip of an IPv4 locator\<close>

lemma digit_char_dec: "d < 10 \<Longrightarrow> is_dec (digit_char d) \<and> dec_val (digit_char d) = d"
  by (auto simp: is_dec_def dec_val_def digit_char_def of_char_of)

lemma num_string_dec_octet:
  assumes "n < 256" and "octets < 4"
  shows "pton4_scan tmp 0 False octets (num_string 10 n @ rest)
       = pton4_scan tmp n True (Suc octets) rest"
proof -
  have s: "num_string 10 n = (if n < 10 then [digit_char n]
      else if n < 100 then [digit_char (n div 10), digit_char (n mod 10)]
      else [digit_char (n div 100), digit_char (n div 10 mod 10), digit_char (n mod 10)])"
    using assms(1) by (auto simp: num_string.simps [of 10 n] num_string.simps [of 10 "n div 10"]
      num_string.simps [of 10 "n div 100"] div_mult2_eq [symmetric])
  have hundreds: "100 * (n div 100) + n div 10 mod 10 * 10 + n mod 10 = n"
  proof -
    have "n div 100 = n div 10 div 10" by (simp add: div_mult2_eq [symmetric])
    moreover have "n div 10 div 10 * 10 + n div 10 mod 10 = n div 10" by (rule div_mult_mod_eq)
    moreover have "n div 10 * 10 + n mod 10 = n" by (rule div_mult_mod_eq)
    ultimately show ?thesis by linarith
  qed
  consider "n < 10" | "10 \<le> n" "n < 100" | "100 \<le> n" by linarith
  then show ?thesis
    using assms by cases (auto simp: s digit_char_dec Let_def hundreds)
qed

lemma dot_not_dec: "\<not> is_dec (CHR ''.'')"
  by (simp add: is_dec_def)

lemma of_nat_unat_byte [simp]: "of_nat (unat (b :: byte)) = b"
  by simp

lemma inet_pton4_ntop4: "inet_pton4 (inet_ntop4 ip) = Some ip"
proof -
  obtain a b c d where abcd: "nid32_bytes ip = [a, b, c, d]"
    by (simp add: be_bytes_def upt_rec)
  have lt: "unat (x :: byte) < 256" for x
    using unsigned_less [of x, where 'a = nat] by simp
  have "pton4_scan [] 0 False 0 (inet_ntop4 ip) = Some (map unat [a, b, c, d])"
    using num_string_dec_octet [OF lt, of "Suc (Suc (Suc 0))" _ d "[]"]
    by (simp add: inet_ntop4_def abcd num_string_dec_octet lt dot_not_dec)
  then have "inet_pton4 (inet_ntop4 ip) = Some (be_word [a, b, c, d])"
    by (simp add: inet_pton4_def inet_pton4_bytes_def)
  also have "be_word [a, b, c, d] = ip"
    using be_word_be_bytes [of 4 ip] by (simp add: abcd)
  finally show ?thesis .
qed

section \<open>The texts hold no zero byte\<close>

definition no_nul :: "string \<Rightarrow> bool" where
  "no_nul str \<longleftrightarrow> (\<forall>c \<in> set str. of_char c \<noteq> (0 :: nat))"

lemma no_nul_simps [simp]:
  "no_nul []" "no_nul (c # str) \<longleftrightarrow> of_char c \<noteq> (0 :: nat) \<and> no_nul str"
  "no_nul (xs @ ys) \<longleftrightarrow> no_nul xs \<and> no_nul ys"
  by (auto simp: no_nul_def)

lemma digit_char_no_nul: "d < 16 \<Longrightarrow> of_char (digit_char d) \<noteq> (0 :: nat)"
  by (auto simp: digit_char_def of_char_of)

lemma num_string_no_nul: "2 \<le> b \<Longrightarrow> b \<le> 16 \<Longrightarrow> no_nul (num_string b n)"
proof (induction b n rule: num_string.induct)
  case (1 b n)
  have "n mod b < b" using 1(2) by simp
  then have "n mod b < 16" using 1(3) by linarith
  then show ?case using 1 digit_char_no_nul
    by (simp add: num_string.simps [of b n])
qed

lemma inet_ntop4_no_nul: "no_nul (inet_ntop4 ip)"
proof -
  obtain a b c d where abcd: "nid32_bytes ip = [a, b, c, d]"
    by (simp add: be_bytes_def upt_rec)
  show ?thesis by (simp add: inet_ntop4_def abcd num_string_no_nul)
qed

lemma ntop6_emit_no_nul: "no_nul (ntop6_emit n g best i ws)"
  by (induction n g best i ws rule: ntop6_emit.induct)
    (auto simp: num_string_no_nul inet_ntop4_no_nul split: option.split)

lemma inet_ntop6_no_nul: "no_nul (inet_ntop6 n)"
  by (simp add: inet_ntop6_def ntop6_emit_no_nul Let_def)

text \<open>A locator's text has at most 15 characters.\<close>

lemma length_num_string3: "n < 1000 \<Longrightarrow> length (num_string 10 n) \<le> 3"
  by (simp add: num_string.simps [of 10 n] num_string.simps [of 10 "n div 10"] num_string.simps [of 10 "n div 10 div 10"])

lemma length_inet_ntop4: "length (inet_ntop4 ip) < 16"
proof -
  have "length (num_string 10 (unat b)) \<le> 3" for b :: byte
    using unsigned_less [of b, where 'a = nat] by (intro length_num_string3) simp
  note n = this
  obtain a b c d where abcd: "nid32_bytes ip = [a, b, c, d]"
    by (simp add: be_bytes_def upt_rec)
  show ?thesis using n [of a] n [of b] n [of c] n [of d] by (simp add: inet_ntop4_def abcd)
qed

text \<open>It is made of digits and dots.\<close>

lemma num_string_nonempty: "num_string b n \<noteq> []"
  by (subst num_string.simps) simp

lemma num_string_dec: "set (num_string 10 n) \<subseteq> {c. is_dec c}"
proof (induction "10 :: nat" n rule: num_string.induct)
  case (1 n)
  have d: "is_dec (digit_char k)" if "k < 10" for k using that by (simp add: is_dec_def digit_char_def)
  show ?case
  proof (cases "n < 10")
    case True
    then show ?thesis by (simp add: num_string.simps [of 10 n] d)
  next
    case False
    with 1 show ?thesis by (simp add: num_string.simps [of 10 n] d)
  qed
qed

lemma inet_ntop4_plain: "inet_ntop4 ip \<noteq> [] \<and> CHR ''|'' \<notin> set (inet_ntop4 ip)"
proof -
  obtain a b c d where abcd: "nid32_bytes ip = [a, b, c, d]" by (simp add: be_bytes_def upt_rec)
  have n: "CHR ''|'' \<notin> set (num_string 10 k)" for k
    using num_string_dec [of k] by (auto simp: is_dec_def of_char_def)
  show ?thesis by (simp add: inet_ntop4_def abcd n)
qed

end
