(* ===== verification/LList.thy ===== *)
theory LList
  imports NID_Types
begin

text \<open>
  The linked list of \<open>src/src/llist.c\<close>: a head with a counter and a chain of nodes, each an
  identity and a copy of a locator's text. The chain is a list in link order. Shown: appending
  through the tail walk keeps the counter equal to the length of the chain and puts the node last.
\<close>

record ll_node =
  ln_nid :: NID
  ln_ip :: string

record ll_head =
  ll_size :: int
  ll_next :: "ll_node list"

definition init_ll :: ll_head where
  "init_ll = \<lparr>ll_size = 0, ll_next = []\<rparr>"

text \<open>\<open>tail\<close>: the last node of the chain, null for an empty chain.\<close>

fun ll_tail :: "ll_node list \<Rightarrow> ll_node option" where
  "ll_tail [] = None"
| "ll_tail [n] = Some n"
| "ll_tail (n # m # ns) = ll_tail (m # ns)"

text \<open>Linking a node behind the tail: \<open>last->next = node\<close>, or \<open>ll->next = node\<close> without a tail.\<close>

fun ll_link :: "ll_node \<Rightarrow> ll_node list \<Rightarrow> ll_node list" where
  "ll_link node [] = [node]"
| "ll_link node (n # ns) = n # ll_link node ns"

definition add_ll :: "NID \<Rightarrow> string \<Rightarrow> ll_head \<Rightarrow> ll_head" where
  "add_ll nid ip ll =
     \<lparr>ll_size = ll_size ll + 1, ll_next = ll_link \<lparr>ln_nid = nid, ln_ip = ip\<rparr> (ll_next ll)\<rparr>"

text \<open>\<open>free_ll\<close> frees the nodes from the last to the first; \<open>destroy_ll\<close> then frees the head.\<close>

fun free_ll :: "ll_node list \<Rightarrow> ll_node list" where
  "free_ll [] = []"
| "free_ll (n # ns) = free_ll ns @ [n]"

definition destroy_ll :: "ll_head \<Rightarrow> ll_node list" where
  "destroy_ll ll = free_ll (ll_next ll)"

definition ll_ok :: "ll_head \<Rightarrow> bool" where
  "ll_ok ll \<longleftrightarrow> ll_size ll = int (length (ll_next ll))"

lemma ll_link_append [simp]: "ll_link node ns = ns @ [node]"
  by (induction ns) auto

lemma ll_tail_last: "ll_tail ns = (if ns = [] then None else Some (last ns))"
  by (induction ns rule: ll_tail.induct) auto

lemma ll_ok_init [simp]: "ll_ok init_ll"
  by (simp add: ll_ok_def init_ll_def)

lemma ll_ok_add [simp]: "ll_ok (add_ll nid ip ll) = ll_ok ll"
  by (auto simp: ll_ok_def add_ll_def)

lemma add_ll_next [simp]: "ll_next (add_ll nid ip ll) = ll_next ll @ [\<lparr>ln_nid = nid, ln_ip = ip\<rparr>]"
  by (simp add: add_ll_def)

lemma ll_tail_add: "ll_tail (ll_next (add_ll nid ip ll)) = Some \<lparr>ln_nid = nid, ln_ip = ip\<rparr>"
  by (simp add: ll_tail_last)

lemma destroy_ll_frees_all: "set (destroy_ll ll) = set (ll_next ll) \<and>
    length (destroy_ll ll) = length (ll_next ll)"
proof -
  have "free_ll ns = rev ns" for ns by (induction ns) auto
  then show ?thesis by (simp add: destroy_ll_def)
qed

end
