(* ===== verification/Hash_Tables.thy ===== *)
theory Hash_Tables
  imports Inet LList
begin

text \<open>
  The chained hash tables of \<open>src/src/hash.c\<close> (keys: identities), \<open>hash32.c\<close> (keys: 32-bit
  identities) and \<open>fqdn_hash.c\<close> (keys: names). The three files are one algorithm at three key
  types, so the bucket walks are written once (\<open>chain_\<close> for one bucket list, \<open>tbl_\<close> for a table
  and a hash value) and each file's operation applies them to its own hash function.

  Shown: with the invariant \<open>tbl_ok\<close> (the array has the declared size, every key sits in the
  bucket of its hash value, no key occurs twice) no operation divides by zero or leaves the array,
  every operation keeps the invariant, and a table behaves as a finite map. The interface the rest
  of the daemon relies on is the locale \<open>kv_table\<close>, interpreted on the three tables.
\<close>

section \<open>Buckets\<close>

record ('k, 'd) bucket =
  b_key :: 'k
  b_data :: 'd

record ('k, 'd) hash_table =
  ht_size :: nat
  ht_table :: "('k, 'd) bucket list list"

text \<open>
  Walks over one bucket chain. \<open>chain_replace\<close> returns the old data and the chain with the new data
  in the bucket of the key; \<open>chain_remove\<close> the data and the chain without that bucket; both are
  \<open>None\<close> when the walk ends without meeting the key.
\<close>

fun chain_find :: "'k \<Rightarrow> ('k, 'd) bucket list \<Rightarrow> 'd option" where
  "chain_find k [] = None"
| "chain_find k (p # ps) = (if k = b_key p then Some (b_data p) else chain_find k ps)"

fun chain_replace :: "'k \<Rightarrow> 'd \<Rightarrow> ('k, 'd) bucket list \<Rightarrow> ('d \<times> ('k, 'd) bucket list) option" where
  "chain_replace k d [] = None"
| "chain_replace k d (p # ps) =
     (if k = b_key p then Some (b_data p, p\<lparr>b_data := d\<rparr> # ps)
      else case chain_replace k d ps of None \<Rightarrow> None | Some (old, ps') \<Rightarrow> Some (old, p # ps'))"

fun chain_remove :: "'k \<Rightarrow> ('k, 'd) bucket list \<Rightarrow> ('d \<times> ('k, 'd) bucket list) option" where
  "chain_remove k [] = None"
| "chain_remove k (p # ps) =
     (if k = b_key p then Some (b_data p, ps)
      else case chain_remove k ps of None \<Rightarrow> None | Some (d, ps') \<Rightarrow> Some (d, p # ps'))"

section \<open>Tables over a hash value\<close>

text \<open>
  \<open>hash(key) % table->size\<close>: a table of size 0 divides by zero, and the process dies; so does an
  access past the array. The array is \<open>[]\<close> when \<open>table->table\<close> is null.
\<close>

definition tbl_slot :: "u32 \<Rightarrow> ('k, 'd) hash_table \<Rightarrow> nat run" where
  "tbl_slot h t =
     (if ht_size t = 0 then None
      else if unat h mod ht_size t < length (ht_table t) then Some (unat h mod ht_size t) else None)"

definition tbl_set :: "('k, 'd) hash_table \<Rightarrow> nat \<Rightarrow> ('k, 'd) bucket list \<Rightarrow> ('k, 'd) hash_table" where
  "tbl_set t v ps = t\<lparr>ht_table := (ht_table t)[v := ps]\<rparr>"

text \<open>\<open>mem\<close> says whether the allocation the operation makes, if it makes one, succeeds.\<close>

definition tbl_construct :: "bool \<Rightarrow> nat \<Rightarrow> ('k, 'd) hash_table" where
  "tbl_construct mem n =
     (if mem then \<lparr>ht_size = n, ht_table = replicate n []\<rparr> else \<lparr>ht_size = 0, ht_table = []\<rparr>)"

definition tbl_insert ::
  "bool \<Rightarrow> u32 \<Rightarrow> 'k \<Rightarrow> 'd \<Rightarrow> ('k, 'd) hash_table \<Rightarrow> ('d option \<times> ('k, 'd) hash_table) run" where
  "tbl_insert mem h k d t = do {
     v \<leftarrow> tbl_slot h t;
     let ps = ht_table t ! v;
     let new = \<lparr>b_key = k, b_data = d\<rparr>;
     if ps = [] then
       (if mem then Some (Some d, tbl_set t v [new]) else Some (None, t))
     else
       (case chain_replace k d ps of
          Some (old_data, ps') \<Rightarrow> Some (Some old_data, tbl_set t v ps')
        | None \<Rightarrow> if mem then Some (Some d, tbl_set t v (new # ps)) else Some (None, t))
   }"

definition tbl_lookup :: "u32 \<Rightarrow> 'k \<Rightarrow> ('k, 'd) hash_table \<Rightarrow> 'd option run" where
  "tbl_lookup h k t = do {
     v \<leftarrow> tbl_slot h t;
     if ht_table t ! v = [] then Some None else Some (chain_find k (ht_table t ! v))
   }"

definition tbl_del :: "u32 \<Rightarrow> 'k \<Rightarrow> ('k, 'd) hash_table \<Rightarrow> ('d option \<times> ('k, 'd) hash_table) run" where
  "tbl_del h k t = do {
     v \<leftarrow> tbl_slot h t;
     if ht_table t ! v = [] then Some (None, t)
     else
       (case chain_remove k (ht_table t ! v) of
          Some (d, ps') \<Rightarrow> Some (Some d, tbl_set t v ps')
        | None \<Rightarrow> Some (None, t))
   }"

text \<open>
  \<open>free_hash_table\<close> hands the data of every node to the callback, bucket by bucket in chain order,
  when there is a callback; the result is the emptied table and the sequence of calls.
\<close>

definition tbl_free :: "bool \<Rightarrow> ('k, 'd) hash_table \<Rightarrow> ('k, 'd) hash_table \<times> 'd list" where
  "tbl_free func t =
     (\<lparr>ht_size = 0, ht_table = []\<rparr>,
      if func then map b_data (concat (take (ht_size t) (ht_table t))) else [])"

section \<open>hash.c: tables keyed by identities\<close>

text \<open>The shift-and-xor loop over the bytes of the key, in a 32-bit accumulator.\<close>

definition hash_step :: "u32 \<Rightarrow> u32 \<Rightarrow> u32" where
  "hash_step ret_val i = push_bit 1 (ret_val XOR i)"

definition hash :: "NID \<Rightarrow> u32" where
  "hash nid = foldl hash_step 0 (map ucast (nid_bytes nid))"

definition construct_hash_table :: "bool \<Rightarrow> nat \<Rightarrow> (NID, 'd) hash_table" where
  "construct_hash_table mem sz = tbl_construct mem sz"

definition hash_insert ::
  "bool \<Rightarrow> NID \<Rightarrow> 'd \<Rightarrow> (NID, 'd) hash_table \<Rightarrow> ('d option \<times> (NID, 'd) hash_table) run" where
  "hash_insert mem nid data table = tbl_insert mem (hash nid) nid data table"

definition hash_lookup :: "NID \<Rightarrow> (NID, 'd) hash_table \<Rightarrow> 'd option run" where
  "hash_lookup nid table = tbl_lookup (hash nid) nid table"

definition hash_del :: "NID \<Rightarrow> (NID, 'd) hash_table \<Rightarrow> ('d option \<times> (NID, 'd) hash_table) run" where
  "hash_del nid table = tbl_del (hash nid) nid table"

definition free_hash_table :: "bool \<Rightarrow> (NID, 'd) hash_table \<Rightarrow> (NID, 'd) hash_table \<times> 'd list" where
  "free_hash_table func table = tbl_free func table"

text \<open>
  \<open>hash_enumerate\<close> visits the buckets in order and appends every live connection entry to the list:
  an entry updated less than \<open>RVS_UPDATE_TIMEOUT\<close> seconds ago or a static one. The clock is read at
  every node: \<open>clk i\<close> is the reading at the \<open>i\<close>-th node of the walk.
\<close>

definition ce_live :: "time \<Rightarrow> conn_entry \<Rightarrow> bool" where
  "ce_live now ce \<longleftrightarrow> ce_tstamp ce + RVS_UPDATE_TIMEOUT > now \<or> ce_tstamp ce = 0"

fun enum_nodes :: "(nat \<Rightarrow> time) \<Rightarrow> nat \<Rightarrow> (NID, conn_entry) bucket list \<Rightarrow> ll_head \<Rightarrow> ll_head" where
  "enum_nodes clk i [] ll = ll"
| "enum_nodes clk i (p # ps) ll =
     enum_nodes clk (Suc i) ps
       (if ce_live (clk i) (b_data p) then add_ll (b_key p) (inet_ntop4 (ce_ip (b_data p))) ll else ll)"

definition hash_enumerate ::
  "(nat \<Rightarrow> time) \<Rightarrow> (NID, conn_entry) hash_table \<Rightarrow> ll_head \<Rightarrow> ll_head" where
  "hash_enumerate clk table ll = enum_nodes clk 0 (concat (take (ht_size table) (ht_table table))) ll"

section \<open>hash32.c: tables keyed by 32-bit identities\<close>

definition hash32 :: "NID32 \<Rightarrow> u32" where
  "hash32 nid32 = foldl hash_step 0 (map ucast (nid32_bytes nid32))"

definition construct_hash_table32 :: "bool \<Rightarrow> nat \<Rightarrow> (NID32, 'd) hash_table" where
  "construct_hash_table32 mem sz = tbl_construct mem sz"

definition hash_insert32 ::
  "bool \<Rightarrow> NID32 \<Rightarrow> 'd \<Rightarrow> (NID32, 'd) hash_table \<Rightarrow> ('d option \<times> (NID32, 'd) hash_table) run" where
  "hash_insert32 mem nid32 data table = tbl_insert mem (hash32 nid32) nid32 data table"

definition hash_lookup32 :: "NID32 \<Rightarrow> (NID32, 'd) hash_table \<Rightarrow> 'd option run" where
  "hash_lookup32 nid32 table = tbl_lookup (hash32 nid32) nid32 table"

definition hash_del32 ::
  "NID32 \<Rightarrow> (NID32, 'd) hash_table \<Rightarrow> ('d option \<times> (NID32, 'd) hash_table) run" where
  "hash_del32 nid32 table = tbl_del (hash32 nid32) nid32 table"

definition free_hash_table32 :: "bool \<Rightarrow> (NID32, 'd) hash_table \<Rightarrow> (NID32, 'd) hash_table \<times> 'd list" where
  "free_hash_table32 func table = tbl_free func table"

section \<open>fqdn_hash.c: tables keyed by names\<close>

text \<open>
  Names are C strings of type \<open>char *\<close>: \<open>char\<close> is signed on the target, so a byte above 127 is
  sign-extended into the accumulator. The key is a byte list without the terminating zero.
\<close>

definition fqdn_hash :: "byte list \<Rightarrow> u32" where
  "fqdn_hash str = foldl hash_step 0 (map scast str)"

definition construct_fqdn_hash_table :: "bool \<Rightarrow> nat \<Rightarrow> (byte list, 'd) hash_table" where
  "construct_fqdn_hash_table mem sz = tbl_construct mem sz"

definition fqdn_hash_insert ::
  "bool \<Rightarrow> byte list \<Rightarrow> 'd \<Rightarrow> (byte list, 'd) hash_table \<Rightarrow>
   ('d option \<times> (byte list, 'd) hash_table) run" where
  "fqdn_hash_insert mem key data table = tbl_insert mem (fqdn_hash key) key data table"

definition fqdn_hash_lookup :: "byte list \<Rightarrow> (byte list, 'd) hash_table \<Rightarrow> 'd option run" where
  "fqdn_hash_lookup key table = tbl_lookup (fqdn_hash key) key table"

definition fqdn_hash_del ::
  "byte list \<Rightarrow> (byte list, 'd) hash_table \<Rightarrow> ('d option \<times> (byte list, 'd) hash_table) run" where
  "fqdn_hash_del key table = tbl_del (fqdn_hash key) key table"

definition free_fqdn_hash_table ::
  "bool \<Rightarrow> (byte list, 'd) hash_table \<Rightarrow> (byte list, 'd) hash_table \<times> 'd list" where
  "free_fqdn_hash_table func table = tbl_free func table"

definition fqdn_hash_enumerate :: "(byte list, 'd) hash_table \<Rightarrow> (byte list \<times> 'd) list" where
  "fqdn_hash_enumerate table =
     map (\<lambda>p. (b_key p, b_data p)) (concat (take (ht_size table) (ht_table table)))"

section \<open>Invariant and abstract view\<close>

definition tbl_ok :: "('k \<Rightarrow> u32) \<Rightarrow> ('k, 'd) hash_table \<Rightarrow> bool" where
  "tbl_ok hf t \<longleftrightarrow> 0 < ht_size t \<and> length (ht_table t) = ht_size t \<and>
     (\<forall>v < ht_size t. distinct (map b_key (ht_table t ! v)) \<and>
        (\<forall>p \<in> set (ht_table t ! v). unat (hf (b_key p)) mod ht_size t = v))"

definition tbl_view :: "('k \<Rightarrow> u32) \<Rightarrow> ('k, 'd) hash_table \<Rightarrow> 'k \<Rightarrow> 'd option" where
  "tbl_view hf t k =
     (case tbl_slot (hf k) t of None \<Rightarrow> None | Some v \<Rightarrow> chain_find k (ht_table t ! v))"

text \<open>The table after an insertion with memory available, and after a deletion.\<close>

definition tbl_put :: "u32 \<Rightarrow> 'k \<Rightarrow> 'd \<Rightarrow> ('k, 'd) hash_table \<Rightarrow> ('k, 'd) hash_table" where
  "tbl_put h k d t = (case tbl_insert True h k d t of Some (_, t') \<Rightarrow> t' | None \<Rightarrow> t)"

definition tbl_drop :: "u32 \<Rightarrow> 'k \<Rightarrow> ('k, 'd) hash_table \<Rightarrow> ('k, 'd) hash_table" where
  "tbl_drop h k t = (case tbl_del h k t of Some (_, t') \<Rightarrow> t' | None \<Rightarrow> t)"

subsection \<open>One chain\<close>

lemma chain_find_None_iff: "chain_find k ps = None \<longleftrightarrow> k \<notin> b_key ` set ps"
  by (induction ps) auto

lemma chain_replace_None_iff: "chain_replace k d ps = None \<longleftrightarrow> chain_find k ps = None"
  by (induction ps) (auto split: option.splits)

lemma chain_replace_Some:
  "chain_replace k d ps = Some (old, ps') \<Longrightarrow>
   chain_find k ps = Some old \<and> map b_key ps' = map b_key ps \<and>
   (\<forall>k'. chain_find k' ps' = (if k' = k then Some d else chain_find k' ps))"
proof (induction ps arbitrary: ps')
  case Nil
  then show ?case by simp
next
  case (Cons p ps)
  then show ?case by (cases "k = b_key p") (auto split: option.splits)
qed

lemma chain_remove_None_iff: "chain_remove k ps = None \<longleftrightarrow> chain_find k ps = None"
  by (induction ps) (auto split: option.splits)

lemma chain_remove_Some:
  "chain_remove k ps = Some (d, ps') \<Longrightarrow> distinct (map b_key ps) \<Longrightarrow>
   chain_find k ps = Some d \<and> set ps' \<subseteq> set ps \<and> distinct (map b_key ps') \<and>
   (\<forall>k'. chain_find k' ps' = (if k' = k then None else chain_find k' ps))"
proof (induction ps arbitrary: ps')
  case Nil
  then show ?case by simp
next
  case (Cons p ps)
  show ?case
  proof (cases "k = b_key p")
    case True
    then show ?thesis using Cons.prems by (auto simp: chain_find_None_iff)
  next
    case False
    then obtain ps'' where rm: "chain_remove k ps = Some (d, ps'')" and ps': "ps' = p # ps''"
      using Cons.prems(1) by (auto split: option.splits)
    have IH: "chain_find k ps = Some d \<and> set ps'' \<subseteq> set ps \<and> distinct (map b_key ps'') \<and>
        (\<forall>k'. chain_find k' ps'' = (if k' = k then None else chain_find k' ps))"
      using Cons.IH [OF rm] Cons.prems(2) by simp
    then show ?thesis using False Cons.prems(2) ps' by auto
  qed
qed

subsection \<open>Tables\<close>

lemma tbl_ok_slot: "tbl_ok hf t \<Longrightarrow> tbl_slot h t = Some (unat h mod ht_size t)"
  by (simp add: tbl_ok_def tbl_slot_def)

lemma tbl_ok_slotE:
  assumes "tbl_ok hf t"
  obtains v where "tbl_slot h t = Some v" "v < ht_size t" "v < length (ht_table t)"
    "v = unat h mod ht_size t"
  using assms tbl_ok_slot [OF assms] by (auto simp: tbl_ok_def)

text \<open>Replacing one chain by another with the right keys keeps the invariant.\<close>

lemma tbl_ok_set:
  assumes "tbl_ok hf t" "distinct (map b_key ps)"
    "\<And>p. p \<in> set ps \<Longrightarrow> unat (hf (b_key p)) mod ht_size t = v"
  shows "tbl_ok hf (tbl_set t v ps)"
proof (cases "v < length (ht_table t)")
  case True
  then show ?thesis using assms by (auto simp: tbl_ok_def tbl_set_def nth_list_update)
next
  case False
  then show ?thesis using assms(1) by (simp add: tbl_set_def list_update_beyond)
qed

lemma tbl_view_set:
  assumes "tbl_ok hf t" "v < ht_size t"
  shows "tbl_view hf (tbl_set t v ps) k =
    (if unat (hf k) mod ht_size t = v then chain_find k ps else tbl_view hf t k)"
  using assms
  by (auto simp: tbl_view_def tbl_slot_def tbl_set_def tbl_ok_def)

lemma tbl_view_at:
  "tbl_ok hf t \<Longrightarrow> tbl_view hf t k = chain_find k (ht_table t ! (unat (hf k) mod ht_size t))"
  by (simp add: tbl_view_def tbl_ok_slot)

lemma tbl_lookup_view: "tbl_ok hf t \<Longrightarrow> tbl_lookup (hf k) k t = Some (tbl_view hf t k)"
  by (auto simp: tbl_lookup_def tbl_view_def tbl_ok_slot)

text \<open>
  One bucket rewritten by a chain \<open>ps\<close> that maps \<open>k\<close> to \<open>x\<close> and every other key as before updates
  the view at \<open>k\<close> only.
\<close>

lemma tbl_set_view_upd:
  assumes ok: "tbl_ok hf t" and v: "v = unat (hf k) mod ht_size t"
    and ps: "\<And>k'. chain_find k' ps = (if k' = k then x else chain_find k' (ht_table t ! v))"
  shows "tbl_view hf (tbl_set t v ps) = (tbl_view hf t)(k := x)"
proof
  fix k'
  have "v < ht_size t" using ok v by (simp add: tbl_ok_def)
  then show "tbl_view hf (tbl_set t v ps) k' = ((tbl_view hf t)(k := x)) k'"
    using ok v ps by (auto simp: tbl_view_set tbl_view_at)
qed

lemma tbl_chain_ok:
  assumes "tbl_ok hf t" "v < ht_size t"
  shows "distinct (map b_key (ht_table t ! v))"
    and "p \<in> set (ht_table t ! v) \<Longrightarrow> unat (hf (b_key p)) mod ht_size t = v"
  using assms by (auto simp: tbl_ok_def)

lemma tbl_insert_view:
  assumes ok: "tbl_ok hf t"
  shows "\<exists>t'. tbl_insert mem (hf k) k d t =
      Some (if mem then Some (case tbl_view hf t k of Some old \<Rightarrow> old | None \<Rightarrow> d)
            else tbl_view hf t k, t') \<and> tbl_ok hf t' \<and>
    tbl_view hf t' = (if mem \<or> tbl_view hf t k \<noteq> None then (tbl_view hf t)(k := Some d)
                      else tbl_view hf t)"
proof -
  obtain v where v: "tbl_slot (hf k) t = Some v" "v < ht_size t" "v = unat (hf k) mod ht_size t"
    using ok by (rule tbl_ok_slotE) auto
  let ?ps = "ht_table t ! v"
  let ?new = "\<lparr>b_key = k, b_data = d\<rparr> # ?ps"
  note ch = tbl_chain_ok [OF ok v(2)]
  have view: "tbl_view hf t k = chain_find k ?ps"
    using ok v(3) by (simp add: tbl_view_at)
  show ?thesis
  proof (cases "chain_replace k d ?ps")
    case None
    then have nk: "chain_find k ?ps = None" by (simp add: chain_replace_None_iff)
    have "tbl_ok hf (tbl_set t v ?new)"
      using ch nk v(3) by (intro tbl_ok_set [OF ok]) (auto simp: chain_find_None_iff)
    moreover have "tbl_view hf (tbl_set t v ?new) = (tbl_view hf t)(k := Some d)"
      by (rule tbl_set_view_upd [OF ok v(3)]) simp
    ultimately show ?thesis
      using None nk ok view by (cases mem; cases "?ps = []") (auto simp: tbl_insert_def v(1))
  next
    case (Some r)
    obtain old ps' where r: "r = (old, ps')" by fastforce
    note rep = chain_replace_Some [OF Some [unfolded r]]
    have ne: "?ps \<noteq> []" using rep by auto
    have keys: "b_key ` set ps' = b_key ` set ?ps"
      using rep by (metis set_map)
    have "unat (hf (b_key p)) mod ht_size t = v" if "p \<in> set ps'" for p
    proof -
      have "b_key p \<in> b_key ` set ?ps" using that keys by blast
      then show ?thesis using ch(2) by auto
    qed
    then have "tbl_ok hf (tbl_set t v ps')"
      using ch(1) rep by (intro tbl_ok_set [OF ok]) auto
    moreover have "tbl_view hf (tbl_set t v ps') = (tbl_view hf t)(k := Some d)"
      by (rule tbl_set_view_upd [OF ok v(3)]) (use rep in auto)
    ultimately show ?thesis
      using Some r rep ne view by (auto simp: tbl_insert_def v(1))
  qed
qed

lemma tbl_del_view:
  assumes ok: "tbl_ok hf t"
  shows "\<exists>t'. tbl_del (hf k) k t = Some (tbl_view hf t k, t') \<and> tbl_ok hf t' \<and>
    tbl_view hf t' = (tbl_view hf t)(k := None)"
proof -
  obtain v where v: "tbl_slot (hf k) t = Some v" "v < ht_size t" "v = unat (hf k) mod ht_size t"
    using ok by (rule tbl_ok_slotE) auto
  let ?ps = "ht_table t ! v"
  note ch = tbl_chain_ok [OF ok v(2)]
  have view: "tbl_view hf t k = chain_find k ?ps"
    using ok v(3) by (simp add: tbl_view_at)
  show ?thesis
  proof (cases "chain_remove k ?ps")
    case None
    then have "tbl_view hf t k = None" by (simp add: view chain_remove_None_iff)
    then show ?thesis using None ok by (auto simp: tbl_del_def v(1) fun_upd_idem)
  next
    case (Some r)
    obtain d ps' where r: "r = (d, ps')" by fastforce
    note rm = chain_remove_Some [OF Some [unfolded r] ch(1)]
    have ne: "?ps \<noteq> []" using rm by auto
    have "tbl_ok hf (tbl_set t v ps')"
      using ch(2) rm by (intro tbl_ok_set [OF ok]) auto
    moreover have "tbl_view hf (tbl_set t v ps') = (tbl_view hf t)(k := None)"
      by (rule tbl_set_view_upd [OF ok v(3)]) (use rm in auto)
    ultimately show ?thesis
      using Some r rm ne view by (auto simp: tbl_del_def v(1))
  qed
qed

lemma tbl_construct_ok: "0 < n \<Longrightarrow> tbl_ok hf (tbl_construct True n)"
  by (simp add: tbl_ok_def tbl_construct_def)

lemma tbl_construct_view: "tbl_view hf (tbl_construct mem n) = (\<lambda>_. None)"
  by (auto simp: tbl_view_def tbl_slot_def tbl_construct_def split: option.splits)

lemma tbl_put_insert:
  "tbl_ok hf t \<Longrightarrow> tbl_insert True (hf k) k d t =
     Some (Some (case tbl_view hf t k of Some old \<Rightarrow> old | None \<Rightarrow> d), tbl_put (hf k) k d t)"
  "tbl_ok hf t \<Longrightarrow> tbl_ok hf (tbl_put (hf k) k d t)"
  "tbl_ok hf t \<Longrightarrow> tbl_view hf (tbl_put (hf k) k d t) = (tbl_view hf t)(k := Some d)"
  using tbl_insert_view [of hf t True k d] by (auto simp: tbl_put_def)

lemma tbl_drop_del:
  "tbl_ok hf t \<Longrightarrow> tbl_del (hf k) k t = Some (tbl_view hf t k, tbl_drop (hf k) k t)"
  "tbl_ok hf t \<Longrightarrow> tbl_ok hf (tbl_drop (hf k) k t)"
  "tbl_ok hf t \<Longrightarrow> tbl_view hf (tbl_drop (hf k) k t) = (tbl_view hf t)(k := None)"
  using tbl_del_view [of hf t k] by (auto simp: tbl_drop_def)

section \<open>Sequences of operations\<close>

text \<open>
  A client's view of a table: a sequence of operations and the answers it gets. \<open>run_ops\<close> performs the
  sequence with the operations of a table, \<open>map_ops\<close> on a finite map; an insertion answers the data that was
  replaced, or the new data when the key is new, as the code does.
\<close>

datatype ('k, 'd) tbl_op = Ins 'k 'd | Look 'k | Del 'k

fun run_ops :: "('k \<Rightarrow> 'd \<Rightarrow> 't \<Rightarrow> ('d option \<times> 't) option) \<Rightarrow> ('k \<Rightarrow> 't \<Rightarrow> 'd option option) \<Rightarrow>
    ('k \<Rightarrow> 't \<Rightarrow> ('d option \<times> 't) option) \<Rightarrow> ('k, 'd) tbl_op list \<Rightarrow> 't \<Rightarrow> ('d option list \<times> 't) option" where
  "run_ops ins look del [] t = Some ([], t)"
| "run_ops ins look del (a # as) t = do {
     (r, t) \<leftarrow> (case a of Ins k d \<Rightarrow> ins k d t | Look k \<Rightarrow> map_option (\<lambda>r. (r, t)) (look k t) | Del k \<Rightarrow> del k t);
     (rs, t) \<leftarrow> run_ops ins look del as t;
     Some (r # rs, t)
   }"

fun map_ops :: "('k, 'd) tbl_op list \<Rightarrow> ('k \<Rightarrow> 'd option) \<Rightarrow> 'd option list \<times> ('k \<Rightarrow> 'd option)" where
  "map_ops [] m = ([], m)"
| "map_ops (a # as) m =
     (let (r, m) = (case a of
            Ins k d \<Rightarrow> (Some (case m k of Some old \<Rightarrow> old | None \<Rightarrow> d), m(k := Some d))
          | Look k \<Rightarrow> (m k, m)
          | Del k \<Rightarrow> (m k, m(k := None)));
          (rs, m) = map_ops as m
      in (r # rs, m))"

section \<open>The interface of a table\<close>

text \<open>
  What the tables promise their clients: with a sound table every operation returns, and its effect
  on the abstract map is that of the finite-map operation. \<open>put\<close> and \<open>drop\<close> name the table after
  an insertion and a deletion.
\<close>

locale kv_table =
  fixes insert :: "bool \<Rightarrow> 'k \<Rightarrow> 'd \<Rightarrow> 't \<Rightarrow> ('d option \<times> 't) option"
    and lookup :: "'k \<Rightarrow> 't \<Rightarrow> 'd option option"
    and delete :: "'k \<Rightarrow> 't \<Rightarrow> ('d option \<times> 't) option"
    and construct :: "bool \<Rightarrow> nat \<Rightarrow> 't"
    and put :: "'k \<Rightarrow> 'd \<Rightarrow> 't \<Rightarrow> 't"
    and drop_key :: "'k \<Rightarrow> 't \<Rightarrow> 't"
    and view :: "'t \<Rightarrow> 'k \<Rightarrow> 'd option"
    and ok :: "'t \<Rightarrow> bool"
  assumes ok_construct: "0 < n \<Longrightarrow> ok (construct True n)"
    and view_construct: "view (construct mem n) = (\<lambda>_. None)"
    and lookup_view: "ok t \<Longrightarrow> lookup k t = Some (view t k)"
    and insert_put: "ok t \<Longrightarrow> insert True k d t =
          Some (Some (case view t k of Some old \<Rightarrow> old | None \<Rightarrow> d), put k d t)"
    and ok_put: "ok t \<Longrightarrow> ok (put k d t)"
    and view_put: "ok t \<Longrightarrow> view (put k d t) = (view t)(k := Some d)"
    and delete_drop: "ok t \<Longrightarrow> delete k t = Some (view t k, drop_key k t)"
    and ok_drop: "ok t \<Longrightarrow> ok (drop_key k t)"
    and view_drop: "ok t \<Longrightarrow> view (drop_key k t) = (view t)(k := None)"
begin

lemmas specs = lookup_view insert_put ok_put view_put delete_drop ok_drop view_drop

lemma lookup_after_insert:
  assumes "ok t" "insert True k d t = Some (r, t')"
  shows "ok t'" "lookup k' t' = Some (if k' = k then Some d else view t k')"
  using assms by (auto simp: specs)

lemma lookup_after_delete:
  assumes "ok t" "delete k t = Some (r, t')"
  shows "ok t'" "r = view t k" "lookup k' t' = Some (if k' = k then None else view t k')"
  using assms by (auto simp: specs)

text \<open>Deleting a list of keys, as a loop of \<open>delete\<close> calls does.\<close>

lemma fold_drop:
  assumes "ok t"
  shows "ok (fold drop_key ks t) \<and>
    view (fold drop_key ks t) = (\<lambda>k. if k \<in> set ks then None else view t k)"
  using assms
proof (induction ks arbitrary: t)
  case Nil
  then show ?case by simp
next
  case (Cons k ks)
  have "ok (drop_key k t)" using Cons.prems by (rule ok_drop)
  from Cons.IH [OF this] show ?case
    using Cons.prems by (auto simp: view_drop fun_eq_iff)
qed

text \<open>No sequence of operations can tell a table from the map.\<close>

lemma run_refines_map:
  assumes "ok t"
  shows "\<exists>t'. run_ops (insert True) lookup delete as t = Some (fst (map_ops as (view t)), t') \<and> ok t' \<and>
    view t' = snd (map_ops as (view t))"
  using assms
proof (induction as arbitrary: t)
  case Nil
  then show ?case by simp
next
  case (Cons a as)
  show ?case
  proof (cases a)
    case (Ins k d)
    then show ?thesis using Cons.IH [OF ok_put [OF Cons.prems, of k d]] Cons.prems
      by (auto simp: specs Let_def split_def fun_upd_def)
  next
    case (Look k)
    then show ?thesis using Cons.IH [OF Cons.prems] Cons.prems by (auto simp: specs Let_def split_def)
  next
    case (Del k)
    then show ?thesis using Cons.IH [OF ok_drop [OF Cons.prems, of k]] Cons.prems
      by (auto simp: specs Let_def split_def fun_upd_def)
  qed
qed

end

abbreviation nid_view :: "(NID, 'd) hash_table \<Rightarrow> NID \<Rightarrow> 'd option" where
  "nid_view \<equiv> tbl_view hash"
abbreviation nid_ok :: "(NID, 'd) hash_table \<Rightarrow> bool" where
  "nid_ok \<equiv> tbl_ok hash"
abbreviation nid32_view :: "(NID32, 'd) hash_table \<Rightarrow> NID32 \<Rightarrow> 'd option" where
  "nid32_view \<equiv> tbl_view hash32"
abbreviation nid32_ok :: "(NID32, 'd) hash_table \<Rightarrow> bool" where
  "nid32_ok \<equiv> tbl_ok hash32"
abbreviation fqdn_view :: "(byte list, 'd) hash_table \<Rightarrow> byte list \<Rightarrow> 'd option" where
  "fqdn_view \<equiv> tbl_view fqdn_hash"
abbreviation fqdn_ok :: "(byte list, 'd) hash_table \<Rightarrow> bool" where
  "fqdn_ok \<equiv> tbl_ok fqdn_hash"
abbreviation nid_put :: "NID \<Rightarrow> 'd \<Rightarrow> (NID, 'd) hash_table \<Rightarrow> (NID, 'd) hash_table" where
  "nid_put k \<equiv> tbl_put (hash k) k"
abbreviation nid_drop :: "NID \<Rightarrow> (NID, 'd) hash_table \<Rightarrow> (NID, 'd) hash_table" where
  "nid_drop k \<equiv> tbl_drop (hash k) k"
abbreviation nid32_put :: "NID32 \<Rightarrow> 'd \<Rightarrow> (NID32, 'd) hash_table \<Rightarrow> (NID32, 'd) hash_table" where
  "nid32_put k \<equiv> tbl_put (hash32 k) k"
abbreviation nid32_drop :: "NID32 \<Rightarrow> (NID32, 'd) hash_table \<Rightarrow> (NID32, 'd) hash_table" where
  "nid32_drop k \<equiv> tbl_drop (hash32 k) k"
abbreviation fqdn_put :: "byte list \<Rightarrow> 'd \<Rightarrow> (byte list, 'd) hash_table \<Rightarrow> (byte list, 'd) hash_table"
  where "fqdn_put k \<equiv> tbl_put (fqdn_hash k) k"
abbreviation fqdn_drop :: "byte list \<Rightarrow> (byte list, 'd) hash_table \<Rightarrow> (byte list, 'd) hash_table"
  where "fqdn_drop k \<equiv> tbl_drop (fqdn_hash k) k"

interpretation nidt: kv_table hash_insert hash_lookup hash_del construct_hash_table
    nid_put nid_drop nid_view nid_ok
  by unfold_locales
    (simp_all add: hash_insert_def hash_lookup_def hash_del_def construct_hash_table_def
      tbl_construct_ok tbl_construct_view tbl_lookup_view tbl_put_insert tbl_drop_del)

interpretation nid32t: kv_table hash_insert32 hash_lookup32 hash_del32 construct_hash_table32
    nid32_put nid32_drop nid32_view nid32_ok
  by unfold_locales
    (simp_all add: hash_insert32_def hash_lookup32_def hash_del32_def construct_hash_table32_def
      tbl_construct_ok tbl_construct_view tbl_lookup_view tbl_put_insert tbl_drop_del)

interpretation fqdnt: kv_table fqdn_hash_insert fqdn_hash_lookup fqdn_hash_del
    construct_fqdn_hash_table fqdn_put fqdn_drop fqdn_view fqdn_ok
  by unfold_locales
    (simp_all add: fqdn_hash_insert_def fqdn_hash_lookup_def fqdn_hash_del_def
      construct_fqdn_hash_table_def
      tbl_construct_ok tbl_construct_view tbl_lookup_view tbl_put_insert tbl_drop_del)

declare nidt.specs [table_simps] nid32t.specs [table_simps] fqdnt.specs [table_simps]

section \<open>Enumerating live connections\<close>

definition tbl_nodes :: "('k, 'd) hash_table \<Rightarrow> ('k, 'd) bucket list" where
  "tbl_nodes t = concat (take (ht_size t) (ht_table t))"

lemma chain_find_mem:
  "p \<in> set ps \<Longrightarrow> distinct (map b_key ps) \<Longrightarrow> chain_find (b_key p) ps = Some (b_data p)"
  by (induction ps) (auto, metis imageI)

lemma chain_find_Some_mem: "chain_find k ps = Some d \<Longrightarrow> \<exists>p \<in> set ps. b_key p = k \<and> b_data p = d"
  by (induction ps) (auto split: if_splits)

lemma tbl_nodes_view:
  assumes ok: "tbl_ok hf t" and p: "p \<in> set (tbl_nodes t)"
  shows "tbl_view hf t (b_key p) = Some (b_data p)"
proof -
  obtain ps where "ps \<in> set (ht_table t)" "p \<in> set ps"
    using ok p by (auto simp: tbl_nodes_def tbl_ok_def)
  then obtain v where v: "v < ht_size t" "p \<in> set (ht_table t ! v)"
    using ok by (metis in_set_conv_nth tbl_ok_def)
  then show ?thesis
    using ok tbl_chain_ok [OF ok v(1)] by (simp add: tbl_view_at chain_find_mem)
qed

lemma tbl_view_nodes:
  assumes ok: "tbl_ok hf t"
  shows "tbl_view hf t k = Some d \<longleftrightarrow> (\<exists>p \<in> set (tbl_nodes t). b_key p = k \<and> b_data p = d)"
proof
  assume "tbl_view hf t k = Some d"
  then obtain p where "p \<in> set (ht_table t ! (unat (hf k) mod ht_size t))" "b_key p = k" "b_data p = d"
    using ok by (auto simp: tbl_view_at dest: chain_find_Some_mem)
  moreover have "unat (hf k) mod ht_size t < length (ht_table t)"
    using ok by (simp add: tbl_ok_def)
  ultimately show "\<exists>p \<in> set (tbl_nodes t). b_key p = k \<and> b_data p = d"
    using ok by (auto simp: tbl_nodes_def tbl_ok_def intro!: bexI [of _ p] nth_mem)
next
  assume "\<exists>p \<in> set (tbl_nodes t). b_key p = k \<and> b_data p = d"
  then show "tbl_view hf t k = Some d" using tbl_nodes_view [OF ok] by auto
qed

definition node_of :: "(NID, conn_entry) bucket \<Rightarrow> ll_node" where
  "node_of p = \<lparr>ln_nid = b_key p, ln_ip = inet_ntop4 (ce_ip (b_data p))\<rparr>"

lemma enum_nodes_next:
  "ll_next (enum_nodes clk i ps ll) =
     ll_next ll @ map (node_of \<circ> snd) (filter (\<lambda>(j, p). ce_live (clk j) (b_data p)) (enumerate i ps))"
  by (induction ps arbitrary: i ll) (auto simp: node_of_def)

lemma enum_nodes_ok [simp]: "ll_ok (enum_nodes clk i ps ll) = ll_ok ll"
  by (induction ps arbitrary: i ll) auto

text \<open>
  The identities a walk appends: those with an entry that is live at the reading of the clock when
  the walk meets it. With readings between \<open>t0\<close> and \<open>t1\<close>, every entry live at \<open>t1\<close> is appended and
  every appended entry is live at \<open>t0\<close>.
\<close>

definition enum_nids :: "(nat \<Rightarrow> time) \<Rightarrow> (NID, conn_entry) hash_table \<Rightarrow> NID list" where
  "enum_nids clk t = map ln_nid (ll_next (hash_enumerate clk t init_ll))"

lemma hash_enumerate_nids:
  "map ln_nid (ll_next (hash_enumerate clk t ll)) = map ln_nid (ll_next ll) @ enum_nids clk t"
  by (simp add: enum_nids_def hash_enumerate_def enum_nodes_next init_ll_def)

lemma ce_live_antimono: "ce_live now ce \<Longrightarrow> now' \<le> now \<Longrightarrow> ce_live now' ce"
  by (auto simp: ce_live_def)

lemma enum_nids_mem:
  "k \<in> set (enum_nids clk t) \<longleftrightarrow>
     (\<exists>j < length (tbl_nodes t). b_key (tbl_nodes t ! j) = k \<and>
        ce_live (clk j) (b_data (tbl_nodes t ! j)))"
proof -
  have "set (enumerate 0 (tbl_nodes t)) = {(j, tbl_nodes t ! j) | j. j < length (tbl_nodes t)}"
    by (auto simp: in_set_enumerate_eq)
  then show ?thesis
    by (auto simp: enum_nids_def hash_enumerate_def enum_nodes_next init_ll_def
        tbl_nodes_def [symmetric] node_of_def image_iff)
qed

lemma enum_nids_live:
  assumes ok: "nid_ok t" and clk: "\<And>i. clk i \<le> t1" and "nid_view t k = Some ce" "ce_live t1 ce"
  shows "k \<in> set (enum_nids clk t)"
proof -
  obtain p where "p \<in> set (tbl_nodes t)" "b_key p = k" "b_data p = ce"
    using tbl_view_nodes [OF ok] assms(3) by auto
  then obtain j where "j < length (tbl_nodes t)" "tbl_nodes t ! j = p"
    by (auto simp: in_set_conv_nth)
  then show ?thesis
    using assms(4) clk \<open>b_key p = k\<close> \<open>b_data p = ce\<close>
    by (auto simp: enum_nids_mem intro: ce_live_antimono)
qed

lemma enum_nids_sound:
  assumes ok: "nid_ok t" and clk: "\<And>i. t0 \<le> clk i" and "k \<in> set (enum_nids clk t)"
  shows "\<exists>ce. nid_view t k = Some ce \<and> ce_live t0 ce"
proof -
  obtain j where "j < length (tbl_nodes t)" "b_key (tbl_nodes t ! j) = k"
      "ce_live (clk j) (b_data (tbl_nodes t ! j))"
    using assms(3) by (auto simp: enum_nids_mem)
  then show ?thesis
    using tbl_nodes_view [OF ok nth_mem] clk by (auto intro: ce_live_antimono)
qed

text \<open>No key sits in two buckets.\<close>

lemma distinct_concat_slots:
  assumes "\<And>v. v < length xs \<Longrightarrow> distinct (map f (xs ! v)) \<and> (\<forall>p \<in> set (xs ! v). g (f p) = v)"
  shows "distinct (map f (concat xs)) \<and> (\<forall>p \<in> set (concat xs). g (f p) < length xs)"
  using assms
proof (induction xs rule: rev_induct)
  case Nil
  then show ?case by simp
next
  case (snoc x xs)
  have "distinct (map f (xs ! v)) \<and> (\<forall>p \<in> set (xs ! v). g (f p) = v)" if "v < length xs" for v
    using snoc.prems [of v] that by (simp add: nth_append)
  note IH = snoc.IH [OF this]
  have x: "distinct (map f x)" "\<forall>p \<in> set x. g (f p) = length xs"
    using snoc.prems [of "length xs"] by simp_all
  have "f ` set (concat xs) \<inter> f ` set x = {}" using IH x(2) by fastforce
  then show ?case using IH x by (auto simp: less_Suc_eq)
qed

lemma tbl_nodes_distinct: "tbl_ok hf t \<Longrightarrow> distinct (map b_key (tbl_nodes t))"
  using distinct_concat_slots [of "ht_table t" b_key "\<lambda>k. unat (hf k) mod ht_size t"]
  by (auto simp: tbl_ok_def tbl_nodes_def)

text \<open>An enumeration that reads one time.\<close>

lemma filter_enumerate: "map (f \<circ> snd) (filter (\<lambda>(j, p). P p) (enumerate i ps)) = map f (filter P ps)"
  by (induction ps arbitrary: i) auto

lemma hash_enumerate_now:
  "ll_next (hash_enumerate (\<lambda>_. now) t ll) =
     ll_next ll @ map node_of (filter (\<lambda>p. ce_live now (b_data p)) (tbl_nodes t))"
  using filter_enumerate [of node_of "\<lambda>p. ce_live now (b_data p)" 0 "tbl_nodes t"]
  by (simp add: hash_enumerate_def enum_nodes_next tbl_nodes_def)

end
