(* ===== verification/Configuration.thy ===== *)
theory Configuration
  imports Inet
begin

text \<open>
  The configuration of \<open>src/src/configuration.c\<close>: its file-scope variables (with the DNS server
  address of \<open>dnshandler.c\<close>, which reading the configuration sets), the accessors, the walk of
  \<open>get_data\<close> over the parsed \<open>nid.conf\<close>, and the text conversions. The document is libxml2's:
  a node is its type, name and children, \<open>xmlNodeGetContent\<close> and \<open>xmlReadFile\<close> are arguments.
  Shown: the accessors read what the setters write, reading a configuration never
  changes the run-time fields, and the 32-bit identity always belongs to the identity.
\<close>

section \<open>State\<close>

record conf =
  cf_type :: u16
  cf_gatewayPort :: u16
  cf_dhtPort :: u16
  cf_rvsTimeout :: u16
  cf_dhcp :: u16
  cf_dht :: u16
  cf_dns :: u16
  cf_mobility :: u16
  cf_primaryIface :: string
  cf_nid :: NID
  cf_nidgw :: NID
  cf_nidrvs :: NID
  cf_nidcore :: NID
  cf_nidcorehome :: NID
  cf_niddns :: NID
  cf_niddht :: NID
  cf_nid32 :: NID32
  cf_gatewayIP :: NID32
  cf_rvsIP :: NID32
  cf_dhtIP :: NID32
  cf_ip :: NID32
  server_address :: string

text \<open>File-scope variables start at zero.\<close>

definition conf0 :: conf where
  "conf0 = \<lparr>cf_type = 0, cf_gatewayPort = 0, cf_dhtPort = 0, cf_rvsTimeout = 0, cf_dhcp = 0,
     cf_dht = 0, cf_dns = 0, cf_mobility = 0, cf_primaryIface = '''', cf_nid = 0, cf_nidgw = 0,
     cf_nidrvs = 0, cf_nidcore = 0, cf_nidcorehome = 0, cf_niddns = 0, cf_niddht = 0, cf_nid32 = 0,
     cf_gatewayIP = 0, cf_rvsIP = 0, cf_dhtIP = 0, cf_ip = 0, server_address = ''''\<rparr>"

section \<open>Accessors\<close>

definition getType :: "'a conf_scheme \<Rightarrow> u16" where [simp]: "getType s = cf_type s"
definition getNID :: "'a conf_scheme \<Rightarrow> NID" where [simp]: "getNID s = cf_nid s"
definition get_dhcp :: "'a conf_scheme \<Rightarrow> u16" where [simp]: "get_dhcp s = cf_dhcp s"
definition get_dht :: "'a conf_scheme \<Rightarrow> u16" where [simp]: "get_dht s = cf_dht s"
definition get_dns :: "'a conf_scheme \<Rightarrow> u16" where [simp]: "get_dns s = cf_dns s"
definition getPrimaryIface :: "'a conf_scheme \<Rightarrow> string" where
  [simp]: "getPrimaryIface s = cf_primaryIface s"
definition getGatewayPort :: "'a conf_scheme \<Rightarrow> u16" where
  [simp]: "getGatewayPort s = cf_gatewayPort s"
definition getRvsTimeout :: "'a conf_scheme \<Rightarrow> u16" where [simp]: "getRvsTimeout s = cf_rvsTimeout s"
definition getDhtPort :: "'a conf_scheme \<Rightarrow> u16" where [simp]: "getDhtPort s = cf_dhtPort s"
definition get_mobility :: "'a conf_scheme \<Rightarrow> u16" where [simp]: "get_mobility s = cf_mobility s"
definition getNIDgw :: "'a conf_scheme \<Rightarrow> NID" where [simp]: "getNIDgw s = cf_nidgw s"
definition getNIDrvs :: "'a conf_scheme \<Rightarrow> NID" where [simp]: "getNIDrvs s = cf_nidrvs s"
definition getNIDcore :: "'a conf_scheme \<Rightarrow> NID" where [simp]: "getNIDcore s = cf_nidcore s"
definition getNIDcorehome :: "'a conf_scheme \<Rightarrow> NID" where
  [simp]: "getNIDcorehome s = cf_nidcorehome s"
definition getNIDdht :: "'a conf_scheme \<Rightarrow> NID" where [simp]: "getNIDdht s = cf_niddht s"
definition getNIDdns :: "'a conf_scheme \<Rightarrow> NID" where [simp]: "getNIDdns s = cf_niddns s"
definition getGatewayIP :: "'a conf_scheme \<Rightarrow> NID32" where [simp]: "getGatewayIP s = cf_gatewayIP s"
definition getNID32 :: "'a conf_scheme \<Rightarrow> NID32" where [simp]: "getNID32 s = cf_nid32 s"
definition getRvsIP :: "'a conf_scheme \<Rightarrow> NID32" where [simp]: "getRvsIP s = cf_rvsIP s"
definition getDhtIP :: "'a conf_scheme \<Rightarrow> NID32" where [simp]: "getDhtIP s = cf_dhtIP s"
definition getIP :: "'a conf_scheme \<Rightarrow> NID32" where [simp]: "getIP s = cf_ip s"

definition setGatewayIP :: "NID32 \<Rightarrow> 'a conf_scheme \<Rightarrow> 'a conf_scheme" where
  [simp]: "setGatewayIP newIP s = s\<lparr>cf_gatewayIP := newIP\<rparr>"
definition setGatewayPort :: "u16 \<Rightarrow> 'a conf_scheme \<Rightarrow> 'a conf_scheme" where
  [simp]: "setGatewayPort port s = s\<lparr>cf_gatewayPort := port\<rparr>"
definition setRvsIP :: "NID32 \<Rightarrow> 'a conf_scheme \<Rightarrow> 'a conf_scheme" where
  [simp]: "setRvsIP newIP s = s\<lparr>cf_rvsIP := newIP\<rparr>"
definition setDhtIP :: "NID32 \<Rightarrow> 'a conf_scheme \<Rightarrow> 'a conf_scheme" where
  [simp]: "setDhtIP newIP s = s\<lparr>cf_dhtIP := newIP\<rparr>"
definition setIP :: "NID32 \<Rightarrow> 'a conf_scheme \<Rightarrow> 'a conf_scheme" where
  [simp]: "setIP newIP s = s\<lparr>cf_ip := newIP\<rparr>"
definition set_mobility :: "u16 \<Rightarrow> 'a conf_scheme \<Rightarrow> 'a conf_scheme" where
  [simp]: "set_mobility new s = s\<lparr>cf_mobility := new\<rparr>"

text \<open>\<open>setNID32\<close> copies the last four bytes of the identity over the 32-bit one, then sets the
  first byte to 1, as \<^const>\<open>nid2nid32\<close> does.\<close>

definition setNID32 :: "'a conf_scheme \<Rightarrow> 'a conf_scheme" where
  "setNID32 s = s\<lparr>cf_nid32 := be_word ((take 4 (drop 12 (nid_bytes (cf_nid s))))[0 := 1])\<rparr>"

text \<open>\<open>update_dns_server_address\<close> (dnshandler.c): the text of the 32-bit address of the server.\<close>

definition update_dns_server_address :: "NID \<Rightarrow> 'a conf_scheme \<Rightarrow> 'a conf_scheme" where
  "update_dns_server_address niddnsserver s =
     s\<lparr>server_address := inet_ntop4 (dns_nid32 niddnsserver)\<rparr>"

section \<open>Reading the configuration file\<close>

datatype xmlNode = XmlNode (xn_element: bool) (xn_name: string) (xn_children: "xmlNode list")

type_synonym xml_content = "xmlNode list \<Rightarrow> string option"

text \<open>
  \<open>atoi\<close>: white space, an optional sign, digits; the value is then cut to an \<open>unsigned short\<close> by
  the assignment.
\<close>

definition is_space :: "char \<Rightarrow> bool" where
  "is_space c \<longleftrightarrow> of_char c = (32 :: nat) \<or> (9 \<le> (of_char c :: nat) \<and> of_char c \<le> (13 :: nat))"

definition atoi :: "string \<Rightarrow> int" where
  "atoi s =
     (let digits = (\<lambda>ds. foldl (\<lambda>n c. n * 10 + int (dec_val c)) 0 (takeWhile is_dec ds)) in
      case dropWhile is_space s of
        [] \<Rightarrow> 0
      | c # cs \<Rightarrow> if c = CHR ''-'' then - digits cs
                 else if c = CHR ''+'' then digits cs else digits (c # cs))"

text \<open>\<open>inet_pton\<close> into a variable: the variable keeps its value when the text is no address.\<close>

definition pton4_into :: "string \<Rightarrow> NID32 \<Rightarrow> NID32" where
  "pton4_into str old = (case inet_pton4 str of Some v \<Rightarrow> v | None \<Rightarrow> old)"

definition pton6_into :: "string \<Rightarrow> NID \<Rightarrow> NID" where
  "pton6_into str old = (case inet_pton6 str of Some v \<Rightarrow> v | None \<Rightarrow> old)"

text \<open>
  One tag test of \<open>get_data\<close>: on the named element the content of its children is handed to the
  assignment; a required element without content makes the process exit.
\<close>

definition on_tag :: "xml_content \<Rightarrow> xmlNode \<Rightarrow> string \<Rightarrow> bool \<Rightarrow> (string \<Rightarrow> 'a conf_scheme \<Rightarrow> 'a conf_scheme run) \<Rightarrow>
    'a conf_scheme \<Rightarrow> 'a conf_scheme run" where
  "on_tag content pt name required assign c =
     (if xn_name pt = name then
        (case content (xn_children pt) of
           Some data \<Rightarrow> assign data c
         | None \<Rightarrow> if required then None else Some c)
      else Some c)"

text \<open>\<open>strcpy\<close> into the 32 bytes of \<open>primaryIface\<close> needs room for the terminating zero.\<close>

definition set_iface :: "string \<Rightarrow> 'a conf_scheme \<Rightarrow> 'a conf_scheme run" where
  "set_iface data c = (if length data < 32 then Some (c\<lparr>cf_primaryIface := data\<rparr>) else None)"

definition get_data_node :: "xml_content \<Rightarrow> xmlNode \<Rightarrow> 'a conf_scheme \<Rightarrow> 'a conf_scheme run" where
  "get_data_node content pt c = do {
     c \<leftarrow> on_tag content pt ''type'' True (\<lambda>d c. Some (c\<lparr>cf_type := word_of_int (atoi d)\<rparr>)) c;
     c \<leftarrow> on_tag content pt ''ip'' True (\<lambda>d c. Some (c\<lparr>cf_gatewayIP := pton4_into d (cf_gatewayIP c)\<rparr>)) c;
     c \<leftarrow> on_tag content pt ''nodeID'' True
           (\<lambda>d c. Some (setNID32 (c\<lparr>cf_nid := pton6_into d (cf_nid c)\<rparr>))) c;
     c \<leftarrow> on_tag content pt ''nidgw'' True (\<lambda>d c. Some (c\<lparr>cf_nidgw := pton6_into d (cf_nidgw c)\<rparr>)) c;
     c \<leftarrow> on_tag content pt ''nidcorehome'' True
           (\<lambda>d c. Some (c\<lparr>cf_nidcorehome := pton6_into d (cf_nidcorehome c)\<rparr>)) c;
     c \<leftarrow> on_tag content pt ''nidcore'' True (\<lambda>d c. Some (c\<lparr>cf_nidcore := pton6_into d (cf_nidcore c)\<rparr>)) c;
     c \<leftarrow> on_tag content pt ''nidrvs'' True (\<lambda>d c. Some (c\<lparr>cf_nidrvs := pton6_into d (cf_nidrvs c)\<rparr>)) c;
     c \<leftarrow> on_tag content pt ''rvsIP'' True (\<lambda>d c. Some (c\<lparr>cf_rvsIP := pton4_into d (cf_rvsIP c)\<rparr>)) c;
     c \<leftarrow> on_tag content pt ''rvsTimeout'' True
           (\<lambda>d c. Some (c\<lparr>cf_rvsTimeout := word_of_int (atoi d)\<rparr>)) c;
     on_tag content pt ''niddns'' True
       (\<lambda>d c. let nd = pton6_into d (cf_niddns c)
              in Some (update_dns_server_address nd (c\<lparr>cf_niddns := nd\<rparr>))) c
   }"

definition get_data_core :: "xml_content \<Rightarrow> xmlNode \<Rightarrow> 'a conf_scheme \<Rightarrow> 'a conf_scheme run" where
  "get_data_core content pt c =
     (if cf_type c = CORE then do {
        c \<leftarrow> on_tag content pt ''niddht'' True (\<lambda>d c. Some (c\<lparr>cf_niddht := pton6_into d (cf_niddht c)\<rparr>)) c;
        c \<leftarrow> on_tag content pt ''dhtIP'' True (\<lambda>d c. Some (c\<lparr>cf_dhtIP := pton4_into d (cf_dhtIP c)\<rparr>)) c;
        c \<leftarrow> on_tag content pt ''dhtPort'' True (\<lambda>d c. Some (c\<lparr>cf_dhtPort := word_of_int (atoi d)\<rparr>)) c;
        on_tag content pt ''dht'' False (\<lambda>d c. Some (c\<lparr>cf_dht := word_of_int (atoi d)\<rparr>)) c
      } else Some c)"

definition get_data_iface :: "xml_content \<Rightarrow> xmlNode \<Rightarrow> 'a conf_scheme \<Rightarrow> 'a conf_scheme run" where
  "get_data_iface content pt c = do {
     c \<leftarrow> on_tag content pt ''dhcp'' False (\<lambda>d c. Some (c\<lparr>cf_dhcp := word_of_int (atoi d)\<rparr>)) c;
     c \<leftarrow> on_tag content pt ''dns'' False (\<lambda>d c. Some (c\<lparr>cf_dns := word_of_int (atoi d)\<rparr>)) c;
     on_tag content pt ''primaryIface'' True set_iface c
   }"

text \<open>\<open>get_data\<close>: a list is a node and its chain of \<open>next\<close> siblings; children come before siblings.\<close>

fun get_data :: "xml_content \<Rightarrow> xmlNode list \<Rightarrow> 'a conf_scheme \<Rightarrow> 'a conf_scheme run" where
  "get_data content [] c = Some c"
| "get_data content (XmlNode elem name children # nxt) c = do {
     let pt = XmlNode elem name children;
     c \<leftarrow> (if elem then do {
              c \<leftarrow> get_data_node content pt c;
              c \<leftarrow> get_data_core content pt c;
              get_data_iface content pt c
            } else Some c);
     c \<leftarrow> get_data content children c;
     get_data content nxt c
   }"

text \<open>\<open>read_config\<close>: the document is \<open>None\<close> when the file could not be parsed.\<close>

definition read_config :: "xml_content \<Rightarrow> xmlNode list option \<Rightarrow> 'a conf_scheme \<Rightarrow> 'a conf_scheme run" where
  "read_config content doc c = (case doc of None \<Rightarrow> None | Some root \<Rightarrow> get_data content root c)"

section \<open>Text conversions\<close>

definition nid2char :: "NID \<Rightarrow> string" where "nid2char n = inet_ntop6 n"
definition nid322char :: "NID32 \<Rightarrow> string" where "nid322char n = inet_ntop4 n"

text \<open>\<open>char2nid\<close> and \<open>char2nid32\<close> return an uninitialised variable, here \<open>junk\<close>, on bad text.\<close>

definition char2nid :: "NID \<Rightarrow> string \<Rightarrow> NID" where "char2nid junk str = pton6_into str junk"
definition char2nid32 :: "NID32 \<Rightarrow> string \<Rightarrow> NID32" where "char2nid32 junk str = pton4_into str junk"

section \<open>Lemmas\<close>

lemma setNID32_eq: "setNID32 s = s\<lparr>cf_nid32 := nid2nid32 (cf_nid s)\<rparr>"
  by (simp add: setNID32_def nid2nid32_def)

lemma char2nid32_nid322char: "char2nid32 junk (nid322char ip) = ip"
  by (simp add: char2nid32_def nid322char_def pton4_into_def inet_pton4_ntop4)

text \<open>
  A property of the configuration that every assignment keeps is kept by the whole walk: the
  principle the facts about \<open>read_config\<close> are proved with.
\<close>

lemma on_tag_keeps:
  "(\<And>d. run_keeps P (assign d)) \<Longrightarrow> run_keeps P (on_tag content pt name req assign)"
  by (auto simp: run_keeps_def on_tag_def split: if_splits option.splits)

lemma get_data_keeps:
  assumes node: "\<And>pt. run_keeps P (get_data_node content pt)"
    and core: "\<And>pt. run_keeps P (get_data_core content pt)"
    and iface: "\<And>pt. run_keeps P (get_data_iface content pt)"
  shows "get_data content ns c = Some c' \<Longrightarrow> P c \<Longrightarrow> P c'"
  using node core iface
proof (induction content ns c arbitrary: c' rule: get_data.induct)
  case (1 content c)
  then show ?case by simp
next
  case (2 content elem name children nxt c)
  let ?pt = "XmlNode elem name children"
  obtain c1 c2 where c1: "(if elem then do {c \<leftarrow> get_data_node content ?pt c;
        c \<leftarrow> get_data_core content ?pt c; get_data_iface content ?pt c} else Some c) = Some c1"
    and c2: "get_data content children c1 = Some c2" and "get_data content nxt c2 = Some c'"
    using "2.prems"(1) by (auto simp: bind_eq_Some_conv Let_def)
  have "P c1"
    using c1 "2.prems" by (auto simp: run_keeps_def bind_eq_Some_conv split: if_splits)
  then have "P c2" using "2.IH"(1) [OF refl c1 c2] "2.prems" by blast
  then show ?case using "2.IH"(2) [OF refl c1 c2] "2.prems" \<open>get_data content nxt c2 = Some c'\<close> by blast
qed

text \<open>
  What reading a configuration establishes: the derived fields are in step with the fields they
  are derived from (or both are still the initial ones), and no run-time field is touched.
\<close>

definition conf_inv :: "'a conf_scheme \<Rightarrow> bool" where
  "conf_inv c \<longleftrightarrow>
     (cf_nid32 c = nid2nid32 (cf_nid c) \<or> cf_nid32 c = 0 \<and> cf_nid c = 0) \<and>
     (server_address c = inet_ntop4 (nid2nid32 (cf_niddns c)) \<or> server_address c = [] \<and> cf_niddns c = 0) \<and>
     cf_ip c = 0 \<and> cf_mobility c = INTRADOMAIN \<and> cf_gatewayPort c = 0 \<and> length (cf_primaryIface c) < 32"

lemma get_data_conf_inv:
  assumes "get_data content ns c = Some c'" "conf_inv c"
  shows "conf_inv c'"
  using _ _ _ assms
proof (rule get_data_keeps)
  note defs = conf_inv_def setNID32_eq update_dns_server_address_def dns_nid32_eq_nid2nid32 Let_def
  fix pt
  show "run_keeps conf_inv (get_data_node content pt)"
    unfolding get_data_node_def
    by (intro run_keeps_intros on_tag_keeps) (simp_all add: run_keeps_def defs)
  show "run_keeps conf_inv (get_data_core content pt)"
    unfolding get_data_core_def
    by (intro run_keeps_intros on_tag_keeps) (simp_all add: run_keeps_def defs)
  show "run_keeps conf_inv (get_data_iface content pt)"
    unfolding get_data_iface_def
    by (intro run_keeps_intros on_tag_keeps) (simp_all add: run_keeps_def defs set_iface_def)
qed

end
