(* ===== verification/Queue_Tables.thy ===== *)
theory Queue_Tables
  imports Hash_Tables Configuration
begin

text \<open>
  The two lock tables: \<open>src/src/rvs_queue_table.c\<close> (a rendez-vous request for an identity is under
  way) and \<open>dht_queue_table.c\<close> (a DHT request is). An entry holds the identity and the time of the
  request; a query drops an entry it finds expired. \<open>gettimeofday\<close> readings are arguments.

  The two files promise their clients the same thing, the locale \<open>lock_table\<close>, interpreted on both.
  Shown there: queueing locks exactly that identity, unqueueing frees it, a query answers
  whether the lock is held and frees it if it expired. The expiry test compares the microsecond fields alone:
  a lock taken in the last \<open>LOCK_TIME\<close> microseconds of a second never expires, whatever the time
  that passed, and a lock is not seen as expired as long as the microsecond field is small.
\<close>

abbreviation LOCK_TIME :: int where "LOCK_TIME \<equiv> 150000"

record rvsq_entry =
  q_nid :: NID
  q_tstamp :: timeval

type_synonym dhtq_entry = rvsq_entry

record lock_state = conf +
  queue_table :: "(NID, rvsq_entry) hash_table"
  dht_queue_table :: "(NID, dhtq_entry) hash_table"

section \<open>rvs\_queue\_table.c\<close>

definition init_rvs_queue_table :: "'a lock_state_scheme \<Rightarrow> 'a lock_state_scheme" where
  "init_rvs_queue_table s = s\<lparr>queue_table := construct_hash_table True 10\<rparr>"

definition destroy_rvs_queue_table :: "'a lock_state_scheme \<Rightarrow> 'a lock_state_scheme" where
  "destroy_rvs_queue_table s = s\<lparr>queue_table := fst (free_hash_table False (queue_table s))\<rparr>"

definition queue :: "timeval \<Rightarrow> NID \<Rightarrow> 'a lock_state_scheme \<Rightarrow> 'a lock_state_scheme run" where
  "queue now nid s = do {
     (_, t) \<leftarrow> hash_insert True nid \<lparr>q_nid = nid, q_tstamp = now\<rparr> (queue_table s);
     Some (s\<lparr>queue_table := t\<rparr>)
   }"

definition unqueue :: "NID \<Rightarrow> 'a lock_state_scheme \<Rightarrow> 'a lock_state_scheme run" where
  "unqueue nid s = do {
     (_, t) \<leftarrow> hash_del nid (queue_table s);
     Some (s\<lparr>queue_table := t\<rparr>)
   }"

definition isQueued :: "timeval \<Rightarrow> NID \<Rightarrow> 'a lock_state_scheme \<Rightarrow> (bool \<times> 'a lock_state_scheme) run" where
  "isQueued now nid s = do {
     re \<leftarrow> hash_lookup nid (queue_table s);
     case re of
       Some re \<Rightarrow>
         if tv_usec (q_tstamp re) + LOCK_TIME < tv_usec now then do {
           s \<leftarrow> unqueue nid s;
           Some (False, s)
         }
         else Some (nid = q_nid re, s)
     | None \<Rightarrow> Some (False, s)
   }"

section \<open>dht\_queue\_table.c\<close>

definition init_dht_queue_table :: "'a lock_state_scheme \<Rightarrow> 'a lock_state_scheme" where
  "init_dht_queue_table s = s\<lparr>dht_queue_table := construct_hash_table True 10\<rparr>"

definition destroy_dht_queue_table :: "'a lock_state_scheme \<Rightarrow> 'a lock_state_scheme" where
  "destroy_dht_queue_table s = s\<lparr>dht_queue_table := fst (free_hash_table False (dht_queue_table s))\<rparr>"

definition dht_queue :: "timeval \<Rightarrow> NID \<Rightarrow> 'a lock_state_scheme \<Rightarrow> 'a lock_state_scheme run" where
  "dht_queue now nid s = do {
     (_, t) \<leftarrow> hash_insert True nid \<lparr>q_nid = nid, q_tstamp = now\<rparr> (dht_queue_table s);
     Some (s\<lparr>dht_queue_table := t\<rparr>)
   }"

definition dht_unqueue :: "NID \<Rightarrow> 'a lock_state_scheme \<Rightarrow> 'a lock_state_scheme run" where
  "dht_unqueue nid s = do {
     (_, t) \<leftarrow> hash_del nid (dht_queue_table s);
     Some (s\<lparr>dht_queue_table := t\<rparr>)
   }"

definition is_dht_queued ::
  "timeval \<Rightarrow> NID \<Rightarrow> 'a lock_state_scheme \<Rightarrow> (bool \<times> 'a lock_state_scheme) run" where
  "is_dht_queued now nid s = do {
     de \<leftarrow> hash_lookup nid (dht_queue_table s);
     case de of
       Some de \<Rightarrow>
         if tv_usec (q_tstamp de) + LOCK_TIME < tv_usec now then do {
           s \<leftarrow> dht_unqueue nid s;
           Some (False, s)
         }
         else Some (nid = q_nid de, s)
     | None \<Rightarrow> Some (False, s)
   }"

section \<open>Invariant and abstract locks\<close>

text \<open>Sound lock tables: every entry is filed under its own identity.\<close>

definition lockt_ok :: "(NID, rvsq_entry) hash_table \<Rightarrow> bool" where
  "lockt_ok t \<longleftrightarrow> nid_ok t \<and> (\<forall>k e. nid_view t k = Some e \<longrightarrow> q_nid e = k)"

definition lockt :: "(NID, rvsq_entry) hash_table \<Rightarrow> NID \<Rightarrow> timeval option" where
  "lockt t k = map_option q_tstamp (nid_view t k)"

abbreviation rvs_locks :: "'a lock_state_scheme \<Rightarrow> NID \<Rightarrow> timeval option" where
  "rvs_locks s \<equiv> lockt (queue_table s)"
abbreviation dht_locks :: "'a lock_state_scheme \<Rightarrow> NID \<Rightarrow> timeval option" where
  "dht_locks s \<equiv> lockt (dht_queue_table s)"
abbreviation rvs_locks_ok :: "'a lock_state_scheme \<Rightarrow> bool" where
  "rvs_locks_ok s \<equiv> lockt_ok (queue_table s)"
abbreviation dht_locks_ok :: "'a lock_state_scheme \<Rightarrow> bool" where
  "dht_locks_ok s \<equiv> lockt_ok (dht_queue_table s)"

lemma lockt_ok_nid_ok: "lockt_ok t \<Longrightarrow> nid_ok t"
  by (simp add: lockt_ok_def)

lemma lockt_ok_nid: "lockt_ok t \<Longrightarrow> nid_view t k = Some e \<Longrightarrow> q_nid e = k"
  by (simp add: lockt_ok_def)

lemma lockt_put:
  assumes "lockt_ok t" "q_nid e = k"
  shows "lockt_ok (nid_put k e t)" "lockt (nid_put k e t) = (lockt t)(k := Some (q_tstamp e))"
  using assms by (auto simp: lockt_ok_def lockt_def table_simps fun_eq_iff)

lemma lockt_drop:
  assumes "lockt_ok t"
  shows "lockt_ok (nid_drop k t)" "lockt (nid_drop k t) = (lockt t)(k := None)"
  using assms by (auto simp: lockt_ok_def lockt_def table_simps fun_eq_iff)

lemma lockt_construct:
  "lockt_ok (construct_hash_table True 10)" "lockt (construct_hash_table True 10) = (\<lambda>_. None)"
  by (simp_all add: lockt_ok_def lockt_def nidt.ok_construct nidt.view_construct fun_eq_iff)

section \<open>The interface of a lock table\<close>

definition lock_expired :: "timeval \<Rightarrow> timeval \<Rightarrow> bool" where
  "lock_expired now ts \<longleftrightarrow> tv_usec ts + LOCK_TIME < tv_usec now"

definition lock_held :: "timeval \<Rightarrow> NID \<Rightarrow> (NID \<Rightarrow> timeval option) \<Rightarrow> bool" where
  "lock_held now nid L \<longleftrightarrow> (case L nid of None \<Rightarrow> False | Some ts \<Rightarrow> \<not> lock_expired now ts)"

definition lock_query ::
  "timeval \<Rightarrow> NID \<Rightarrow> (NID \<Rightarrow> timeval option) \<Rightarrow> NID \<Rightarrow> timeval option" where
  "lock_query now nid L = (if lock_held now nid L then L else L(nid := None))"

locale lock_table =
  fixes enq :: "timeval \<Rightarrow> NID \<Rightarrow> 's \<Rightarrow> 's option"
    and deq :: "NID \<Rightarrow> 's \<Rightarrow> 's option"
    and held :: "timeval \<Rightarrow> NID \<Rightarrow> 's \<Rightarrow> (bool \<times> 's) option"
    and locks :: "'s \<Rightarrow> NID \<Rightarrow> timeval option"
    and ok :: "'s \<Rightarrow> bool"
  assumes enq_spec: "ok s \<Longrightarrow>
      \<exists>s'. enq now nid s = Some s' \<and> ok s' \<and> locks s' = (locks s)(nid := Some now)"
    and deq_spec: "ok s \<Longrightarrow> \<exists>s'. deq nid s = Some s' \<and> ok s' \<and> locks s' = (locks s)(nid := None)"
    and held_free: "ok s \<Longrightarrow> locks s nid = None \<Longrightarrow> held now nid s = Some (False, s)"
    and held_taken: "ok s \<Longrightarrow> locks s nid = Some ts \<Longrightarrow> held now nid s =
      (if lock_expired now ts then map_option (Pair False) (deq nid s) else Some (True, s))"
begin

lemma held_spec:
  assumes "ok s"
  shows "\<exists>s'. held now nid s = Some (lock_held now nid (locks s), s') \<and> ok s' \<and>
    locks s' = lock_query now nid (locks s)"
proof (cases "locks s nid")
  case None
  then show ?thesis using assms by (simp add: held_free lock_held_def lock_query_def fun_upd_idem)
next
  case (Some ts)
  then show ?thesis using held_taken [OF assms Some] deq_spec [OF assms, of nid] assms
    by (auto simp: lock_held_def lock_query_def)
qed

text \<open>A lock taken is held by its identity alone until it expires or is given back.\<close>

lemma held_after_enq:
  assumes "ok s" "enq t0 nid s = Some s'"
  shows "\<exists>s''. held now nid s' = Some (\<not> lock_expired now t0, s'') \<and> ok s''"
proof -
  have "ok s'" "locks s' nid = Some t0"
    using enq_spec [OF assms(1), of t0 nid] assms(2) by auto
  then show ?thesis using held_spec [of s' now nid] by (auto simp: lock_held_def)
qed

lemma free_after_deq:
  assumes "ok s" "deq nid s = Some s'"
  shows "held now nid s' = Some (False, s')"
proof -
  have "ok s'" "locks s' nid = None"
    using deq_spec [OF assms(1), of nid] assms(2) by auto
  then show ?thesis by (rule held_free)
qed

text \<open>
  The microsecond field is below one million, so a lock taken at 850000 or later is held at any
  later time.
\<close>

lemma never_expires:
  assumes "ok s" "enq t0 nid s = Some s'" "850000 \<le> tv_usec t0" "tv_usec now < 1000000"
  shows "held now nid s' = Some (True, s')"
proof -
  have "ok s'" "locks s' nid = Some t0"
    using enq_spec [OF assms(1), of t0 nid] assms(2) by auto
  moreover have "\<not> lock_expired now t0" using assms by (simp add: lock_expired_def)
  ultimately show ?thesis by (simp add: held_taken)
qed

end

interpretation rvsq: lock_table queue unqueue isQueued rvs_locks rvs_locks_ok
proof unfold_locales
  fix s :: "'a lock_state_scheme" and now nid ts
  assume ok: "rvs_locks_ok s"
  note [simp] = lockt_ok_nid_ok [OF ok] table_simps lockt_put lockt_drop ok
  show "\<exists>s'. queue now nid s = Some s' \<and> rvs_locks_ok s' \<and> rvs_locks s' = (rvs_locks s)(nid := Some now)"
    by (simp add: queue_def)
  show "\<exists>s'. unqueue nid s = Some s' \<and> rvs_locks_ok s' \<and> rvs_locks s' = (rvs_locks s)(nid := None)"
    by (simp add: unqueue_def)
  show "isQueued now nid s = Some (False, s)" if "rvs_locks s nid = None"
    using that by (simp add: isQueued_def lockt_def)
  show "isQueued now nid s = (if lock_expired now ts then map_option (Pair False) (unqueue nid s)
      else Some (True, s))" if "rvs_locks s nid = Some ts"
    using that lockt_ok_nid [OF ok] by (auto simp: isQueued_def unqueue_def lockt_def lock_expired_def)
qed

interpretation dhtq: lock_table dht_queue dht_unqueue is_dht_queued dht_locks dht_locks_ok
proof unfold_locales
  fix s :: "'a lock_state_scheme" and now nid ts
  assume ok: "dht_locks_ok s"
  note [simp] = lockt_ok_nid_ok [OF ok] table_simps lockt_put lockt_drop ok
  show "\<exists>s'. dht_queue now nid s = Some s' \<and> dht_locks_ok s' \<and> dht_locks s' = (dht_locks s)(nid := Some now)"
    by (simp add: dht_queue_def)
  show "\<exists>s'. dht_unqueue nid s = Some s' \<and> dht_locks_ok s' \<and> dht_locks s' = (dht_locks s)(nid := None)"
    by (simp add: dht_unqueue_def)
  show "is_dht_queued now nid s = Some (False, s)" if "dht_locks s nid = None"
    using that by (simp add: is_dht_queued_def lockt_def)
  show "is_dht_queued now nid s = (if lock_expired now ts then map_option (Pair False) (dht_unqueue nid s)
      else Some (True, s))" if "dht_locks s nid = Some ts"
    using that lockt_ok_nid [OF ok] by (auto simp: is_dht_queued_def dht_unqueue_def lockt_def lock_expired_def)
qed

text \<open>The three operations change nothing but their table.\<close>

lemma queue_frame: "queue now nid s = Some s' \<Longrightarrow> \<exists>q. s' = s\<lparr>queue_table := q\<rparr>"
  by (auto simp: queue_def bind_eq_Some_conv)

lemma unqueue_frame: "unqueue nid s = Some s' \<Longrightarrow> \<exists>q. s' = s\<lparr>queue_table := q\<rparr>"
  by (auto simp: unqueue_def bind_eq_Some_conv)

lemma isQueued_frame: "isQueued now nid s = Some (b, s') \<Longrightarrow> \<exists>q. s' = s\<lparr>queue_table := q\<rparr>"
proof -
  assume run: "isQueued now nid s = Some (b, s')"
  then obtain re where "hash_lookup nid (queue_table s) = Some re"
    by (auto simp: isQueued_def bind_eq_Some_conv)
  then show ?thesis using run unqueue_frame [of nid s s']
    by (cases re) (auto simp: isQueued_def bind_eq_Some_conv split: if_splits intro: exI [of _ "queue_table s"])
qed

lemma dht_queue_frame: "dht_queue now nid s = Some s' \<Longrightarrow> \<exists>q. s' = s\<lparr>dht_queue_table := q\<rparr>"
  by (auto simp: dht_queue_def bind_eq_Some_conv)

lemma dht_unqueue_frame: "dht_unqueue nid s = Some s' \<Longrightarrow> \<exists>q. s' = s\<lparr>dht_queue_table := q\<rparr>"
  by (auto simp: dht_unqueue_def bind_eq_Some_conv)

lemma is_dht_queued_frame: "is_dht_queued now nid s = Some (b, s') \<Longrightarrow> \<exists>q. s' = s\<lparr>dht_queue_table := q\<rparr>"
proof -
  assume run: "is_dht_queued now nid s = Some (b, s')"
  then obtain re where "hash_lookup nid (dht_queue_table s) = Some re"
    by (auto simp: is_dht_queued_def bind_eq_Some_conv)
  then show ?thesis using run dht_unqueue_frame [of nid s s']
    by (cases re) (auto simp: is_dht_queued_def bind_eq_Some_conv split: if_splits intro: exI [of _ "dht_queue_table s"])
qed

end
