(* ===== verification/Connection_Mapper.thy ===== *)
theory Connection_Mapper
  imports Queue_Tables
begin

text \<open>
  The connection mapper of \<open>src/src/connection_mapper.c\<close>: the table that maps the identity of a
  correspondent to the locator packets for it are sent to, with the time it was learnt (0 for a
  static entry), the copies of the gateway's and the rendez-vous server's addresses, and the
  requests it writes to the rendez-vous thread (socket pair \<open>sp_cm2rvs\<close>).

  The clock is an argument: \<open>clk i\<close> is the \<open>i\<close>-th reading an operation makes (\<open>time(NULL)\<close> reads
  the seconds of it). Socket pairs are unbounded queues of datagrams.

  Shown: with sound tables no operation kills the process; the exact effect of every operation on the
  abstract map of connections and on the request queue, on every branch. Static entries survive
  everything but an explicit deletion; an answer 1 is an entry that was static or fresh, an answer 0
  is the gateway, together with a request.
\<close>

record cm_state = lock_state +
  connmap :: "(NID, conn_entry) hash_table"
  cm_nidgw :: NID
  cm_nidrvs :: NID
  cm_gatewayIP :: NID32
  cm_rvsIP :: NID32
  sp_cm2rvs :: "byte list list"

type_synonym clock = "nat \<Rightarrow> timeval"

abbreviation tick :: "clock \<Rightarrow> nat \<Rightarrow> clock" where
  "tick clk n \<equiv> \<lambda>i. clk (n + i)"

section \<open>Operations\<close>

definition newCMEntry :: "clock \<Rightarrow> NID \<Rightarrow> NID32 \<Rightarrow> 'a cm_state_scheme \<Rightarrow> 'a cm_state_scheme run" where
  "newCMEntry clk nid ip s = do {
     ce \<leftarrow> hash_lookup nid (connmap s);
     case ce of
       Some ce \<Rightarrow>
         if ce_tstamp ce = 0 then Some s
         else do {
           (_, t) \<leftarrow> hash_insert True nid (ce\<lparr>ce_ip := ip, ce_tstamp := tv_sec (clk 0)\<rparr>) (connmap s);
           Some (s\<lparr>connmap := t\<rparr>)
         }
     | None \<Rightarrow> do {
         (_, t) \<leftarrow> hash_insert True nid \<lparr>ce_ip = ip, ce_tstamp = tv_sec (clk 0)\<rparr> (connmap s);
         Some (s\<lparr>connmap := t\<rparr>)
       }
   }"

definition staticCMEntry :: "NID \<Rightarrow> NID32 \<Rightarrow> 'a cm_state_scheme \<Rightarrow> 'a cm_state_scheme run" where
  "staticCMEntry nid ip s = do {
     ce \<leftarrow> hash_lookup nid (connmap s);
     case ce of
       Some ce \<Rightarrow> do {
         (_, t) \<leftarrow> hash_insert True nid (ce\<lparr>ce_ip := ip\<rparr>) (connmap s);
         Some (s\<lparr>connmap := t\<rparr>)
       }
     | None \<Rightarrow> do {
         (_, t) \<leftarrow> hash_insert True nid \<lparr>ce_ip = ip, ce_tstamp = 0\<rparr> (connmap s);
         Some (s\<lparr>connmap := t\<rparr>)
       }
   }"

definition getAllConnections :: "clock \<Rightarrow> 'a cm_state_scheme \<Rightarrow> ll_head" where
  "getAllConnections clk s = hash_enumerate (\<lambda>i. tv_sec (clk i)) (connmap s) init_ll"

text \<open>\<open>write(sp_cm2rvs[1], &nid, 16)\<close>\<close>

definition rvs_request :: "NID \<Rightarrow> 'a cm_state_scheme \<Rightarrow> 'a cm_state_scheme" where
  "rvs_request nid s = s\<lparr>sp_cm2rvs := sp_cm2rvs s @ [nid_bytes nid]\<rparr>"

text \<open>The end of \<open>getCMEntry\<close>: no usable entry, so the gateway becomes the locator.\<close>

definition getCMEntry_miss ::
  "clock \<Rightarrow> NID \<Rightarrow> 'a cm_state_scheme \<Rightarrow> (bool \<times> NID32 \<times> 'a cm_state_scheme) run" where
  "getCMEntry_miss clk nid s = do {
     s \<leftarrow> newCMEntry clk nid (cm_gatewayIP s) s;
     let s = rvs_request nid s;
     Some (False, cm_gatewayIP s, s)
   }"

definition getCMEntry ::
  "clock \<Rightarrow> NID \<Rightarrow> 'a cm_state_scheme \<Rightarrow> (bool \<times> NID32 \<times> 'a cm_state_scheme) run" where
  "getCMEntry clk nid s = do {
     ce \<leftarrow> hash_lookup nid (connmap s);
     case ce of
       Some ce \<Rightarrow>
         if ce_tstamp ce = 0 \<or> ce_tstamp ce + RVS_PROACTIVE > tv_sec (clk 0) then
           Some (True, ce_ip ce, s)
         else if ce_tstamp ce + RVS_UPDATE_TIMEOUT > tv_sec (clk 1) then do {
           (b, s) \<leftarrow> isQueued (clk 2) nid s;
           if \<not> b then do {
             s \<leftarrow> queue (clk 3) nid s;
             Some (True, ce_ip ce, rvs_request nid s)
           }
           else Some (True, ce_ip ce, s)
         }
         else do {
           (_, t) \<leftarrow> hash_del nid (connmap s);
           getCMEntry_miss (tick clk 2) nid (s\<lparr>connmap := t\<rparr>)
         }
     | None \<Rightarrow> getCMEntry_miss clk nid s
   }"

definition delCMEntry :: "NID \<Rightarrow> 'a cm_state_scheme \<Rightarrow> 'a cm_state_scheme run" where
  "delCMEntry nid s = do {
     (_, t) \<leftarrow> hash_del nid (connmap s);
     Some (s\<lparr>connmap := t\<rparr>)
   }"

text \<open>The loop over the list of connections.\<close>

fun del_nodes :: "ll_node list \<Rightarrow> 'a cm_state_scheme \<Rightarrow> 'a cm_state_scheme run" where
  "del_nodes [] s = Some s"
| "del_nodes (lpt # nxt) s = do {
     (_, t) \<leftarrow> hash_del (ln_nid lpt) (connmap s);
     del_nodes nxt (s\<lparr>connmap := t\<rparr>)
   }"

text \<open>
  \<open>cleanCM\<close> fills the list twice before walking it. \<open>lpt\<close> is read from the list before the second
  filling: a null \<open>lpt\<close> (no live entry at the first filling) ends the loop at once, otherwise the
  nodes appended by the second filling are reached through the chain. \<open>clk\<close> and \<open>clk'\<close> are the
  readings of the two fillings.
\<close>

definition cleanCM :: "clock \<Rightarrow> clock \<Rightarrow> 'a cm_state_scheme \<Rightarrow> 'a cm_state_scheme run" where
  "cleanCM clk clk' s =
     (let ll = getAllConnections clk s;
          ll2 = hash_enumerate (\<lambda>i. tv_sec (clk' i)) (connmap s) ll
      in if ll_next ll = [] then Some s else del_nodes (ll_next ll2) s)"

definition init_conn_mapper :: "'a cm_state_scheme \<Rightarrow> 'a cm_state_scheme" where
  "init_conn_mapper s = s\<lparr>cm_nidgw := getNIDgw s, cm_nidrvs := getNIDrvs s,
     cm_gatewayIP := getGatewayIP s, cm_rvsIP := getRvsIP s, connmap := construct_hash_table True 20\<rparr>"

definition destroy_conn_mapper :: "'a cm_state_scheme \<Rightarrow> 'a cm_state_scheme" where
  "destroy_conn_mapper s = s\<lparr>connmap := fst (free_hash_table False (connmap s))\<rparr>"

definition updateCMconf :: "clock \<Rightarrow> clock \<Rightarrow> 'a cm_state_scheme \<Rightarrow> 'a cm_state_scheme run" where
  "updateCMconf clk clk' s = do {
     s \<leftarrow> delCMEntry (cm_nidgw s) s;
     s \<leftarrow> delCMEntry (cm_nidrvs s) s;
     s \<leftarrow> cleanCM clk clk' s;
     let s = s\<lparr>cm_nidgw := getNIDgw s, cm_nidrvs := getNIDrvs s,
               cm_gatewayIP := getGatewayIP s, cm_rvsIP := getRvsIP s\<rparr>;
     s \<leftarrow> staticCMEntry (cm_nidgw s) (cm_gatewayIP s) s;
     staticCMEntry (cm_nidrvs s) (cm_rvsIP s) s
   }"

section \<open>Invariant and abstract connections\<close>

definition cm_ok :: "'a cm_state_scheme \<Rightarrow> bool" where
  "cm_ok s \<longleftrightarrow> nid_ok (connmap s) \<and> rvs_locks_ok s"

abbreviation conns :: "'a cm_state_scheme \<Rightarrow> NID \<Rightarrow> conn_entry option" where
  "conns s \<equiv> nid_view (connmap s)"

abbreviation is_static :: "conn_entry \<Rightarrow> bool" where
  "is_static ce \<equiv> ce_tstamp ce = 0"

text \<open>The map of connections after an entry is learnt at \<open>now\<close>, and after a static one is set.\<close>

definition learn :: "time \<Rightarrow> NID \<Rightarrow> NID32 \<Rightarrow> (NID \<Rightarrow> conn_entry option) \<Rightarrow> NID \<Rightarrow> conn_entry option" where
  "learn now nid ip m =
     (case m nid of
        Some ce \<Rightarrow> if is_static ce then m else m(nid := Some \<lparr>ce_ip = ip, ce_tstamp = now\<rparr>)
      | None \<Rightarrow> m(nid := Some \<lparr>ce_ip = ip, ce_tstamp = now\<rparr>))"

definition set_static :: "NID \<Rightarrow> NID32 \<Rightarrow> (NID \<Rightarrow> conn_entry option) \<Rightarrow> NID \<Rightarrow> conn_entry option" where
  "set_static nid ip m =
     m(nid := Some \<lparr>ce_ip = ip, ce_tstamp = (case m nid of Some ce \<Rightarrow> ce_tstamp ce | None \<Rightarrow> 0)\<rparr>)"

lemma ce_update: "(ce :: conn_entry)\<lparr>ce_ip := ip, ce_tstamp := t\<rparr> = \<lparr>ce_ip = ip, ce_tstamp = t\<rparr>"
  by (cases ce) simp

lemma ce_update_ip: "(ce :: conn_entry)\<lparr>ce_ip := ip\<rparr> = \<lparr>ce_ip = ip, ce_tstamp = ce_tstamp ce\<rparr>"
  by (cases ce) simp

text \<open>
  Each operation on the table is one update of the field \<open>connmap\<close>, so everything else of the state
  (whatever the state is extended by) is unchanged.
\<close>

lemma newCMEntry_spec:
  assumes "nid_ok (connmap s)"
  shows "\<exists>t. newCMEntry clk nid ip s = Some (s\<lparr>connmap := t\<rparr>) \<and> nid_ok t \<and>
    nid_view t = learn (tv_sec (clk 0)) nid ip (conns s)"
proof (cases "conns s nid")
  case None
  let ?t = "nid_put nid \<lparr>ce_ip = ip, ce_tstamp = tv_sec (clk 0)\<rparr> (connmap s)"
  show ?thesis using assms None
    by (intro exI [of _ ?t]) (simp add: newCMEntry_def table_simps learn_def)
next
  case (Some ce)
  then show ?thesis
  proof (cases "is_static ce")
    case True
    then show ?thesis using assms Some
      by (intro exI [of _ "connmap s"]) (simp add: newCMEntry_def table_simps learn_def)
  next
    case False
    let ?t = "nid_put nid \<lparr>ce_ip = ip, ce_tstamp = tv_sec (clk 0)\<rparr> (connmap s)"
    show ?thesis using assms Some False
      by (intro exI [of _ ?t]) (simp add: newCMEntry_def table_simps learn_def ce_update)
  qed
qed

lemma staticCMEntry_spec:
  assumes "nid_ok (connmap s)"
  shows "\<exists>t. staticCMEntry nid ip s = Some (s\<lparr>connmap := t\<rparr>) \<and> nid_ok t \<and>
    nid_view t = set_static nid ip (conns s)"
proof -
  let ?ts = "case conns s nid of Some ce \<Rightarrow> ce_tstamp ce | None \<Rightarrow> 0"
  show ?thesis using assms
    by (intro exI [of _ "nid_put nid \<lparr>ce_ip = ip, ce_tstamp = ?ts\<rparr> (connmap s)"], cases "conns s nid")
      (simp_all add: staticCMEntry_def table_simps set_static_def ce_update_ip)
qed

lemma delCMEntry_spec:
  assumes "nid_ok (connmap s)"
  shows "\<exists>t. delCMEntry nid s = Some (s\<lparr>connmap := t\<rparr>) \<and> nid_ok t \<and> nid_view t = (conns s)(nid := None)"
  using assms by (intro exI [of _ "nid_drop nid (connmap s)"]) (simp add: delCMEntry_def table_simps)

lemma del_nodes_spec:
  assumes "nid_ok (connmap s)"
  shows "del_nodes ns s = Some (s\<lparr>connmap := fold nid_drop (map ln_nid ns) (connmap s)\<rparr>)"
  using assms by (induction ns arbitrary: s) (simp_all add: table_simps)

lemma cleanCM_spec:
  assumes "nid_ok (connmap s)"
  shows "\<exists>t. cleanCM clk clk' s = Some (s\<lparr>connmap := t\<rparr>) \<and> nid_ok t \<and>
    nid_view t = (\<lambda>k. if enum_nids (\<lambda>i. tv_sec (clk i)) (connmap s) \<noteq> [] \<and>
        (k \<in> set (enum_nids (\<lambda>i. tv_sec (clk i)) (connmap s)) \<or>
         k \<in> set (enum_nids (\<lambda>i. tv_sec (clk' i)) (connmap s))) then None else conns s k)"
proof (cases "enum_nids (\<lambda>i. tv_sec (clk i)) (connmap s) = []")
  case True
  then have "cleanCM clk clk' s = Some s"
    by (simp add: cleanCM_def getAllConnections_def enum_nids_def Let_def)
  then show ?thesis using assms True by (intro exI [of _ "connmap s"]) simp
next
  case False
  let ?ll = "hash_enumerate (\<lambda>i. tv_sec (clk' i)) (connmap s) (getAllConnections clk s)"
  let ?ks = "enum_nids (\<lambda>i. tv_sec (clk i)) (connmap s) @ enum_nids (\<lambda>i. tv_sec (clk' i)) (connmap s)"
  have ks: "map ln_nid (ll_next ?ll) = ?ks"
    by (simp add: hash_enumerate_nids getAllConnections_def init_ll_def)
  have ne: "ll_next (getAllConnections clk s) \<noteq> []"
    using False by (simp add: getAllConnections_def enum_nids_def)
  have run: "cleanCM clk clk' s = Some (s\<lparr>connmap := fold nid_drop ?ks (connmap s)\<rparr>)"
    unfolding cleanCM_def Let_def if_not_P [OF ne] del_nodes_spec [OF assms] ks ..
  show ?thesis
    using nidt.fold_drop [OF assms, of ?ks] False unfolding run
    by (intro exI [of _ "fold nid_drop ?ks (connmap s)"]) (simp add: fun_eq_iff)
qed

section \<open>The lookup\<close>

text \<open>
  An entry is fresh (answered as it is), stale but usable (answered, and a renewal is asked for
  unless one is under way), or neither.
\<close>

definition cm_fresh :: "clock \<Rightarrow> conn_entry \<Rightarrow> bool" where
  "cm_fresh clk ce \<longleftrightarrow> is_static ce \<or> tv_sec (clk 0) < ce_tstamp ce + RVS_PROACTIVE"

definition cm_usable :: "clock \<Rightarrow> conn_entry \<Rightarrow> bool" where
  "cm_usable clk ce \<longleftrightarrow> cm_fresh clk ce \<or> tv_sec (clk 1) < ce_tstamp ce + RVS_UPDATE_TIMEOUT"

definition cm_hit :: "clock \<Rightarrow> NID \<Rightarrow> (NID \<Rightarrow> conn_entry option) \<Rightarrow> bool" where
  "cm_hit clk nid m \<longleftrightarrow> (case m nid of None \<Rightarrow> False | Some ce \<Rightarrow> cm_usable clk ce)"

definition cm_renews :: "clock \<Rightarrow> NID \<Rightarrow> (NID \<Rightarrow> conn_entry option) \<Rightarrow> (NID \<Rightarrow> timeval option) \<Rightarrow> bool" where
  "cm_renews clk nid m L \<longleftrightarrow>
     (case m nid of None \<Rightarrow> False
      | Some ce \<Rightarrow> cm_usable clk ce \<and> \<not> cm_fresh clk ce \<and> \<not> lock_held (clk 2) nid L)"

text \<open>The reading of the clock that stamps the gateway entry a miss creates.\<close>

definition miss_time :: "clock \<Rightarrow> NID \<Rightarrow> (NID \<Rightarrow> conn_entry option) \<Rightarrow> time" where
  "miss_time clk nid m = tv_sec (clk (if m nid = None then 0 else 2))"

lemma getCMEntry_miss_spec:
  assumes "nid_ok (connmap s)" "conns s nid = None"
  shows "\<exists>t. getCMEntry_miss clk nid s = Some (False, cm_gatewayIP s,
      s\<lparr>connmap := t, sp_cm2rvs := sp_cm2rvs s @ [nid_bytes nid]\<rparr>) \<and> nid_ok t \<and>
    nid_view t = (conns s)(nid := Some \<lparr>ce_ip = cm_gatewayIP s, ce_tstamp = tv_sec (clk 0)\<rparr>)"
proof -
  obtain t where "newCMEntry clk nid (cm_gatewayIP s) s = Some (s\<lparr>connmap := t\<rparr>)" "nid_ok t"
    "nid_view t = learn (tv_sec (clk 0)) nid (cm_gatewayIP s) (conns s)"
    using newCMEntry_spec [OF assms(1)] by blast
  then show ?thesis using assms(2)
    by (intro exI [of _ t]) (simp add: getCMEntry_miss_def rvs_request_def learn_def)
qed

lemma getCMEntry_hit:
  assumes ok: "cm_ok s" and ce: "conns s nid = Some ce" and use: "cm_usable clk ce"
  shows "\<exists>q. getCMEntry clk nid s = Some (True, ce_ip ce, s\<lparr>queue_table := q,
      sp_cm2rvs := sp_cm2rvs s @ (if cm_renews clk nid (conns s) (rvs_locks s) then [nid_bytes nid] else [])\<rparr>) \<and>
    lockt_ok q \<and>
    lockt q = (if cm_renews clk nid (conns s) (rvs_locks s) then (rvs_locks s)(nid := Some (clk 3))
               else rvs_locks s)"
proof (cases "cm_fresh clk ce")
  case True
  then have "getCMEntry clk nid s = Some (True, ce_ip ce, s)"
    using ok ce by (auto simp: getCMEntry_def cm_ok_def table_simps cm_fresh_def)
  then show ?thesis using True ok ce
    by (intro exI [of _ "queue_table s"]) (simp add: cm_renews_def cm_ok_def)
next
  case False
  have "rvs_locks_ok s" using ok by (simp add: cm_ok_def)
  then obtain s1 where s1: "isQueued (clk 2) nid s = Some (lock_held (clk 2) nid (rvs_locks s), s1)"
      "rvs_locks_ok s1" "rvs_locks s1 = lock_query (clk 2) nid (rvs_locks s)"
    using rvsq.held_spec by blast
  obtain q1 where q1: "s1 = s\<lparr>queue_table := q1\<rparr>" using isQueued_frame [OF s1(1)] by blast
  have run: "getCMEntry clk nid s = (if \<not> lock_held (clk 2) nid (rvs_locks s) then do {
       s \<leftarrow> queue (clk 3) nid s1; Some (True, ce_ip ce, rvs_request nid s)} else Some (True, ce_ip ce, s1))"
    using ok ce use False s1(1)
    by (auto simp: getCMEntry_def cm_ok_def table_simps cm_fresh_def cm_usable_def)
  have renews: "cm_renews clk nid (conns s) (rvs_locks s) \<longleftrightarrow> \<not> lock_held (clk 2) nid (rvs_locks s)"
    using ce use False by (simp add: cm_renews_def)
  show ?thesis
  proof (cases "lock_held (clk 2) nid (rvs_locks s)")
    case True
    then show ?thesis using run renews s1 q1
      by (intro exI [of _ q1]) (simp add: lock_query_def)
  next
    case held: False
    obtain s2 where s2: "queue (clk 3) nid s1 = Some s2" "rvs_locks_ok s2"
        "rvs_locks s2 = (rvs_locks s1)(nid := Some (clk 3))"
      using rvsq.enq_spec [OF s1(2)] by blast
    obtain q2 where "s2 = s1\<lparr>queue_table := q2\<rparr>" using queue_frame [OF s2(1)] by blast
    then show ?thesis using run renews held s1 s2 q1
      by (intro exI [of _ q2]) (simp add: lock_query_def rvs_request_def)
  qed
qed

lemma getCMEntry_no_hit:
  assumes ok: "cm_ok s" and miss: "\<not> cm_hit clk nid (conns s)"
  shows "\<exists>t. getCMEntry clk nid s = Some (False, cm_gatewayIP s,
      s\<lparr>connmap := t, sp_cm2rvs := sp_cm2rvs s @ [nid_bytes nid]\<rparr>) \<and> nid_ok t \<and>
    nid_view t = (conns s)(nid := Some \<lparr>ce_ip = cm_gatewayIP s, ce_tstamp = miss_time clk nid (conns s)\<rparr>)"
proof (cases "conns s nid")
  case None
  then show ?thesis
    using getCMEntry_miss_spec [of s nid clk] ok
    by (simp add: getCMEntry_def cm_ok_def table_simps miss_time_def)
next
  case (Some ce)
  let ?s = "s\<lparr>connmap := nid_drop nid (connmap s)\<rparr>"
  have "getCMEntry clk nid s = getCMEntry_miss (tick clk 2) nid ?s"
    using ok miss Some
    by (auto simp: getCMEntry_def cm_ok_def table_simps cm_hit_def cm_usable_def cm_fresh_def)
  moreover have "nid_ok (connmap ?s)" "conns ?s nid = None" "conns ?s = (conns s)(nid := None)"
    using ok by (simp_all add: cm_ok_def table_simps)
  ultimately show ?thesis
    using getCMEntry_miss_spec [of ?s nid "tick clk 2"] Some
    by (simp add: miss_time_def del: fun_upd_apply)
qed

text \<open>The invariant is established at start-up and kept by the lookup.\<close>

lemma init_conn_mapper_ok: "rvs_locks_ok s \<Longrightarrow> cm_ok (init_conn_mapper s)"
  by (simp add: cm_ok_def init_conn_mapper_def nidt.ok_construct)

text \<open>The locator the connection mapper answers.\<close>

definition cm_locator :: "clock \<Rightarrow> NID \<Rightarrow> 'a cm_state_scheme \<Rightarrow> NID32" where
  "cm_locator clk nid s =
     (if cm_hit clk nid (conns s) then ce_ip (the (conns s nid)) else cm_gatewayIP s)"

lemma getCMEntry_total:
  assumes "cm_ok s"
  shows "\<exists>q t r. getCMEntry clk nid s = Some (cm_hit clk nid (conns s), cm_locator clk nid s,
      s\<lparr>queue_table := q, connmap := t, sp_cm2rvs := r\<rparr>) \<and> nid_ok t \<and> lockt_ok q \<and>
    (r = sp_cm2rvs s \<or> r = sp_cm2rvs s @ [nid_bytes nid])"
proof (cases "cm_hit clk nid (conns s)")
  case True
  let ?r = "sp_cm2rvs s @ (if cm_renews clk nid (conns s) (rvs_locks s) then [nid_bytes nid] else [])"
  obtain ce where ce: "conns s nid = Some ce" "cm_usable clk ce"
    using True by (auto simp: cm_hit_def split: option.splits)
  obtain q where "lockt_ok q"
      "getCMEntry clk nid s = Some (True, ce_ip ce, s\<lparr>queue_table := q, sp_cm2rvs := ?r\<rparr>)"
    using getCMEntry_hit [OF assms ce] by blast
  then show ?thesis using assms True ce
    by - (rule exI [of _ q], rule exI [of _ "connmap s"], rule exI [of _ ?r],
        simp add: cm_ok_def cm_locator_def)
next
  case False
  obtain t where "getCMEntry clk nid s = Some (False, cm_gatewayIP s,
      s\<lparr>connmap := t, sp_cm2rvs := sp_cm2rvs s @ [nid_bytes nid]\<rparr>)" "nid_ok t"
    using getCMEntry_no_hit [OF assms False] by blast
  then show ?thesis using assms False
    by - (rule exI [of _ "queue_table s"], rule exI [of _ t], rule exI [of _ "sp_cm2rvs s @ [nid_bytes nid]"],
        simp add: cm_ok_def cm_locator_def)
qed

lemma getCMEntry_answer:
  assumes "cm_ok s"
  shows "\<exists>q t r. getCMEntry clk nid s = Some (cm_hit clk nid (conns s), cm_locator clk nid s,
      s\<lparr>queue_table := q, connmap := t, sp_cm2rvs := r\<rparr>) \<and> nid_ok t \<and> lockt_ok q"
  using getCMEntry_total [OF assms] by blast

section \<open>Changing the configuration\<close>

text \<open>
  What the cleaning leaves: nothing of the two servers' entries and nothing live. An entry that
  has expired is not in the enumeration and stays.
\<close>

definition cm_cleaned :: "clock \<Rightarrow> clock \<Rightarrow> 'a cm_state_scheme \<Rightarrow> (NID, conn_entry) hash_table" where
  "cm_cleaned clk clk' s =
     (let t = nid_drop (cm_nidrvs s) (nid_drop (cm_nidgw s) (connmap s)) in
      case cleanCM clk clk' (s\<lparr>connmap := t\<rparr>) of Some s' \<Rightarrow> connmap s' | None \<Rightarrow> t)"

lemma cm_cleaned_ok:
  assumes "nid_ok (connmap s)"
  shows "nid_ok (cm_cleaned clk clk' s)"
    "cleanCM clk clk' (s\<lparr>connmap := nid_drop (cm_nidrvs s) (nid_drop (cm_nidgw s) (connmap s))\<rparr>)
       = Some (s\<lparr>connmap := cm_cleaned clk clk' s\<rparr>)"
  using cleanCM_spec [of "s\<lparr>connmap := nid_drop (cm_nidrvs s) (nid_drop (cm_nidgw s) (connmap s))\<rparr>" clk clk']
    assms by (auto simp: cm_cleaned_def table_simps Let_def)

lemma cm_cleaned_view:
  assumes ok: "nid_ok (connmap s)" and clk: "\<And>i. tv_sec (clk i) \<le> now"
    and ce: "nid_view (cm_cleaned clk clk' s) k = Some ce"
  shows "conns s k = Some ce" "k \<noteq> cm_nidgw s" "k \<noteq> cm_nidrvs s" "\<not> ce_live now ce"
proof -
  let ?t = "nid_drop (cm_nidrvs s) (nid_drop (cm_nidgw s) (connmap s))"
  have t: "nid_ok ?t" "nid_view ?t = (conns s)(cm_nidgw s := None, cm_nidrvs s := None)"
    using ok by (simp_all add: table_simps)
  let ?e = "enum_nids (\<lambda>i. tv_sec (clk i)) ?t"
  have v: "nid_view (cm_cleaned clk clk' s) = (\<lambda>k. if ?e \<noteq> [] \<and>
      (k \<in> set ?e \<or> k \<in> set (enum_nids (\<lambda>i. tv_sec (clk' i)) ?t)) then None else nid_view ?t k)"
    using cleanCM_spec [of "s\<lparr>connmap := ?t\<rparr>" clk clk'] t(1)
    by (auto simp: cm_cleaned_def Let_def)
  then have "nid_view ?t k = Some ce" "k \<notin> set ?e"
    using ce by (auto split: if_splits)
  moreover have "\<not> ce_live now ce"
    using enum_nids_live [OF t(1) clk, of k ce] calculation by auto
  ultimately show "conns s k = Some ce" "k \<noteq> cm_nidgw s" "k \<noteq> cm_nidrvs s" "\<not> ce_live now ce"
    using t(2) by (auto split: if_splits)
qed

lemma updateCMconf_spec:
  assumes "nid_ok (connmap s)"
  shows "\<exists>t. updateCMconf clk clk' s = Some (s\<lparr>connmap := t, cm_nidgw := cf_nidgw s,
      cm_nidrvs := cf_nidrvs s, cm_gatewayIP := cf_gatewayIP s, cm_rvsIP := cf_rvsIP s\<rparr>) \<and> nid_ok t \<and>
    nid_view t = set_static (cf_nidrvs s) (cf_rvsIP s)
      (set_static (cf_nidgw s) (cf_gatewayIP s) (nid_view (cm_cleaned clk clk' s)))"
proof -
  let ?s = "s\<lparr>connmap := cm_cleaned clk clk' s, cm_nidgw := cf_nidgw s,
      cm_nidrvs := cf_nidrvs s, cm_gatewayIP := cf_gatewayIP s, cm_rvsIP := cf_rvsIP s\<rparr>"
  obtain t1 where t1: "staticCMEntry (cf_nidgw s) (cf_gatewayIP s) ?s = Some (?s\<lparr>connmap := t1\<rparr>)"
      "nid_ok t1" "nid_view t1 = set_static (cf_nidgw s) (cf_gatewayIP s) (conns ?s)"
    using staticCMEntry_spec [of ?s "cf_nidgw s" "cf_gatewayIP s"] cm_cleaned_ok(1) [OF assms, of clk clk']
    by auto
  obtain t2 where t2: "staticCMEntry (cf_nidrvs s) (cf_rvsIP s) (?s\<lparr>connmap := t1\<rparr>)
        = Some (?s\<lparr>connmap := t1, connmap := t2\<rparr>)"
      "nid_ok t2" "nid_view t2 = set_static (cf_nidrvs s) (cf_rvsIP s) (nid_view t1)"
    using staticCMEntry_spec [of "?s\<lparr>connmap := t1\<rparr>" "cf_nidrvs s" "cf_rvsIP s"] t1(2) by auto
  have "updateCMconf clk clk' s = Some (s\<lparr>connmap := t2, cm_nidgw := cf_nidgw s,
      cm_nidrvs := cf_nidrvs s, cm_gatewayIP := cf_gatewayIP s, cm_rvsIP := cf_rvsIP s\<rparr>)"
    using assms t1(1) t2(1) cm_cleaned_ok(2) [OF assms, of clk clk']
    by (simp add: updateCMconf_def delCMEntry_def table_simps)
  then show ?thesis using t1 t2 by auto
qed

end
