(* ===== verification/NID_Mapper.thy ===== *)
theory NID_Mapper
  imports Connection_Mapper
begin

text \<open>
  The identity mapper of \<open>src/src/nid_mapper.c\<close>: for an identity the identity of its gateway, and
  for a 32-bit identity (the address applications use) the full identity and its gateway.

  Shown: with sound tables no operation kills the process; the effect of every operation on the two
  abstract maps; and the invariant that ties them: an identity with a gateway is found under its
  32-bit identity, up to the identities that share its last 24 bits.
\<close>

record NMEntry =
  nm_fqdn :: string
  nm_nidgw :: NID

record NMEntry32 =
  nm32_fqdn :: string
  nm32_nid :: NID
  nm32_nidgw :: NID

record nm_state = cm_state +
  nidTable :: "(NID, NMEntry) hash_table"
  nid32Table :: "(NID32, NMEntry32) hash_table"
  nm_niddns :: NID
  nm_nid32dns :: NID32

section \<open>Operations\<close>

definition newNMEntry32 :: "NID32 \<Rightarrow> NID \<Rightarrow> NID \<Rightarrow> 'a nm_state_scheme \<Rightarrow> 'a nm_state_scheme run" where
  "newNMEntry32 nid32 nid nidgw s = do {
     nme \<leftarrow> hash_lookup32 nid32 (nid32Table s);
     case nme of
       Some nme \<Rightarrow> do {
         (_, t) \<leftarrow> hash_insert32 True nid32 (nme\<lparr>nm32_nid := nid, nm32_nidgw := nidgw\<rparr>) (nid32Table s);
         Some (s\<lparr>nid32Table := t\<rparr>)
       }
     | None \<Rightarrow> do {
         (_, t) \<leftarrow> hash_insert32 True nid32
                   \<lparr>nm32_fqdn = [], nm32_nid = nid, nm32_nidgw = nidgw\<rparr> (nid32Table s);
         Some (s\<lparr>nid32Table := t\<rparr>)
       }
   }"

definition newNMEntry :: "NID \<Rightarrow> NID \<Rightarrow> 'a nm_state_scheme \<Rightarrow> 'a nm_state_scheme run" where
  "newNMEntry nid nidgw s = do {
     nme \<leftarrow> hash_lookup nid (nidTable s);
     case nme of
       Some nme \<Rightarrow> do {
         (_, t) \<leftarrow> hash_insert True nid (nme\<lparr>nm_nidgw := nidgw\<rparr>) (nidTable s);
         newNMEntry32 (nid2nid32 nid) nid nidgw (s\<lparr>nidTable := t\<rparr>)
       }
     | None \<Rightarrow> do {
         (_, t) \<leftarrow> hash_insert True nid \<lparr>nm_fqdn = [], nm_nidgw = nidgw\<rparr> (nidTable s);
         newNMEntry32 (nid2nid32 nid) nid nidgw (s\<lparr>nidTable := t\<rparr>)
       }
   }"

definition getNMEntry :: "NID \<Rightarrow> 'a nm_state_scheme \<Rightarrow> NMEntry option run" where
  "getNMEntry nid s = hash_lookup nid (nidTable s)"

definition getNMEntry32 :: "NID32 \<Rightarrow> 'a nm_state_scheme \<Rightarrow> NMEntry32 option run" where
  "getNMEntry32 nid32 s = hash_lookup32 nid32 (nid32Table s)"

text \<open>
  The built-in names of a network without a DNS server. The three variables the texts are read into
  are not initialised (their first values are an argument) and keep their value on a bad text.
\<close>

definition builtin_names :: "(string \<times> string \<times> string) list" where
  "builtin_names =
    [(''1.0.0.1'', ''3ffe::1'', ''bbbb::b''), (''1.0.0.2'', ''3ffe::2'', ''3ffe::7''),
     (''1.0.0.3'', ''3ffe::3'', ''3ffe::4''), (''1.0.0.4'', ''3ffe::4'', ''3ffe::4''),
     (''1.0.0.5'', ''3ffe::5'', ''3ffe::4''), (''1.0.0.6'', ''3ffe::6'', ''bbbb::b''),
     (''1.0.0.7'', ''3ffe::7'', ''3ffe::7''), (''1.0.0.8'', ''3ffe::8'', ''bbbb::b''),
     (''1.0.0.9'', ''3ffe::9'', ''3ffe::7''), (''1.0.0.11'', ''3ffe:3::11'', ''ffff:ffff::f''),
     (''1.0.1.1'', ''3ffe::101'', ''ffff:ffff::f''), (''1.0.1.2'', ''3ffe::102'', ''ffff:ffff::f''),
     (''1.0.1.3'', ''3ffe::103'', ''ffff:ffff::f''), (''1.0.0.16'', ''3ffe::10'', ''ffff:ffff::f'')]"

fun add_names :: "(string \<times> string \<times> string) list \<Rightarrow> NID32 \<Rightarrow> NID \<Rightarrow> NID \<Rightarrow>
    'a nm_state_scheme \<Rightarrow> 'a nm_state_scheme run" where
  "add_names [] nid32 nid nidgw s = Some s"
| "add_names ((a, b, c) # names) nid32 nid nidgw s = do {
     let nid32 = pton4_into a nid32;
     let nid = pton6_into b nid;
     let nidgw = pton6_into c nidgw;
     s \<leftarrow> newNMEntry32 nid32 nid nidgw s;
     add_names names nid32 nid nidgw s
   }"

definition init_nid_mapper :: "NID32 \<Rightarrow> NID \<Rightarrow> NID \<Rightarrow> 'a nm_state_scheme \<Rightarrow> 'a nm_state_scheme run" where
  "init_nid_mapper junk32 junk junkgw s =
     (let s = s\<lparr>nidTable := construct_hash_table True 10, nid32Table := construct_hash_table32 True 10\<rparr>
      in if get_dns s = 0 then add_names builtin_names junk32 junk junkgw s else Some s)"

definition destroy_nid_mapper :: "'a nm_state_scheme \<Rightarrow> 'a nm_state_scheme" where
  "destroy_nid_mapper s = s\<lparr>nidTable := fst (free_hash_table False (nidTable s)),
     nid32Table := fst (free_hash_table32 False (nid32Table s))\<rparr>"

definition updateNM :: "'a nm_state_scheme \<Rightarrow> 'a nm_state_scheme run" where
  "updateNM s = do {
     (_, t) \<leftarrow> hash_del (nm_niddns s) (nidTable s);
     let s = s\<lparr>nidTable := t\<rparr>;
     (_, t32) \<leftarrow> hash_del32 (nm_nid32dns s) (nid32Table s);
     let s = s\<lparr>nid32Table := t32\<rparr>;
     s \<leftarrow> newNMEntry (getNIDdns s) (getNIDcore s) s;
     newNMEntry32 (nid2nid32 (getNIDdns s)) (getNIDdns s) (getNIDcore s) s
   }"

section \<open>Invariant and abstract maps\<close>

text \<open>The gateway of an identity, and the pair under a 32-bit identity.\<close>

definition nm_gw :: "'a nm_state_scheme \<Rightarrow> NID \<Rightarrow> NID option" where
  "nm_gw s = (\<lambda>nid. map_option nm_nidgw (nid_view (nidTable s) nid))"

definition nm_pair :: "'a nm_state_scheme \<Rightarrow> NID32 \<Rightarrow> (NID \<times> NID) option" where
  "nm_pair s = (\<lambda>nid32. map_option (\<lambda>e. (nm32_nid e, nm32_nidgw e)) (nid32_view (nid32Table s) nid32))"

definition nm_tables_ok :: "'a nm_state_scheme \<Rightarrow> bool" where
  "nm_tables_ok s \<longleftrightarrow> nid_ok (nidTable s) \<and> nid32_ok (nid32Table s)"

text \<open>Every identity with a gateway has an entry under its 32-bit identity.\<close>

definition linked :: "(NID \<Rightarrow> NID option) \<Rightarrow> (NID32 \<Rightarrow> (NID \<times> NID) option) \<Rightarrow> bool" where
  "linked G M \<longleftrightarrow> (\<forall>nid. G nid \<noteq> None \<longrightarrow>
     (\<exists>nid' gw. M (nid2nid32 nid) = Some (nid', gw) \<and> nid2nid32 nid' = nid2nid32 nid))"

abbreviation nm_linked :: "'a nm_state_scheme \<Rightarrow> bool" where
  "nm_linked s \<equiv> linked (nm_gw s) (nm_pair s)"

definition nm_ok :: "'a nm_state_scheme \<Rightarrow> bool" where
  "nm_ok s \<longleftrightarrow> nm_tables_ok s \<and> nm_linked s \<and> nm_nid32dns s = 0"

lemma newNMEntry32_spec:
  assumes "nid32_ok (nid32Table s)"
  shows "\<exists>t. newNMEntry32 nid32 nid gw s = Some (s\<lparr>nid32Table := t\<rparr>) \<and> nid32_ok t \<and>
    nm_pair (s\<lparr>nid32Table := t\<rparr>) = (nm_pair s)(nid32 := Some (nid, gw))"
proof -
  let ?q = "case nid32_view (nid32Table s) nid32 of Some e \<Rightarrow> nm32_fqdn e | None \<Rightarrow> []"
  let ?t = "nid32_put nid32 \<lparr>nm32_fqdn = ?q, nm32_nid = nid, nm32_nidgw = gw\<rparr> (nid32Table s)"
  have upd: "e\<lparr>nm32_nid := nid, nm32_nidgw := gw\<rparr> = \<lparr>nm32_fqdn = nm32_fqdn e, nm32_nid = nid, nm32_nidgw = gw\<rparr>"
    for e :: NMEntry32 by (cases e) simp
  show ?thesis using assms
    by (intro exI [of _ ?t], cases "nid32_view (nid32Table s) nid32")
      (simp_all add: newNMEntry32_def table_simps fun_eq_iff upd nm_pair_def)
qed

lemma newNMEntry_spec:
  assumes "nm_tables_ok s"
  shows "\<exists>t t32. newNMEntry nid gw s = Some (s\<lparr>nidTable := t, nid32Table := t32\<rparr>) \<and>
    nid_ok t \<and> nid32_ok t32 \<and>
    nm_gw (s\<lparr>nidTable := t, nid32Table := t32\<rparr>) = (nm_gw s)(nid := Some gw) \<and>
    nm_pair (s\<lparr>nidTable := t, nid32Table := t32\<rparr>) = (nm_pair s)(nid2nid32 nid := Some (nid, gw))"
proof -
  let ?q = "case nid_view (nidTable s) nid of Some e \<Rightarrow> nm_fqdn e | None \<Rightarrow> []"
  let ?t = "nid_put nid \<lparr>nm_fqdn = ?q, nm_nidgw = gw\<rparr> (nidTable s)"
  let ?s = "s\<lparr>nidTable := ?t\<rparr>"
  have upd: "e\<lparr>nm_nidgw := gw\<rparr> = \<lparr>nm_fqdn = nm_fqdn e, nm_nidgw = gw\<rparr>" for e :: NMEntry
    by (cases e) simp
  have ok: "nid_ok (nidTable s)" "nid32_ok (nid32Table ?s)"
    using assms by (simp_all add: nm_tables_ok_def)
  obtain t32 where t32: "newNMEntry32 (nid2nid32 nid) nid gw ?s = Some (?s\<lparr>nid32Table := t32\<rparr>)" "nid32_ok t32"
      "nm_pair (?s\<lparr>nid32Table := t32\<rparr>) = (nm_pair ?s)(nid2nid32 nid := Some (nid, gw))"
    using newNMEntry32_spec [OF ok(2), of "nid2nid32 nid" nid gw] by blast
  have "newNMEntry nid gw s = newNMEntry32 (nid2nid32 nid) nid gw ?s"
    using ok(1) by (cases "nid_view (nidTable s) nid") (simp_all add: newNMEntry_def table_simps upd)
  then show ?thesis using t32 ok(1)
    by (intro exI [of _ ?t] exI [of _ t32]) (simp add: table_simps fun_eq_iff nm_gw_def nm_pair_def)
qed

lemma add_names_spec:
  assumes "nid32_ok (nid32Table s)"
  shows "\<exists>t. add_names names j32 j jgw s = Some (s\<lparr>nid32Table := t\<rparr>) \<and> nid32_ok t"
  using assms
proof (induction names arbitrary: s j32 j jgw)
  case Nil
  then show ?case by (intro exI [of _ "nid32Table s"]) simp
next
  case (Cons n names)
  obtain a b c where n: "n = (a, b, c)" by (cases n)
  let ?x = "pton4_into a j32" and ?y = "pton6_into b j" and ?z = "pton6_into c jgw"
  obtain t where t: "newNMEntry32 ?x ?y ?z s = Some (s\<lparr>nid32Table := t\<rparr>)" "nid32_ok t"
    using newNMEntry32_spec [OF Cons.prems] by blast
  have "nid32_ok (nid32Table (s\<lparr>nid32Table := t\<rparr>))" using t(2) by simp
  from Cons.IH [OF this, of ?x ?y ?z] show ?case
    using t(1) by (simp add: n Let_def)
qed

lemma nid2nid32_nonzero: "nid2nid32 n \<noteq> 0"
proof -
  have "bit (nid2nid32 n) 24" by (simp add: nid2nid32_bits bit_simps)
  then show ?thesis by auto
qed

lemma init_nid_mapper_spec:
  assumes "nm_nid32dns s = 0"
  shows "\<exists>t t32. init_nid_mapper j32 j jgw s = Some (s\<lparr>nidTable := t, nid32Table := t32\<rparr>) \<and>
    nm_ok (s\<lparr>nidTable := t, nid32Table := t32\<rparr>)"
proof -
  let ?s = "s\<lparr>nidTable := construct_hash_table True 10, nid32Table := construct_hash_table32 True 10\<rparr>"
  have ok: "nid32_ok (nid32Table ?s)" "nid_ok (nidTable ?s)"
    by (simp_all add: nid32t.ok_construct nidt.ok_construct)
  obtain t where t: "add_names builtin_names j32 j jgw ?s = Some (?s\<lparr>nid32Table := t\<rparr>)" "nid32_ok t"
    using add_names_spec [OF ok(1)] by blast
  let ?t = "if get_dns s = 0 then t else construct_hash_table32 True 10"
  have "init_nid_mapper j32 j jgw s = Some (s\<lparr>nidTable := construct_hash_table True 10, nid32Table := ?t\<rparr>)"
    using t(1) by (simp add: init_nid_mapper_def Let_def)
  moreover have "nm_ok (s\<lparr>nidTable := construct_hash_table True 10, nid32Table := ?t\<rparr>)"
    using t(2) ok assms by (simp add: nm_ok_def nm_tables_ok_def linked_def nm_gw_def nidt.view_construct)
  ultimately show ?thesis by blast
qed

lemma newNMEntry_ok:
  assumes "nm_ok s"
  shows "\<exists>t t32. newNMEntry nid gw s = Some (s\<lparr>nidTable := t, nid32Table := t32\<rparr>) \<and>
    nm_ok (s\<lparr>nidTable := t, nid32Table := t32\<rparr>) \<and>
    nm_gw (s\<lparr>nidTable := t, nid32Table := t32\<rparr>) = (nm_gw s)(nid := Some gw) \<and>
    nm_pair (s\<lparr>nidTable := t, nid32Table := t32\<rparr>) = (nm_pair s)(nid2nid32 nid := Some (nid, gw))"
proof -
  obtain t t32 where *: "newNMEntry nid gw s = Some (s\<lparr>nidTable := t, nid32Table := t32\<rparr>)"
    "nid_ok t" "nid32_ok t32"
    "nm_gw (s\<lparr>nidTable := t, nid32Table := t32\<rparr>) = (nm_gw s)(nid := Some gw)"
    "nm_pair (s\<lparr>nidTable := t, nid32Table := t32\<rparr>) = (nm_pair s)(nid2nid32 nid := Some (nid, gw))"
    using newNMEntry_spec [of s nid gw] assms by (auto simp: nm_ok_def)
  have "nm_linked (s\<lparr>nidTable := t, nid32Table := t32\<rparr>)"
    using assms unfolding linked_def nm_ok_def *(4,5) by auto
  then show ?thesis using * assms by (intro exI) (auto simp: nm_ok_def nm_tables_ok_def)
qed

lemma newNMEntry32_own_ok:
  assumes "nm_ok s"
  shows "\<exists>t. newNMEntry32 (nid2nid32 nid) nid gw s = Some (s\<lparr>nid32Table := t\<rparr>) \<and>
    nm_ok (s\<lparr>nid32Table := t\<rparr>) \<and>
    nm_pair (s\<lparr>nid32Table := t\<rparr>) = (nm_pair s)(nid2nid32 nid := Some (nid, gw))"
proof -
  obtain t where *: "newNMEntry32 (nid2nid32 nid) nid gw s = Some (s\<lparr>nid32Table := t\<rparr>)" "nid32_ok t"
    "nm_pair (s\<lparr>nid32Table := t\<rparr>) = (nm_pair s)(nid2nid32 nid := Some (nid, gw))"
    using newNMEntry32_spec [of s "nid2nid32 nid" nid gw] assms by (auto simp: nm_ok_def nm_tables_ok_def)
  have "nm_linked (s\<lparr>nid32Table := t\<rparr>)"
    using assms unfolding linked_def nm_ok_def *(3) by (auto simp: nm_gw_def)
  then show ?thesis using * assms by (intro exI) (auto simp: nm_ok_def nm_tables_ok_def)
qed

text \<open>
  \<open>updateNM\<close> enters the DNS server. The deletion before it is of the never assigned globals
  \<open>niddns\<close> and \<open>nid32dns\<close> of this file, so an earlier server's entries stay.
\<close>

lemma updateNM_spec:
  assumes "nm_ok s"
  shows "\<exists>t t32. updateNM s = Some (s\<lparr>nidTable := t, nid32Table := t32\<rparr>) \<and>
    nm_ok (s\<lparr>nidTable := t, nid32Table := t32\<rparr>) \<and>
    nm_gw (s\<lparr>nidTable := t, nid32Table := t32\<rparr>)
      = (nm_gw s)(nm_niddns s := None, cf_niddns s := Some (cf_nidcore s)) \<and>
    nm_pair (s\<lparr>nidTable := t, nid32Table := t32\<rparr>)
      = (nm_pair s)(0 := None, nid2nid32 (cf_niddns s) := Some (cf_niddns s, cf_nidcore s))"
proof -
  let ?s = "s\<lparr>nidTable := nid_drop (nm_niddns s) (nidTable s), nid32Table := nid32_drop 0 (nid32Table s)\<rparr>"
  have tabs: "nid_ok (nidTable s)" "nid32_ok (nid32Table s)" "nm_nid32dns s = 0"
    using assms by (simp_all add: nm_ok_def nm_tables_ok_def)
  have gw: "nm_gw ?s = (nm_gw s)(nm_niddns s := None)" and pair: "nm_pair ?s = (nm_pair s)(0 := None)"
    using tabs by (auto simp: table_simps fun_eq_iff nm_gw_def nm_pair_def)
  have "nm_linked ?s"
    using assms nid2nid32_nonzero unfolding linked_def nm_ok_def gw pair by auto
  then have ok: "nm_ok ?s" using tabs by (simp add: nm_ok_def nm_tables_ok_def table_simps)
  obtain t t32 where t: "newNMEntry (cf_niddns s) (cf_nidcore s) ?s = Some (?s\<lparr>nidTable := t, nid32Table := t32\<rparr>)"
    "nm_ok (?s\<lparr>nidTable := t, nid32Table := t32\<rparr>)"
    "nm_gw (?s\<lparr>nidTable := t, nid32Table := t32\<rparr>) = (nm_gw ?s)(cf_niddns s := Some (cf_nidcore s))"
    "nm_pair (?s\<lparr>nidTable := t, nid32Table := t32\<rparr>)
       = (nm_pair ?s)(nid2nid32 (cf_niddns s) := Some (cf_niddns s, cf_nidcore s))"
    using newNMEntry_ok [OF ok] by blast
  let ?s1 = "s\<lparr>nidTable := t, nid32Table := t32\<rparr>"
  obtain t' where t': "newNMEntry32 (nid2nid32 (cf_niddns s)) (cf_niddns s) (cf_nidcore s) ?s1
      = Some (?s1\<lparr>nid32Table := t'\<rparr>)" "nm_ok (?s1\<lparr>nid32Table := t'\<rparr>)"
    "nm_pair (?s1\<lparr>nid32Table := t'\<rparr>) = (nm_pair ?s1)(nid2nid32 (cf_niddns s) := Some (cf_niddns s, cf_nidcore s))"
    using newNMEntry32_own_ok [of ?s1] t(2) by auto
  have "updateNM s = Some (s\<lparr>nidTable := t, nid32Table := t'\<rparr>)"
    using tabs t(1) t'(1) by (simp add: updateNM_def table_simps)
  then show ?thesis using t(3,4) t'(2,3) gw pair
    by (intro exI [of _ t] exI [of _ t']) (simp add: fun_eq_iff nm_gw_def nm_pair_def)
qed

end
