(* ===== verification/Routing_Table.thy ===== *)
theory Routing_Table
  imports NID_Mapper
begin

text \<open>
  The routing table of \<open>src/src/nid_routing.c\<close> (lines 356 to 443): the locators a gateway routes
  to, learnt from registrations and valid for \<open>GATEWAY_TIMEOUT\<close> seconds, with the next gateway as
  the default route.

  Shown: totality on a sound table and the exact effect of every operation on the abstract routes;
  a lookup answers a live route or the default, and drops a dead route.
\<close>

record rt_state = nm_state +
  rtable :: "(NID, conn_entry) hash_table"
  rt_nidgw :: NID
  rt_gatewayIP :: NID32

definition init_rtable :: "'a rt_state_scheme \<Rightarrow> 'a rt_state_scheme" where
  "init_rtable s = s\<lparr>rtable := construct_hash_table True 30, rt_nidgw := getNIDgw s,
     rt_gatewayIP := getGatewayIP s\<rparr>"

definition destroy_rtable :: "'a rt_state_scheme \<Rightarrow> 'a rt_state_scheme" where
  "destroy_rtable s = s\<lparr>rtable := fst (free_hash_table False (rtable s))\<rparr>"

definition newRTEntry :: "clock \<Rightarrow> NID \<Rightarrow> NID32 \<Rightarrow> 'a rt_state_scheme \<Rightarrow> 'a rt_state_scheme run" where
  "newRTEntry clk nid ip s = do {
     ce \<leftarrow> hash_lookup nid (rtable s);
     case ce of
       Some ce \<Rightarrow>
         if ce_tstamp ce = 0 then Some s
         else do {
           (_, t) \<leftarrow> hash_insert True nid (ce\<lparr>ce_ip := ip, ce_tstamp := tv_sec (clk 0)\<rparr>) (rtable s);
           Some (s\<lparr>rtable := t\<rparr>)
         }
     | None \<Rightarrow> do {
         (_, t) \<leftarrow> hash_insert True nid \<lparr>ce_ip = ip, ce_tstamp = tv_sec (clk 0)\<rparr> (rtable s);
         Some (s\<lparr>rtable := t\<rparr>)
       }
   }"

definition staticRTEntry :: "NID \<Rightarrow> NID32 \<Rightarrow> 'a rt_state_scheme \<Rightarrow> 'a rt_state_scheme run" where
  "staticRTEntry nid ip s = do {
     ce \<leftarrow> hash_lookup nid (rtable s);
     case ce of
       Some ce \<Rightarrow> do {
         (_, t) \<leftarrow> hash_insert True nid (ce\<lparr>ce_ip := ip\<rparr>) (rtable s);
         Some (s\<lparr>rtable := t\<rparr>)
       }
     | None \<Rightarrow> do {
         (_, t) \<leftarrow> hash_insert True nid \<lparr>ce_ip = ip, ce_tstamp = 0\<rparr> (rtable s);
         Some (s\<lparr>rtable := t\<rparr>)
       }
   }"

definition getRTEntry :: "clock \<Rightarrow> NID \<Rightarrow> 'a rt_state_scheme \<Rightarrow> (bool \<times> NID32 \<times> 'a rt_state_scheme) run" where
  "getRTEntry clk nid s = do {
     ce \<leftarrow> hash_lookup nid (rtable s);
     case ce of
       Some ce \<Rightarrow>
         if ce_tstamp ce + GATEWAY_TIMEOUT > tv_sec (clk 0) \<or> ce_tstamp ce = 0 then
           (if ce_ip ce \<noteq> 0 then Some (True, ce_ip ce, s) else Some (False, rt_gatewayIP s, s))
         else do {
           (_, t) \<leftarrow> hash_del nid (rtable s);
           Some (False, rt_gatewayIP s, s\<lparr>rtable := t\<rparr>)
         }
     | None \<Rightarrow> Some (False, rt_gatewayIP s, s)
   }"

definition getAllRTEntries :: "clock \<Rightarrow> 'a rt_state_scheme \<Rightarrow> ll_head" where
  "getAllRTEntries clk s = hash_enumerate (\<lambda>i. tv_sec (clk i)) (rtable s) init_ll"

definition updateRT :: "'a rt_state_scheme \<Rightarrow> 'a rt_state_scheme run" where
  "updateRT s = do {
     (_, t) \<leftarrow> hash_del (rt_nidgw s) (rtable s);
     Some (s\<lparr>rtable := t, rt_nidgw := getNIDgw s, rt_gatewayIP := getGatewayIP s\<rparr>)
   }"

text \<open>
  One round of \<open>thread_debug_rt\<close>: the lines it prints of the table, one per live entry.
\<close>

definition debug_rt_lines :: "clock \<Rightarrow> 'a rt_state_scheme \<Rightarrow> int \<times> (string \<times> string) list" where
  "debug_rt_lines clk s =
     (let ll = getAllRTEntries clk s
      in (ll_size ll, map (\<lambda>n. (inet_ntop6 (ln_nid n), ln_ip n)) (ll_next ll)))"

section \<open>Abstract routes\<close>

abbreviation routes :: "'a rt_state_scheme \<Rightarrow> NID \<Rightarrow> conn_entry option" where
  "routes s \<equiv> nid_view (rtable s)"

definition route_live :: "time \<Rightarrow> conn_entry \<Rightarrow> bool" where
  "route_live now ce \<longleftrightarrow> now < ce_tstamp ce + GATEWAY_TIMEOUT \<or> is_static ce"

definition route_hit :: "time \<Rightarrow> NID \<Rightarrow> (NID \<Rightarrow> conn_entry option) \<Rightarrow> NID32 option" where
  "route_hit now nid m =
     (case m nid of None \<Rightarrow> None
      | Some ce \<Rightarrow> if route_live now ce \<and> ce_ip ce \<noteq> 0 then Some (ce_ip ce) else None)"

definition route_prune :: "time \<Rightarrow> NID \<Rightarrow> (NID \<Rightarrow> conn_entry option) \<Rightarrow> NID \<Rightarrow> conn_entry option" where
  "route_prune now nid m =
     (case m nid of None \<Rightarrow> m | Some ce \<Rightarrow> if route_live now ce then m else m(nid := None))"

lemma init_rtable_ok: "nid_ok (rtable (init_rtable s))"
  by (simp add: init_rtable_def nidt.ok_construct)

lemma newRTEntry_spec:
  assumes "nid_ok (rtable s)"
  shows "\<exists>t. newRTEntry clk nid ip s = Some (s\<lparr>rtable := t\<rparr>) \<and> nid_ok t \<and>
    nid_view t = learn (tv_sec (clk 0)) nid ip (routes s)"
proof -
  let ?t = "nid_put nid \<lparr>ce_ip = ip, ce_tstamp = tv_sec (clk 0)\<rparr> (rtable s)"
  consider "routes s nid = None" | ce where "routes s nid = Some ce" "is_static ce"
    | ce where "routes s nid = Some ce" "\<not> is_static ce" by fastforce
  then show ?thesis
  proof cases
    case 1
    then show ?thesis using assms
      by (intro exI [of _ ?t]) (simp add: newRTEntry_def table_simps learn_def)
  next
    case 2
    then show ?thesis using assms
      by (intro exI [of _ "rtable s"]) (simp add: newRTEntry_def table_simps learn_def)
  next
    case 3
    then show ?thesis using assms
      by (intro exI [of _ ?t]) (simp add: newRTEntry_def table_simps learn_def ce_update)
  qed
qed

lemma staticRTEntry_spec:
  assumes "nid_ok (rtable s)"
  shows "\<exists>t. staticRTEntry nid ip s = Some (s\<lparr>rtable := t\<rparr>) \<and> nid_ok t \<and>
    nid_view t = set_static nid ip (routes s)"
proof -
  let ?ts = "case routes s nid of Some ce \<Rightarrow> ce_tstamp ce | None \<Rightarrow> 0"
  show ?thesis using assms
    by (intro exI [of _ "nid_put nid \<lparr>ce_ip = ip, ce_tstamp = ?ts\<rparr> (rtable s)"], cases "routes s nid")
      (simp_all add: staticRTEntry_def table_simps set_static_def ce_update_ip)
qed

lemma getRTEntry_spec:
  assumes "nid_ok (rtable s)"
  shows "\<exists>t. getRTEntry clk nid s =
      Some (route_hit (tv_sec (clk 0)) nid (routes s) \<noteq> None,
            case route_hit (tv_sec (clk 0)) nid (routes s) of Some ip \<Rightarrow> ip | None \<Rightarrow> rt_gatewayIP s,
            s\<lparr>rtable := t\<rparr>) \<and>
    nid_ok t \<and> nid_view t = route_prune (tv_sec (clk 0)) nid (routes s)"
proof (cases "case routes s nid of None \<Rightarrow> True | Some ce \<Rightarrow> route_live (tv_sec (clk 0)) ce")
  case True
  then show ?thesis using assms
    by (intro exI [of _ "rtable s"], cases "routes s nid")
      (auto simp: getRTEntry_def table_simps route_hit_def route_prune_def route_live_def)
next
  case False
  then obtain ce where "routes s nid = Some ce" "\<not> route_live (tv_sec (clk 0)) ce"
    by (auto split: option.splits)
  then show ?thesis using assms
    by (intro exI [of _ "nid_drop nid (rtable s)"])
      (auto simp: getRTEntry_def table_simps route_hit_def route_prune_def route_live_def)
qed

text \<open>The locator a gateway routes to: a live route or the next gateway.\<close>

definition rt_locator :: "clock \<Rightarrow> NID \<Rightarrow> 'a rt_state_scheme \<Rightarrow> NID32" where
  "rt_locator clk nid s =
     (case route_hit (tv_sec (clk 0)) nid (routes s) of Some ip \<Rightarrow> ip | None \<Rightarrow> rt_gatewayIP s)"

lemma getRTEntry_answer:
  assumes "nid_ok (rtable s)"
  shows "\<exists>t. getRTEntry clk nid s = Some (route_hit (tv_sec (clk 0)) nid (routes s) \<noteq> None,
      rt_locator clk nid s, s\<lparr>rtable := t\<rparr>) \<and> nid_ok t"
  using getRTEntry_spec [OF assms, of clk nid] by (auto simp: rt_locator_def)

lemma updateRT_spec:
  assumes "nid_ok (rtable s)"
  shows "\<exists>t. updateRT s = Some (s\<lparr>rtable := t, rt_nidgw := cf_nidgw s, rt_gatewayIP := cf_gatewayIP s\<rparr>) \<and>
    nid_ok t \<and> nid_view t = (routes s)(rt_nidgw s := None)"
  using assms
  by (intro exI [of _ "nid_drop (rt_nidgw s) (rtable s)"]) (simp add: updateRT_def table_simps)

end
