(* ===== verification/Gateway.thy ===== *)
theory Gateway
  imports Routing_Table
begin

text \<open>
  The gateway of \<open>src/src/gwc.c\<close>: the registry of a core gateway (where the nodes of its domain
  are when they roam in another one) and the three threads that spread registrations upwards. A
  thread is the function of one iteration of its loop; its local message variable is part of the state.
  With nothing to read an iteration leaves the state alone (\<open>select\<close> blocks).

  \<open>ifaddr\<close> is the kernel's table of interface addresses, which \<open>get_locator\<close> asks for.

  Shown: the effect of every iteration, that registrations travel up unchanged but for the
  addressing fields, and the registry as an abstract map.
\<close>

type_synonym ifaddr = "string \<Rightarrow> NID32"

definition get_locator :: "ifaddr \<Rightarrow> string \<Rightarrow> string" where
  "get_locator ifaddr dev = nid322char (ifaddr dev)"

text \<open>\<open>inet_pton(AF_INET, get_locator(getPrimaryIface()), &nmsg.ip)\<close>\<close>

definition own_locator :: "ifaddr \<Rightarrow> 'a conf_scheme \<Rightarrow> NID32 \<Rightarrow> NID32" where
  "own_locator ifaddr s old = pton4_into (get_locator ifaddr (getPrimaryIface s)) old"

lemma own_locator_eq [simp]: "own_locator ifaddr s old = ifaddr (cf_primaryIface s)"
  by (simp add: own_locator_def get_locator_def nid322char_def pton4_into_def inet_pton4_ntop4)

record gw_state = rt_state +
  registry_table :: "(NID, conn_entry) hash_table"
  sp_co2gwl :: "byte list list"
  sp_gwl2gwt :: "byte list list"
  sp_rvs2gwt :: "byte list list"
  sp_gwt2ph :: "byte list list"
  gwl_nmsg :: NID_msg
  gwt_nmsg :: NID_msg

section \<open>Registry\<close>

definition init_registry_table :: "'a gw_state_scheme \<Rightarrow> 'a gw_state_scheme" where
  "init_registry_table s = s\<lparr>registry_table := construct_hash_table True 30\<rparr>"

definition destroy_registry_table :: "'a gw_state_scheme \<Rightarrow> 'a gw_state_scheme" where
  "destroy_registry_table s = s\<lparr>registry_table := fst (free_hash_table False (registry_table s))\<rparr>"

definition addRegistry :: "NID \<Rightarrow> NID32 \<Rightarrow> 'a gw_state_scheme \<Rightarrow> 'a gw_state_scheme run" where
  "addRegistry nid ip s = do {
     ce \<leftarrow> hash_lookup nid (registry_table s);
     case ce of
       Some ce \<Rightarrow> do {
         (_, t) \<leftarrow> hash_insert True nid (ce\<lparr>ce_ip := ip\<rparr>) (registry_table s);
         Some (s\<lparr>registry_table := t\<rparr>)
       }
     | None \<Rightarrow> do {
         (_, t) \<leftarrow> hash_insert True nid \<lparr>ce_ip = ip, ce_tstamp = 0\<rparr> (registry_table s);
         Some (s\<lparr>registry_table := t\<rparr>)
       }
   }"

definition getRegistry :: "NID \<Rightarrow> 'a gw_state_scheme \<Rightarrow> (bool \<times> NID32) run" where
  "getRegistry nid s = do {
     ce \<leftarrow> hash_lookup nid (registry_table s);
     case ce of
       Some ce \<Rightarrow> if ce_ip ce \<noteq> 0 then Some (True, ce_ip ce) else Some (False, 0)
     | None \<Rightarrow> Some (False, 0)
   }"

section \<open>Threads\<close>

definition thread_gw_listener :: "clock \<Rightarrow> 'a gw_state_scheme \<Rightarrow> 'a gw_state_scheme run" where
  "thread_gw_listener clk s =
     (case sp_co2gwl s of
        [] \<Rightarrow> Some s
      | d # ds \<Rightarrow> do {
          let nmsg = recv_msg d (gwl_nmsg s);
          s \<leftarrow> newRTEntry clk (m_nid nmsg) (m_ip nmsg) (s\<lparr>sp_co2gwl := ds, gwl_nmsg := nmsg\<rparr>);
          Some (s\<lparr>sp_gwl2gwt := sp_gwl2gwt s @ [encode_msg nmsg]\<rparr>)
        })"

definition thread_gw_core_listener ::
  "ifaddr \<Rightarrow> clock \<Rightarrow> 'a gw_state_scheme \<Rightarrow> 'a gw_state_scheme run" where
  "thread_gw_core_listener ifaddr clk s =
     (case sp_co2gwl s of
        [] \<Rightarrow> Some s
      | d # ds \<Rightarrow> do {
          let nid = getNID s;
          let nmsg = recv_msg d (gwl_nmsg s);
          s \<leftarrow> newRTEntry clk (m_nid nmsg) (m_ip nmsg) (s\<lparr>sp_co2gwl := ds, gwl_nmsg := nmsg\<rparr>);
          if m_srcNIDgw nmsg = nid then addRegistry (m_nid nmsg) 0 s
          else do {
            let nmsg = nmsg\<lparr>m_type := REDIRECT_CORE, m_srcNID := nid, m_destNID := m_srcNIDgw nmsg,
                            m_destNIDgw := m_srcNIDgw nmsg, m_srcNIDgw := nid,
                            m_ip := own_locator ifaddr s (m_ip nmsg)\<rparr>;
            Some (s\<lparr>gwl_nmsg := nmsg, sp_gwt2ph := sp_gwt2ph s @ [encode_msg nmsg]\<rparr>)
          }
        })"

text \<open>The body both branches of \<open>thread_gw_talker\<close> have.\<close>

definition gw_talk :: "ifaddr \<Rightarrow> byte list \<Rightarrow> 'a gw_state_scheme \<Rightarrow> 'a gw_state_scheme" where
  "gw_talk ifaddr d s =
     (let nmsg = recv_msg d (gwt_nmsg s);
          nmsg = nmsg\<lparr>m_type := REGISTRY, m_destNID := getNIDgw s, m_ip := own_locator ifaddr s (m_ip nmsg)\<rparr>
      in s\<lparr>gwt_nmsg := nmsg, sp_gwt2ph := sp_gwt2ph s @ [encode_msg nmsg]\<rparr>)"

definition thread_gw_talker :: "ifaddr \<Rightarrow> 'a gw_state_scheme \<Rightarrow> 'a gw_state_scheme run" where
  "thread_gw_talker ifaddr s =
     (case sp_rvs2gwt s of
        d # ds \<Rightarrow> Some (gw_talk ifaddr d (s\<lparr>sp_rvs2gwt := ds\<rparr>))
      | [] \<Rightarrow>
          (case sp_gwl2gwt s of
             d # ds \<Rightarrow> Some (gw_talk ifaddr d (s\<lparr>sp_gwl2gwt := ds\<rparr>))
           | [] \<Rightarrow> Some s))"

section \<open>Abstract registry\<close>

abbreviation registry :: "'a gw_state_scheme \<Rightarrow> NID \<Rightarrow> conn_entry option" where
  "registry s \<equiv> nid_view (registry_table s)"

text \<open>The locator a registration answers: 0 stands for a node at home, which the registry skips.\<close>

definition reg_hit :: "NID \<Rightarrow> (NID \<Rightarrow> conn_entry option) \<Rightarrow> NID32 option" where
  "reg_hit nid m =
     (case m nid of None \<Rightarrow> None | Some ce \<Rightarrow> if ce_ip ce \<noteq> 0 then Some (ce_ip ce) else None)"

lemma addRegistry_spec:
  assumes "nid_ok (registry_table s)"
  shows "\<exists>t. addRegistry nid ip s = Some (s\<lparr>registry_table := t\<rparr>) \<and> nid_ok t \<and>
    nid_view t = set_static nid ip (registry s)"
proof -
  let ?ts = "case registry s nid of Some ce \<Rightarrow> ce_tstamp ce | None \<Rightarrow> 0"
  show ?thesis using assms
    by (intro exI [of _ "nid_put nid \<lparr>ce_ip = ip, ce_tstamp = ?ts\<rparr> (registry_table s)"], cases "registry s nid")
      (simp_all add: addRegistry_def table_simps set_static_def ce_update_ip)
qed

lemma getRegistry_spec:
  assumes "nid_ok (registry_table s)"
  shows "getRegistry nid s = Some (case reg_hit nid (registry s) of Some ip \<Rightarrow> (True, ip) | None \<Rightarrow> (False, 0))"
  using assms by (cases "registry s nid") (auto simp: getRegistry_def table_simps reg_hit_def)

definition gw_tables_ok :: "'a gw_state_scheme \<Rightarrow> bool" where
  "gw_tables_ok s \<longleftrightarrow> nid_ok (rtable s) \<and> nid_ok (registry_table s)"

text \<open>The listener of a gateway: the sender's route is learnt and the message goes to the talker.\<close>

lemma thread_gw_listener_spec:
  assumes "gw_tables_ok s" "sp_co2gwl s = encode_msg m # ds"
  shows "\<exists>t. thread_gw_listener clk s = Some (s\<lparr>rtable := t, sp_co2gwl := ds, gwl_nmsg := m,
      sp_gwl2gwt := sp_gwl2gwt s @ [encode_msg m]\<rparr>) \<and> nid_ok t \<and>
    nid_view t = learn (tv_sec (clk 0)) (m_nid m) (m_ip m) (routes s)"
proof -
  let ?s = "s\<lparr>sp_co2gwl := ds, gwl_nmsg := m\<rparr>"
  obtain t where "newRTEntry clk (m_nid m) (m_ip m) ?s = Some (?s\<lparr>rtable := t\<rparr>)" "nid_ok t"
      "nid_view t = learn (tv_sec (clk 0)) (m_nid m) (m_ip m) (routes ?s)"
    using newRTEntry_spec [of ?s clk "m_nid m" "m_ip m"] assms(1) by (auto simp: gw_tables_ok_def)
  then show ?thesis using assms(2)
    by (intro exI [of _ t]) (simp add: thread_gw_listener_def codec_simps)
qed

text \<open>
  The message a core gateway sends to the home gateway of a visitor: the visitor's identity, with
  the core gateway itself as the place to reach it.
\<close>

definition redirect_core_msg :: "ifaddr \<Rightarrow> 'a gw_state_scheme \<Rightarrow> NID_msg \<Rightarrow> NID_msg" where
  "redirect_core_msg ifaddr s m = \<lparr>m_type = REDIRECT_CORE, m_srcNID = cf_nid s, m_destNID = m_srcNIDgw m,
     m_srcNIDgw = cf_nid s, m_destNIDgw = m_srcNIDgw m, m_nid = m_nid m, m_ip = ifaddr (cf_primaryIface s)\<rparr>"

lemma thread_gw_core_listener_spec:
  assumes "gw_tables_ok s" "sp_co2gwl s = encode_msg m # ds"
  shows "\<exists>t r. thread_gw_core_listener ifaddr clk s = Some
      (if m_srcNIDgw m = cf_nid s
       then s\<lparr>rtable := t, registry_table := r, sp_co2gwl := ds, gwl_nmsg := m\<rparr>
       else s\<lparr>rtable := t, sp_co2gwl := ds, gwl_nmsg := redirect_core_msg ifaddr s m,
              sp_gwt2ph := sp_gwt2ph s @ [encode_msg (redirect_core_msg ifaddr s m)]\<rparr>) \<and>
    nid_ok t \<and> nid_ok r \<and> nid_view t = learn (tv_sec (clk 0)) (m_nid m) (m_ip m) (routes s) \<and>
    nid_view r = set_static (m_nid m) 0 (registry s)"
proof -
  let ?s = "s\<lparr>sp_co2gwl := ds, gwl_nmsg := m\<rparr>"
  obtain t where t: "newRTEntry clk (m_nid m) (m_ip m) ?s = Some (?s\<lparr>rtable := t\<rparr>)" "nid_ok t"
      "nid_view t = learn (tv_sec (clk 0)) (m_nid m) (m_ip m) (routes ?s)"
    using newRTEntry_spec [of ?s clk "m_nid m" "m_ip m"] assms(1) by (auto simp: gw_tables_ok_def)
  obtain r where r: "addRegistry (m_nid m) 0 (?s\<lparr>rtable := t\<rparr>) = Some (?s\<lparr>rtable := t, registry_table := r\<rparr>)"
      "nid_ok r" "nid_view r = set_static (m_nid m) 0 (registry (?s\<lparr>rtable := t\<rparr>))"
    using addRegistry_spec [of "?s\<lparr>rtable := t\<rparr>" "m_nid m" 0] assms(1) by (auto simp: gw_tables_ok_def)
  have m: "m\<lparr>m_type := REDIRECT_CORE, m_srcNID := cf_nid s, m_destNID := m_srcNIDgw m,
      m_destNIDgw := m_srcNIDgw m, m_srcNIDgw := cf_nid s, m_ip := ifaddr (cf_primaryIface s)\<rparr>
      = redirect_core_msg ifaddr s m"
    by (cases m) (simp add: redirect_core_msg_def)
  show ?thesis using assms(2) t r m
    by - (rule exI [of _ t], rule exI [of _ r], simp add: thread_gw_core_listener_def codec_simps Let_def)
qed

lemma thread_gw_talker_spec:
  assumes "sp_rvs2gwt s = [] \<and> sp_gwl2gwt s = encode_msg m # ds \<or> sp_rvs2gwt s = encode_msg m # ds"
  shows "\<exists>s' m'. thread_gw_talker ifaddr s = Some s' \<and>
    m' = m\<lparr>m_type := REGISTRY, m_destNID := cf_nidgw s, m_ip := ifaddr (cf_primaryIface s)\<rparr> \<and>
    sp_gwt2ph s' = sp_gwt2ph s @ [encode_msg m'] \<and> registry_table s' = registry_table s \<and> rtable s' = rtable s"
  using assms by (auto simp: thread_gw_talker_def gw_talk_def codec_simps Let_def)

end
