(* ===== verification/DHT.thy ===== *)
theory DHT
  imports Gateway
begin

text \<open>
  The DHT client of \<open>src/src/dhtc.c\<close>: the cache of core gateways' locators, the two threads that
  publish the own locator and resolve identities, and the RPC requests they build. The OpenDHT server
  and the RPC stubs are not in the repository: a request is a value, the server's answer an argument.

  Text and key buffers are byte lists, as \<open>strncpy\<close> leaves the rest of its target in place.

  Shown: the cache as an abstract map with at most one request under way per identity; the key an
  identity is published under is the key it is asked for; the resolver reads the published locator
  back when the identity's text is not longer than the locator's, and otherwise reads the remains of
  the identity's text behind it.
\<close>

record dht_state = gw_state +
  dhtable :: "(NID, conn_entry) hash_table"
  sp_dht :: "byte list list"
  dg_nid :: NID
  dg_nid32 :: NID32
  dg_aux :: "byte list"

section \<open>C strings\<close>

definition bytes_of :: "string \<Rightarrow> byte list" where
  "bytes_of str = map (\<lambda>c. of_nat (of_char c)) str"

definition cstring :: "byte list \<Rightarrow> string" where
  "cstring buf = map (\<lambda>b. char_of (unat b)) (takeWhile (\<lambda>b. b \<noteq> 0) buf)"

text \<open>Writing a text with its terminating zero to the start of a buffer (\<open>inet_ntop\<close>, \<open>sprintf\<close>).\<close>

definition put_string :: "string \<Rightarrow> byte list \<Rightarrow> byte list" where
  "put_string str buf = overlay (bytes_of str @ [0]) buf"

text \<open>
  \<open>strncpy(dst, src, n)\<close> with a source of at least \<open>n\<close> bytes: up to \<open>n\<close> bytes before a zero, padded with
  zeros up to \<open>n\<close>, and no terminating zero behind them. Past the end of the target it is undefined.
\<close>

definition strncpy :: "byte list \<Rightarrow> nat \<Rightarrow> byte list \<Rightarrow> byte list run" where
  "strncpy src n dst =
     (let d = takeWhile (\<lambda>b. b \<noteq> 0) (take n src) in
      if n \<le> length dst then Some (overlay (d @ replicate (n - length d) 0) dst) else None)"

section \<open>Keys and requests\<close>

text \<open>\<open>hash_nid\<close>: the shift-and-xor loop over the characters of a C string (signed \<open>char\<close>).\<close>

definition hash_nid :: "string \<Rightarrow> u32" where
  "hash_nid str = foldl hash_step 0 (map scast (bytes_of str))"

text \<open>\<open>sprintf(key, "%d", h)\<close>\<close>

definition sdec_string :: "u32 \<Rightarrow> string" where
  "sdec_string w =
     (if sint w < 0 then CHR ''-'' # num_string 10 (nat (- sint w)) else num_string 10 (nat (sint w)))"

definition dht_key :: "string \<Rightarrow> byte list" where
  "dht_key str = put_string (sdec_string (hash_nid str)) (replicate 20 0)"

record put_args =
  pa_key :: "byte list"
  pa_value :: "byte list"
  pa_ttl :: int

definition opendhtput :: "string \<Rightarrow> string \<Rightarrow> int \<Rightarrow> put_args" where
  "opendhtput key value ttl = \<lparr>pa_key = dht_key key, pa_value = bytes_of value, pa_ttl = ttl\<rparr>"

abbreviation DHT_TTL :: int where "DHT_TTL \<equiv> 10"
abbreviation DHT_UPDATE :: int where "DHT_UPDATE \<equiv> 8"

section \<open>Table\<close>

definition init_dhtable :: "'a dht_state_scheme \<Rightarrow> 'a dht_state_scheme" where
  "init_dhtable s = s\<lparr>dhtable := construct_hash_table True 30\<rparr>"

definition destroy_dhtable :: "'a dht_state_scheme \<Rightarrow> 'a dht_state_scheme" where
  "destroy_dhtable s = s\<lparr>dhtable := fst (free_hash_table False (dhtable s))\<rparr>"

definition addDHTEntry :: "clock \<Rightarrow> NID \<Rightarrow> NID32 \<Rightarrow> 'a dht_state_scheme \<Rightarrow> 'a dht_state_scheme run" where
  "addDHTEntry clk nid ip s = do {
     (_, t) \<leftarrow> hash_insert True nid \<lparr>ce_ip = ip, ce_tstamp = tv_sec (clk 0)\<rparr> (dhtable s);
     Some (s\<lparr>dhtable := t\<rparr>)
   }"

text \<open>\<open>getDHTEntry\<close> leaves \<open>*dst\<close> alone when it answers 0: the locator is \<open>None\<close> then.\<close>

definition getDHTEntry :: "clock \<Rightarrow> NID \<Rightarrow> 'a dht_state_scheme \<Rightarrow> (NID32 option \<times> 'a dht_state_scheme) run" where
  "getDHTEntry clk nid s = do {
     ce \<leftarrow> hash_lookup nid (dhtable s);
     case (case ce of Some ce \<Rightarrow> if ce_ip ce \<noteq> 0 then Some (ce_ip ce) else None | None \<Rightarrow> None) of
       Some ip \<Rightarrow> Some (Some ip, s)
     | None \<Rightarrow> do {
         (b, s) \<leftarrow> is_dht_queued (clk 0) nid s;
         if \<not> b then do {
           s \<leftarrow> dht_queue (clk 1) nid s;
           Some (None, s\<lparr>sp_dht := sp_dht s @ [nid_bytes nid]\<rparr>)
         }
         else Some (None, s)
       }
   }"

section \<open>Threads\<close>

text \<open>
  One round of \<open>thread_dht_update\<close>: the request it sends when the server can be reached; without a
  server the thread ends. \<open>nid\<close> and \<open>coreIP\<close> are read once, when the thread starts.
\<close>

definition thread_dht_update :: "bool \<Rightarrow> string \<Rightarrow> string \<Rightarrow> put_args option" where
  "thread_dht_update connected nid coreIP =
     (if connected then Some (opendhtput nid coreIP DHT_TTL) else None)"

definition dht_update_start :: "ifaddr \<Rightarrow> 'a conf_scheme \<Rightarrow> string \<times> string" where
  "dht_update_start ifaddr s = (nid2char (getNID s), get_locator ifaddr (getPrimaryIface s))"

text \<open>
  One iteration of \<open>thread_dht_get\<close>. \<open>server\<close> is the client handle: \<open>None\<close> when the connection
  failed (the thread ends and the state is final, flagged \<open>False\<close>), else the answer to a key: \<open>None\<close>
  for a failed call, whose null result the code reads through, or the list of values.
\<close>

type_synonym dht_server = "(byte list \<Rightarrow> byte list list option) option"

definition thread_dht_get ::
  "dht_server \<Rightarrow> clock \<Rightarrow> 'a dht_state_scheme \<Rightarrow> (bool \<times> 'a dht_state_scheme) run" where
  "thread_dht_get server clk s =
     (case sp_dht s of
        [] \<Rightarrow> Some (True, s)
      | d # ds \<Rightarrow>
          (let nid = nid_at 0 (dgram_read 16 d (nid_bytes (dg_nid s)));
               s = s\<lparr>sp_dht := ds, dg_nid := nid\<rparr>
           in case server of
                None \<Rightarrow> Some (False, s)
              | Some get \<Rightarrow> do {
                  let aux = put_string (inet_ntop6 nid) (dg_aux s);
                  values \<leftarrow> get (dht_key (cstring aux));
                  if values = [] then Some (True, s\<lparr>dg_aux := put_string (inet_ntop6 nid) aux\<rparr>)
                  else do {
                    aux \<leftarrow> strncpy (hd values) (length (hd values)) aux;
                    let nid32 = pton4_into (cstring aux) (dg_nid32 s);
                    s \<leftarrow> dht_unqueue nid (s\<lparr>dg_aux := aux, dg_nid32 := nid32\<rparr>);
                    s \<leftarrow> addDHTEntry clk nid nid32 s;
                    Some (True, s)
                  }
                }))"

section \<open>Abstract cache\<close>

abbreviation dht_cache :: "'a dht_state_scheme \<Rightarrow> NID \<Rightarrow> conn_entry option" where
  "dht_cache s \<equiv> nid_view (dhtable s)"

definition dht_ok :: "'a dht_state_scheme \<Rightarrow> bool" where
  "dht_ok s \<longleftrightarrow> nid_ok (dhtable s) \<and> dht_locks_ok s"

lemma addDHTEntry_spec:
  assumes "nid_ok (dhtable s)"
  shows "\<exists>t. addDHTEntry clk nid ip s = Some (s\<lparr>dhtable := t\<rparr>) \<and> nid_ok t \<and>
    nid_view t = (dht_cache s)(nid := Some \<lparr>ce_ip = ip, ce_tstamp = tv_sec (clk 0)\<rparr>)"
  using assms
  by (intro exI [of _ "nid_put nid \<lparr>ce_ip = ip, ce_tstamp = tv_sec (clk 0)\<rparr> (dhtable s)"])
    (simp add: addDHTEntry_def table_simps)

lemma getDHTEntry_hit:
  assumes "dht_ok s" "reg_hit nid (dht_cache s) = Some ip"
  shows "getDHTEntry clk nid s = Some (Some ip, s)"
  using assms by (auto simp: getDHTEntry_def dht_ok_def table_simps reg_hit_def split: option.splits if_splits)

lemma getDHTEntry_miss:
  assumes ok: "dht_ok s" and miss: "reg_hit nid (dht_cache s) = None"
  shows "\<exists>q. getDHTEntry clk nid s = Some (None, s\<lparr>dht_queue_table := q,
      sp_dht := sp_dht s @ (if lock_held (clk 0) nid (dht_locks s) then [] else [nid_bytes nid])\<rparr>) \<and>
    lockt_ok q \<and>
    lockt q = (if lock_held (clk 0) nid (dht_locks s) then dht_locks s else (dht_locks s)(nid := Some (clk 1)))"
proof -
  have "dht_locks_ok s" using ok by (simp add: dht_ok_def)
  then obtain s1 where s1: "is_dht_queued (clk 0) nid s = Some (lock_held (clk 0) nid (dht_locks s), s1)"
      "dht_locks_ok s1" "dht_locks s1 = lock_query (clk 0) nid (dht_locks s)"
    using dhtq.held_spec by blast
  obtain q1 where q1: "s1 = s\<lparr>dht_queue_table := q1\<rparr>" using is_dht_queued_frame [OF s1(1)] by blast
  have run: "getDHTEntry clk nid s = (if \<not> lock_held (clk 0) nid (dht_locks s) then do {
       s \<leftarrow> dht_queue (clk 1) nid s1; Some (None, s\<lparr>sp_dht := sp_dht s @ [nid_bytes nid]\<rparr>)} else Some (None, s1))"
    using ok miss s1(1)
    by (auto simp: getDHTEntry_def dht_ok_def table_simps reg_hit_def split: option.splits if_splits)
  show ?thesis
  proof (cases "lock_held (clk 0) nid (dht_locks s)")
    case True
    then show ?thesis using run s1 q1 by (intro exI [of _ q1]) (simp add: lock_query_def)
  next
    case held: False
    obtain s2 where s2: "dht_queue (clk 1) nid s1 = Some s2" "dht_locks_ok s2"
        "dht_locks s2 = (dht_locks s1)(nid := Some (clk 1))"
      using dhtq.enq_spec [OF s1(2)] by blast
    obtain q2 where "s2 = s1\<lparr>dht_queue_table := q2\<rparr>" using dht_queue_frame [OF s2(1)] by blast
    then show ?thesis using run held s1 s2 q1
      by (intro exI [of _ q2]) (simp add: lock_query_def)
  qed
qed

section \<open>Publishing and resolving\<close>

lemma bytes_of_nz: "no_nul str \<Longrightarrow> b \<in> set (bytes_of str) \<Longrightarrow> b \<noteq> 0"
proof -
  assume "no_nul str" "b \<in> set (bytes_of str)"
  then obtain c where c: "b = of_nat (of_char c)" "of_char c \<noteq> (0 :: nat)"
    by (auto simp: bytes_of_def no_nul_def)
  have "of_char c < (256 :: nat)" by simp
  then have "unat (of_nat (of_char c) :: byte) = of_char c" by (simp add: unat_of_nat)
  then show "b \<noteq> 0" using c by (metis unsigned_0)
qed

lemma char_of_bytes_of: "map (\<lambda>b. char_of (unat b)) (bytes_of str) = str"
proof -
  have "char_of (unat (of_nat (of_char c) :: byte)) = c" for c
  proof -
    have "of_char c < (256 :: nat)" by simp
    then have "unat (of_nat (of_char c) :: byte) = of_char c" by (simp add: unat_of_nat)
    then show ?thesis by simp
  qed
  then show ?thesis by (simp add: bytes_of_def map_idI)
qed

lemma cstring_bytes_of: "no_nul str \<Longrightarrow> cstring (bytes_of str @ 0 # rest) = str"
proof -
  assume "no_nul str"
  then have "takeWhile (\<lambda>b. b \<noteq> 0) (bytes_of str @ 0 # rest) = bytes_of str"
    using bytes_of_nz by (subst takeWhile_append2) auto
  then show ?thesis by (simp add: cstring_def char_of_bytes_of)
qed

lemma cstring_put_string: "no_nul str \<Longrightarrow> cstring (put_string str buf) = str"
  by (simp add: put_string_def overlay_def cstring_bytes_of)

lemma length_bytes_of [simp]: "length (bytes_of str) = length str"
  by (simp add: bytes_of_def)

lemma strncpy_text:
  assumes "no_nul str" "length str \<le> length buf"
  shows "strncpy (bytes_of str) (length (bytes_of str)) buf = Some (bytes_of str @ drop (length str) buf)"
proof -
  have tw: "takeWhile (\<lambda>b. b \<noteq> 0) (take (length (bytes_of str)) (bytes_of str)) = bytes_of str"
    using bytes_of_nz [OF assms(1)] by (simp add: takeWhile_eq_all_conv)
  show ?thesis using assms(2) unfolding strncpy_def Let_def tw by (simp add: overlay_def)
qed

text \<open>
  The buffer of the resolver after the identity's text was written to it: the byte where a text of
  length \<open>n\<close> would need its terminating zero.
\<close>

definition dht_end_byte :: "NID \<Rightarrow> nat \<Rightarrow> byte list \<Rightarrow> byte" where
  "dht_end_byte nid n aux = put_string (inet_ntop6 nid) aux ! n"

lemma thread_dht_get_run:
  assumes ok: "dht_ok s" and d: "sp_dht s = nid_bytes nid # ds"
    and get: "get (dht_key (inet_ntop6 nid)) = Some (bytes_of (inet_ntop4 ip) # vs)"
    and len: "length (inet_ntop4 ip) \<le> length (put_string (inet_ntop6 nid) (dg_aux s))"
  shows "\<exists>s'. thread_dht_get (Some get) clk s = Some (True, s') \<and> dht_ok s' \<and>
    dht_cache s' = (dht_cache s)(nid := Some \<lparr>ce_ip = pton4_into (cstring (bytes_of (inet_ntop4 ip) @
      drop (length (inet_ntop4 ip)) (put_string (inet_ntop6 nid) (dg_aux s)))) (dg_nid32 s), ce_tstamp = tv_sec (clk 0)\<rparr>) \<and>
    dht_locks s' = (dht_locks s)(nid := None)"
proof -
  let ?aux = "put_string (inet_ntop6 nid) (dg_aux s)" and ?n = "length (inet_ntop4 ip)"
  let ?buf = "bytes_of (inet_ntop4 ip) @ drop ?n ?aux"
  let ?ip = "pton4_into (cstring ?buf) (dg_nid32 s)"
  have cpy: "strncpy (bytes_of (inet_ntop4 ip)) (length (bytes_of (inet_ntop4 ip))) ?aux = Some ?buf"
    using strncpy_text [OF inet_ntop4_no_nul len] by simp
  let ?s = "s\<lparr>sp_dht := ds, dg_nid := nid, dg_aux := ?buf, dg_nid32 := ?ip\<rparr>"
  have run: "thread_dht_get (Some get) clk s =
      do {s \<leftarrow> dht_unqueue nid ?s; s \<leftarrow> addDHTEntry clk nid ?ip s; Some (True, s)}"
    using d get cpy
    by (simp add: thread_dht_get_def dgram_read_exact cstring_put_string inet_ntop6_no_nul Let_def)
  obtain s1 where s1: "dht_unqueue nid ?s = Some s1" "dht_locks_ok s1" "dht_locks s1 = (dht_locks ?s)(nid := None)"
    using dhtq.deq_spec [of ?s nid] ok by (auto simp: dht_ok_def)
  obtain q where q: "s1 = ?s\<lparr>dht_queue_table := q\<rparr>" using dht_unqueue_frame [OF s1(1)] by blast
  obtain t where "addDHTEntry clk nid ?ip s1 = Some (s1\<lparr>dhtable := t\<rparr>)" "nid_ok t"
    "nid_view t = (dht_cache s1)(nid := Some \<lparr>ce_ip = ?ip, ce_tstamp = tv_sec (clk 0)\<rparr>)"
    using addDHTEntry_spec [of s1 clk nid ?ip] ok q by (auto simp: dht_ok_def)
  then show ?thesis using run s1 q by (auto simp: dht_ok_def)
qed

lemma thread_dht_get_spec:
  assumes ok: "dht_ok s" and d: "sp_dht s = nid_bytes nid # ds"
    and get: "get (dht_key (inet_ntop6 nid)) = Some (bytes_of (inet_ntop4 ip) # vs)"
    and len: "length (inet_ntop4 ip) < length (dg_aux s)"
    and z: "dht_end_byte nid (length (inet_ntop4 ip)) (dg_aux s) = 0"
  shows "\<exists>s'. thread_dht_get (Some get) clk s = Some (True, s') \<and> dht_ok s' \<and>
    dht_cache s' = (dht_cache s)(nid := Some \<lparr>ce_ip = ip, ce_tstamp = tv_sec (clk 0)\<rparr>) \<and>
    dht_locks s' = (dht_locks s)(nid := None)"
proof -
  let ?aux = "put_string (inet_ntop6 nid) (dg_aux s)" and ?n = "length (inet_ntop4 ip)"
  have n: "?n < length ?aux" using len by (simp add: put_string_def overlay_def)
  then have "drop ?n ?aux = 0 # drop (Suc ?n) ?aux"
    using z by (simp add: dht_end_byte_def Cons_nth_drop_Suc [symmetric])
  then have "pton4_into (cstring (bytes_of (inet_ntop4 ip) @ drop ?n ?aux)) (dg_nid32 s) = ip"
    by (simp add: cstring_bytes_of inet_ntop4_no_nul pton4_into_def inet_pton4_ntop4)
  then show ?thesis using thread_dht_get_run [of s nid ds get ip vs clk, OF ok d get less_imp_le [OF n]] by simp
qed

text \<open>The text the resolver parses when the locator's is not longer than the identity's.\<close>

lemma resolver_text:
  assumes "length (inet_ntop4 ip) \<le> length (inet_ntop6 nid)"
  shows "cstring (bytes_of (inet_ntop4 ip) @ drop (length (inet_ntop4 ip)) (put_string (inet_ntop6 nid) aux))
    = inet_ntop4 ip @ drop (length (inet_ntop4 ip)) (inet_ntop6 nid)"
proof -
  let ?n = "length (inet_ntop4 ip)"
  have "bytes_of (inet_ntop4 ip) @ drop ?n (put_string (inet_ntop6 nid) aux)
      = bytes_of (inet_ntop4 ip @ drop ?n (inet_ntop6 nid)) @ 0 # drop (Suc (length (inet_ntop6 nid))) aux"
    using assms by (simp add: put_string_def overlay_def bytes_of_def drop_map)
  moreover have "no_nul (inet_ntop4 ip @ drop ?n (inet_ntop6 nid))"
    using inet_ntop4_no_nul [of ip] inet_ntop6_no_nul [of nid] by (auto simp: no_nul_def dest: in_set_dropD)
  ultimately show ?thesis by (simp only: cstring_bytes_of)
qed

text \<open>A text as long as the locator's leaves its own zero in the right place.\<close>

lemma dht_end_byte_same:
  "dht_end_byte nid (length (inet_ntop6 nid)) aux = 0"
  by (simp add: dht_end_byte_def put_string_def overlay_def nth_append)

text \<open>A longer one leaves one of its characters there.\<close>

lemma dht_end_byte_longer:
  assumes "n < length (inet_ntop6 nid)"
  shows "dht_end_byte nid n aux \<noteq> 0"
proof -
  have "dht_end_byte nid n aux = bytes_of (inet_ntop6 nid) ! n"
    using assms by (simp add: dht_end_byte_def put_string_def overlay_def nth_append)
  moreover have "bytes_of (inet_ntop6 nid) ! n \<in> set (bytes_of (inet_ntop6 nid))"
    using assms by simp
  ultimately show ?thesis using bytes_of_nz [OF inet_ntop6_no_nul] by metis
qed

end
