(* ===== verification/NID_Routing.thy ===== *)
theory NID_Routing
  imports DHT
begin

text \<open>
  The routing threads of \<open>src/src/nid_routing.c\<close>: output on a node, a gateway and a core gateway,
  input on a node and on a gateway. A thread is the function of one iteration; its packet buffer
  (\<open>MAXBUFLEN\<close> bytes, never cleared) is part of the state. Packets handed to \<open>sendto\<close> are collected,
  with the locator they go to, in \<open>net_out\<close>; a packet from the network arrives as an argument of
  the input threads, with the locator it came from. Failing system calls are not modelled.

  Shown: packets are passed on unchanged; the locator each kind of output sends to; which packets
  the input threads deliver, route or drop, and what they learn from them.
\<close>

abbreviation MAXBUFLEN :: nat where "MAXBUFLEN \<equiv> 1500"

record nr_state = dht_state +
  sp_ph2nr :: "byte list list"
  sp_nr2ph :: "byte list list"
  sp_nr :: "byte list list"
  nro_buf :: "byte list"
  nri_buf :: "byte list"
  net_out :: "(NID32 \<times> byte list) list"

section \<open>Output\<close>

text \<open>\<open>recv_bytes = read(fd, buf, MAXBUFLEN)\<close>, and the bytes a later \<open>sendto\<close> or \<open>write\<close> of \<open>recv_bytes\<close> takes.\<close>

definition nr_read :: "byte list \<Rightarrow> byte list \<Rightarrow> byte list" where
  "nr_read d buf = dgram_read MAXBUFLEN d buf"

definition nr_data :: "byte list \<Rightarrow> byte list \<Rightarrow> byte list" where
  "nr_data d buf = take (min MAXBUFLEN (length d)) (nr_read d buf)"

definition nr_sendto :: "NID32 \<Rightarrow> byte list \<Rightarrow> 'a nr_state_scheme \<Rightarrow> 'a nr_state_scheme" where
  "nr_sendto peer data s = s\<lparr>net_out := net_out s @ [(peer, data)]\<rparr>"

definition thread_nr_output :: "clock \<Rightarrow> 'a nr_state_scheme \<Rightarrow> 'a nr_state_scheme run" where
  "thread_nr_output clk s =
     (case sp_ph2nr s of
        [] \<Rightarrow> Some s
      | d # ds \<Rightarrow> do {
          let buf = nr_read d (nro_buf s);
          let nh = decode_header buf;
          (_, peer, s) \<leftarrow> getCMEntry clk (h_destNID nh) (s\<lparr>sp_ph2nr := ds, nro_buf := buf\<rparr>);
          Some (nr_sendto peer (nr_data d buf) s)
        })"

text \<open>The locator of an own packet: the connection mapper's, or after a miss the routing table's.\<close>

definition gw_choose :: "clock \<Rightarrow> NID_header \<Rightarrow> bool \<times> NID32 \<times> 'a nr_state_scheme \<Rightarrow>
    (NID32 \<times> 'a nr_state_scheme) run" where
  "gw_choose clk nh = (\<lambda>(hit, peer, s).
     if \<not> hit then do {
       (_, peer, s) \<leftarrow> getRTEntry clk (h_destNID nh) s;
       Some (peer, s)
     }
     else Some (peer, s))"

definition thread_nr_output_gw :: "clock \<Rightarrow> clock \<Rightarrow> 'a nr_state_scheme \<Rightarrow> 'a nr_state_scheme run" where
  "thread_nr_output_gw clk clk' s =
     (case sp_ph2nr s of
        d # ds \<Rightarrow> do {
          let buf = nr_read d (nro_buf s);
          let nh = decode_header buf;
          r \<leftarrow> getCMEntry clk (h_destNID nh) (s\<lparr>sp_ph2nr := ds, nro_buf := buf\<rparr>);
          (peer, s) \<leftarrow> gw_choose clk' nh r;
          Some (nr_sendto peer (nr_data d buf) s)
        }
      | [] \<Rightarrow>
          (case sp_nr s of
             d # ds \<Rightarrow> do {
               let buf = nr_read d (nro_buf s);
               let nh = decode_header buf;
               (_, peer, s) \<leftarrow> getRTEntry clk' (h_destNID nh) (s\<lparr>sp_nr := ds, nro_buf := buf\<rparr>);
               Some (nr_sendto peer (nr_data d buf) s)
             }
           | [] \<Rightarrow> Some s))"

text \<open>
  The cascade of a core gateway behind the connection mapper: routing table, registry, DHT. \<open>None\<close>
  as the locator is the \<open>continue\<close> of the loop: the packet is dropped.
\<close>

definition core_route ::
  "clock \<Rightarrow> clock \<Rightarrow> NID_header \<Rightarrow> 'a nr_state_scheme \<Rightarrow> (NID32 option \<times> 'a nr_state_scheme) run" where
  "core_route clk clk' nh s = do {
     (hit, peer, s) \<leftarrow> getRTEntry clk (h_destNID nh) s;
     if hit then Some (Some peer, s)
     else do {
       (hit, peer) \<leftarrow> getRegistry (h_destNID nh) s;
       if hit then Some (Some peer, s) else getDHTEntry clk' (h_destNIDgw nh) s
     }
   }"

definition core_choose :: "clock \<Rightarrow> clock \<Rightarrow> NID_header \<Rightarrow> bool \<times> NID32 \<times> 'a nr_state_scheme \<Rightarrow>
    (NID32 option \<times> 'a nr_state_scheme) run" where
  "core_choose clk clk' nh = (\<lambda>(hit, peer, s). if hit then Some (Some peer, s) else core_route clk clk' nh s)"

definition core_send :: "byte list \<Rightarrow> NID32 option \<times> 'a nr_state_scheme \<Rightarrow> 'a nr_state_scheme" where
  "core_send data = (\<lambda>(peer, s). case peer of None \<Rightarrow> s | Some peer \<Rightarrow> nr_sendto peer data s)"

definition thread_nr_output_core ::
  "clock \<Rightarrow> clock \<Rightarrow> clock \<Rightarrow> 'a nr_state_scheme \<Rightarrow> 'a nr_state_scheme run" where
  "thread_nr_output_core clk clk1 clk2 s =
     (case sp_ph2nr s of
        d # ds \<Rightarrow> do {
          let buf = nr_read d (nro_buf s);
          let nh = decode_header buf;
          r \<leftarrow> getCMEntry clk (h_destNID nh) (s\<lparr>sp_ph2nr := ds, nro_buf := buf\<rparr>);
          r \<leftarrow> core_choose clk1 clk2 nh r;
          Some (core_send (nr_data d buf) r)
        }
      | [] \<Rightarrow>
          (case sp_nr s of
             d # ds \<Rightarrow> do {
               let buf = nr_read d (nro_buf s);
               let nh = decode_header buf;
               r \<leftarrow> core_route clk1 clk2 nh (s\<lparr>sp_nr := ds, nro_buf := buf\<rparr>);
               Some (core_send (nr_data d buf) r)
             }
           | [] \<Rightarrow> Some s))"

section \<open>Input\<close>

definition thread_nr_input ::
  "clock \<Rightarrow> NID32 \<Rightarrow> byte list \<Rightarrow> 'a nr_state_scheme \<Rightarrow> 'a nr_state_scheme run" where
  "thread_nr_input clk recv_addr d s = do {
     let buf = nr_read d (nri_buf s);
     let nh = decode_header buf;
     let s = s\<lparr>nri_buf := buf\<rparr>;
     if h_destNID nh = getNID s then do {
       s \<leftarrow> newCMEntry clk (h_srcNID nh) recv_addr s;
       Some (s\<lparr>sp_nr2ph := sp_nr2ph s @ [nr_data d buf]\<rparr>)
     }
     else Some s
   }"

definition thread_nr_input_gw ::
  "clock \<Rightarrow> NID32 \<Rightarrow> byte list \<Rightarrow> 'a nr_state_scheme \<Rightarrow> 'a nr_state_scheme run" where
  "thread_nr_input_gw clk recv_addr d s = do {
     let buf = nr_read d (nri_buf s);
     let nh = decode_header buf;
     let s = s\<lparr>nri_buf := buf\<rparr>;
     if h_destNID nh = getNID s then do {
       s \<leftarrow> newCMEntry clk (h_srcNID nh) recv_addr s;
       Some (s\<lparr>sp_nr2ph := sp_nr2ph s @ [nr_data d buf]\<rparr>)
     }
     else Some (s\<lparr>sp_nr := sp_nr s @ [nr_data d buf]\<rparr>)
   }"

section \<open>What the threads do\<close>

text \<open>The bytes passed on are those of the datagram, up to the size of the buffer.\<close>

lemma nr_data_eq [simp]: "nr_data d (nr_read d' buf) = take MAXBUFLEN d" if "d' = d"
  using that by (auto simp: nr_data_def nr_read_def dgram_read_def overlay_def min_def)

lemma nr_header [simp]: "nh_len \<le> length d \<Longrightarrow> decode_header (nr_read d buf) = decode_header d"
  by (simp add: nr_read_def codec_simps)

text \<open>The tables the threads work on.\<close>

definition nr_ok :: "'a nr_state_scheme \<Rightarrow> bool" where
  "nr_ok s \<longleftrightarrow> cm_ok s \<and> gw_tables_ok s \<and> dht_ok s"

lemmas nr_ok_defs = nr_ok_def cm_ok_def gw_tables_ok_def dht_ok_def

lemma thread_nr_output_spec:
  assumes "cm_ok s" "sp_ph2nr s = d # ds" "nh_len \<le> length d"
  shows "\<exists>q t r. thread_nr_output clk s = Some (s\<lparr>queue_table := q, connmap := t, sp_cm2rvs := r,
      sp_ph2nr := ds, nro_buf := nr_read d (nro_buf s),
      net_out := net_out s @ [(cm_locator clk (h_destNID (decode_header d)) s, take MAXBUFLEN d)]\<rparr>) \<and>
    nid_ok t \<and> lockt_ok q"
proof -
  let ?s = "s\<lparr>sp_ph2nr := ds, nro_buf := nr_read d (nro_buf s)\<rparr>" and ?n = "h_destNID (decode_header d)"
  obtain q t r where "getCMEntry clk ?n ?s = Some (cm_hit clk ?n (conns s), cm_locator clk ?n s,
      ?s\<lparr>queue_table := q, connmap := t, sp_cm2rvs := r\<rparr>)" "nid_ok t" "lockt_ok q"
    using getCMEntry_answer [of ?s clk ?n] assms(1) by (auto simp: cm_ok_def cm_locator_def)
  then show ?thesis using assms(2,3)
    by - (rule exI [of _ q], rule exI [of _ t], rule exI [of _ r],
        simp add: thread_nr_output_def nr_sendto_def Let_def)
qed

lemma thread_nr_input_spec:
  assumes "nid_ok (connmap s)" "nh_len \<le> length d"
  shows "\<exists>t. thread_nr_input clk src d s = Some
      (if h_destNID (decode_header d) = cf_nid s
       then s\<lparr>connmap := t, nri_buf := nr_read d (nri_buf s), sp_nr2ph := sp_nr2ph s @ [take MAXBUFLEN d]\<rparr>
       else s\<lparr>nri_buf := nr_read d (nri_buf s)\<rparr>) \<and> nid_ok t \<and>
    nid_view t = learn (tv_sec (clk 0)) (h_srcNID (decode_header d)) src (conns s)"
proof -
  let ?s = "s\<lparr>nri_buf := nr_read d (nri_buf s)\<rparr>"
  obtain t where "newCMEntry clk (h_srcNID (decode_header d)) src ?s = Some (?s\<lparr>connmap := t\<rparr>)" "nid_ok t"
      "nid_view t = learn (tv_sec (clk 0)) (h_srcNID (decode_header d)) src (conns ?s)"
    using newCMEntry_spec [of ?s clk "h_srcNID (decode_header d)" src] assms(1) by auto
  then show ?thesis using assms(2)
    by (intro exI [of _ t]) (simp add: thread_nr_input_def Let_def)
qed

lemma thread_nr_input_gw_spec:
  assumes "nid_ok (connmap s)" "nh_len \<le> length d"
  shows "\<exists>t. thread_nr_input_gw clk src d s = Some
      (if h_destNID (decode_header d) = cf_nid s
       then s\<lparr>connmap := t, nri_buf := nr_read d (nri_buf s), sp_nr2ph := sp_nr2ph s @ [take MAXBUFLEN d]\<rparr>
       else s\<lparr>nri_buf := nr_read d (nri_buf s), sp_nr := sp_nr s @ [take MAXBUFLEN d]\<rparr>) \<and> nid_ok t \<and>
    nid_view t = learn (tv_sec (clk 0)) (h_srcNID (decode_header d)) src (conns s)"
proof -
  let ?s = "s\<lparr>nri_buf := nr_read d (nri_buf s)\<rparr>"
  obtain t where "newCMEntry clk (h_srcNID (decode_header d)) src ?s = Some (?s\<lparr>connmap := t\<rparr>)" "nid_ok t"
      "nid_view t = learn (tv_sec (clk 0)) (h_srcNID (decode_header d)) src (conns ?s)"
    using newCMEntry_spec [of ?s clk "h_srcNID (decode_header d)" src] assms(1) by auto
  then show ?thesis using assms(2)
    by (intro exI [of _ t]) (simp add: thread_nr_input_gw_def Let_def)
qed

subsection \<open>Gateways\<close>

lemma thread_nr_output_gw_route:
  assumes "nid_ok (rtable s)" "sp_ph2nr s = []" "sp_nr s = d # ds" "nh_len \<le> length d"
  shows "\<exists>t. thread_nr_output_gw clk clk' s = Some (s\<lparr>rtable := t, sp_nr := ds, nro_buf := nr_read d (nro_buf s),
      net_out := net_out s @ [(rt_locator clk' (h_destNID (decode_header d)) s, take MAXBUFLEN d)]\<rparr>) \<and> nid_ok t"
proof -
  let ?s = "s\<lparr>sp_nr := ds, nro_buf := nr_read d (nro_buf s)\<rparr>" and ?n = "h_destNID (decode_header d)"
  obtain t where "getRTEntry clk' ?n ?s = Some (route_hit (tv_sec (clk' 0)) ?n (routes s) \<noteq> None,
      rt_locator clk' ?n s, ?s\<lparr>rtable := t\<rparr>)" "nid_ok t"
    using getRTEntry_answer [of ?s clk' ?n] assms(1) by (auto simp: rt_locator_def cong: option.case_cong)
  then show ?thesis using assms
    by - (rule exI [of _ t], simp add: thread_nr_output_gw_def nr_sendto_def Let_def)
qed

lemma thread_nr_output_gw_own:
  assumes "nr_ok s" "sp_ph2nr s = d # ds" "nh_len \<le> length d"
  shows "\<exists>q t r t'. thread_nr_output_gw clk clk' s = Some (s\<lparr>queue_table := q, connmap := t, sp_cm2rvs := r,
      rtable := t', sp_ph2nr := ds, nro_buf := nr_read d (nro_buf s),
      net_out := net_out s @ [(if cm_hit clk (h_destNID (decode_header d)) (conns s)
          then cm_locator clk (h_destNID (decode_header d)) s
          else rt_locator clk' (h_destNID (decode_header d)) s, take MAXBUFLEN d)]\<rparr>) \<and>
    nid_ok t \<and> lockt_ok q \<and> nid_ok t'"
proof -
  let ?s = "s\<lparr>sp_ph2nr := ds, nro_buf := nr_read d (nro_buf s)\<rparr>" and ?n = "h_destNID (decode_header d)"
  obtain q t r where cm: "getCMEntry clk ?n ?s = Some (cm_hit clk ?n (conns s), cm_locator clk ?n s,
      ?s\<lparr>queue_table := q, connmap := t, sp_cm2rvs := r\<rparr>)" "nid_ok t" "lockt_ok q"
    using getCMEntry_answer [of ?s clk ?n] assms(1) by (auto simp: nr_ok_defs cm_locator_def)
  let ?s1 = "?s\<lparr>queue_table := q, connmap := t, sp_cm2rvs := r\<rparr>"
  obtain t' where rt: "getRTEntry clk' ?n ?s1 = Some (route_hit (tv_sec (clk' 0)) ?n (routes s) \<noteq> None,
      rt_locator clk' ?n s, ?s1\<lparr>rtable := t'\<rparr>)" "nid_ok t'"
    using getRTEntry_answer [of ?s1 clk' ?n] assms(1) by (auto simp: rt_locator_def nr_ok_defs cong: option.case_cong)
  let ?t' = "if cm_hit clk ?n (conns s) then rtable s else t'"
  have "nid_ok ?t'" using rt(2) assms(1) by (simp add: nr_ok_defs)
  then show ?thesis using assms(2,3) cm rt
    by - (rule exI [of _ q], rule exI [of _ t], rule exI [of _ r], rule exI [of _ ?t'],
        simp add: thread_nr_output_gw_def gw_choose_def nr_sendto_def Let_def)
qed

text \<open>The cascade of a core gateway.\<close>

definition core_locator :: "clock \<Rightarrow> NID_header \<Rightarrow> 'a nr_state_scheme \<Rightarrow> NID32 option" where
  "core_locator clk nh s =
     (case route_hit (tv_sec (clk 0)) (h_destNID nh) (routes s) of
        Some ip \<Rightarrow> Some ip
      | None \<Rightarrow>
          (case reg_hit (h_destNID nh) (registry s) of
             Some ip \<Rightarrow> Some ip
           | None \<Rightarrow> reg_hit (h_destNIDgw nh) (dht_cache s)))"

lemma getDHTEntry_answer:
  assumes "dht_ok s"
  shows "\<exists>q r. getDHTEntry clk nid s = Some (reg_hit nid (dht_cache s), s\<lparr>dht_queue_table := q, sp_dht := r\<rparr>) \<and>
    lockt_ok q"
proof (cases "reg_hit nid (dht_cache s)")
  case None
  then show ?thesis using getDHTEntry_miss [OF assms None, of clk] by auto
next
  case (Some ip)
  then show ?thesis using getDHTEntry_hit [OF assms Some] assms
    by - (rule exI [of _ "dht_queue_table s"], rule exI [of _ "sp_dht s"], simp add: dht_ok_def)
qed

lemma core_route_spec:
  assumes "nr_ok s"
  shows "\<exists>t q r. core_route clk clk' nh s = Some (core_locator clk nh s,
      s\<lparr>rtable := t, dht_queue_table := q, sp_dht := r\<rparr>) \<and> nid_ok t \<and> lockt_ok q"
proof -
  let ?hit = "route_hit (tv_sec (clk 0)) (h_destNID nh) (routes s)"
  obtain t where t: "getRTEntry clk (h_destNID nh) s = Some (?hit \<noteq> None,
      case ?hit of Some ip \<Rightarrow> ip | None \<Rightarrow> rt_gatewayIP s, s\<lparr>rtable := t\<rparr>)" "nid_ok t"
    using getRTEntry_spec [of s clk "h_destNID nh"] assms by (auto simp: nr_ok_defs)
  let ?s = "s\<lparr>rtable := t\<rparr>"
  have reg: "getRegistry (h_destNID nh) ?s = Some (case reg_hit (h_destNID nh) (registry s) of
      Some ip \<Rightarrow> (True, ip) | None \<Rightarrow> (False, 0))"
    using getRegistry_spec [of ?s "h_destNID nh"] assms by (simp add: nr_ok_defs)
  obtain q r where dht: "getDHTEntry clk' (h_destNIDgw nh) ?s =
      Some (reg_hit (h_destNIDgw nh) (dht_cache s), ?s\<lparr>dht_queue_table := q, sp_dht := r\<rparr>)" "lockt_ok q"
    using getDHTEntry_answer [of ?s clk' "h_destNIDgw nh"] assms by (auto simp: nr_ok_defs)
  have locks: "lockt_ok (dht_queue_table s)" using assms by (simp add: nr_ok_defs)
  consider (hit) ip where "?hit = Some ip"
    | (reg) ip where "?hit = None" "reg_hit (h_destNID nh) (registry s) = Some ip"
    | (dht) "?hit = None" "reg_hit (h_destNID nh) (registry s) = None"
    by (cases ?hit; cases "reg_hit (h_destNID nh) (registry s)") auto
  then show ?thesis
  proof cases
    case hit
    then show ?thesis using t locks
      by - (rule exI [of _ t], rule exI [of _ "dht_queue_table s"], rule exI [of _ "sp_dht s"],
          simp add: core_route_def core_locator_def)
  next
    case reg
    then show ?thesis using t locks \<open>getRegistry _ _ = _\<close>
      by - (rule exI [of _ t], rule exI [of _ "dht_queue_table s"], rule exI [of _ "sp_dht s"],
          simp add: core_route_def core_locator_def)
  next
    case dht
    then show ?thesis using t reg \<open>lockt_ok q\<close> \<open>getDHTEntry _ _ _ = _\<close>
      by - (rule exI [of _ t], rule exI [of _ q], rule exI [of _ r], simp add: core_route_def core_locator_def)
  qed
qed

lemma thread_nr_output_core_route:
  assumes "nr_ok s" "sp_ph2nr s = []" "sp_nr s = d # ds" "nh_len \<le> length d"
  shows "\<exists>s'. thread_nr_output_core clk clk1 clk2 s = Some s' \<and> nr_ok s' \<and> sp_nr s' = ds \<and>
    net_out s' = net_out s @ (case core_locator clk1 (decode_header d) s of
        Some ip \<Rightarrow> [(ip, take MAXBUFLEN d)] | None \<Rightarrow> [])"
proof -
  let ?s = "s\<lparr>sp_nr := ds, nro_buf := nr_read d (nro_buf s)\<rparr>"
  have "nr_ok ?s" using assms(1) by (simp add: nr_ok_defs)
  then obtain t q r where c: "core_route clk1 clk2 (decode_header d) ?s = Some (core_locator clk1 (decode_header d) s,
      ?s\<lparr>rtable := t, dht_queue_table := q, sp_dht := r\<rparr>)" "nid_ok t" "lockt_ok q"
    using core_route_spec [of ?s clk1 clk2 "decode_header d"]
    by (auto simp: core_locator_def cong: option.case_cong)
  then show ?thesis using assms
    by (cases "core_locator clk1 (decode_header d) s")
      (simp_all add: thread_nr_output_core_def core_send_def nr_sendto_def Let_def nr_ok_defs)
qed

lemma thread_nr_output_core_own:
  assumes "nr_ok s" "sp_ph2nr s = d # ds" "nh_len \<le> length d"
  shows "\<exists>s'. thread_nr_output_core clk clk1 clk2 s = Some s' \<and> nr_ok s' \<and> sp_ph2nr s' = ds \<and>
    net_out s' = net_out s @ (case (if cm_hit clk (h_destNID (decode_header d)) (conns s)
          then Some (cm_locator clk (h_destNID (decode_header d)) s)
          else core_locator clk1 (decode_header d) s) of
        Some ip \<Rightarrow> [(ip, take MAXBUFLEN d)] | None \<Rightarrow> [])"
proof -
  let ?s = "s\<lparr>sp_ph2nr := ds, nro_buf := nr_read d (nro_buf s)\<rparr>" and ?n = "h_destNID (decode_header d)"
  obtain q t r where cm: "getCMEntry clk ?n ?s = Some (cm_hit clk ?n (conns s), cm_locator clk ?n s,
      ?s\<lparr>queue_table := q, connmap := t, sp_cm2rvs := r\<rparr>)" "nid_ok t" "lockt_ok q"
    using getCMEntry_answer [of ?s clk ?n] assms(1) by (auto simp: nr_ok_defs cm_locator_def)
  let ?s1 = "?s\<lparr>queue_table := q, connmap := t, sp_cm2rvs := r\<rparr>"
  have ok: "nr_ok ?s1" using assms(1) cm by (simp add: nr_ok_defs)
  then obtain t' q' r' where c: "core_route clk1 clk2 (decode_header d) ?s1 = Some (core_locator clk1 (decode_header d) s,
      ?s1\<lparr>rtable := t', dht_queue_table := q', sp_dht := r'\<rparr>)" "nid_ok t'" "lockt_ok q'"
    using core_route_spec [of ?s1 clk1 clk2 "decode_header d"]
    by (auto simp: core_locator_def cong: option.case_cong)
  show ?thesis
  proof (cases "cm_hit clk ?n (conns s)")
    case True
    then show ?thesis using assms(2,3) cm ok
      by (simp add: thread_nr_output_core_def core_choose_def core_send_def nr_sendto_def Let_def nr_ok_defs)
  next
    case False
    then show ?thesis using assms(2,3) cm c ok
      by (cases "core_locator clk1 (decode_header d) s")
        (simp_all add: thread_nr_output_core_def core_choose_def core_send_def nr_sendto_def Let_def nr_ok_defs)
  qed
qed

end
