(* ===== verification/Packet_Handler.thy ===== *)
theory Packet_Handler
  imports NID_Routing
begin

text \<open>
  The packet filter of \<open>src/src/nidfilter.c\<close> and the packet handler of \<open>packetHandler.c\<close>: output puts
  the identity header in front of the applications' IP packets and of the control messages, input
  takes it off and hands the rest to the raw sockets or to the control thread.

  The static buffer of the output thread is kept as the header at its front and the payload behind
  it; the input thread's buffer as its bytes. Neither is cleared between packets. The raw sockets are
  the kernel's: \<open>raw_ok\<close> says which packets \<open>sendto\<close> takes; a negative length it never takes. A failed
  send ends the process. Packets handed to a raw socket are collected in \<open>raw_out\<close>.

  Shown: the header every outgoing packet gets, which fields are left over from an earlier packet,
  the round trip of a data packet through two nodes, and that a datagram shorter than the header is
  taken for the packet before it.
\<close>

record ph_state = nr_state +
  sp_nf2ph :: "byte list list"
  sp_rvs2ph :: "byte list list"
  sp_mo2ph :: "byte list list"
  sp_ph2co :: "byte list list"
  ph_nidcore :: NID
  pho_nh :: NID_header
  pho_pt :: "byte list"
  phi_buf :: "byte list"
  raw_out :: "(byte \<times> byte list) list"

section \<open>Packet filter\<close>

text \<open>\<open>ip->tot_len\<close>, \<open>ip->protocol\<close> and \<open>ip->daddr\<close> of the IPv4 header at the start of a buffer.\<close>

definition ip_tot_len :: "byte list \<Rightarrow> nat" where
  "ip_tot_len p = unat (be_word (take 2 (drop 2 p)) :: u16)"

definition ip_protocol :: "byte list \<Rightarrow> byte" where
  "ip_protocol p = p ! 9"

definition ip_daddr :: "byte list \<Rightarrow> NID32" where
  "ip_daddr p = nid32_at 16 p"

text \<open>
  One round of \<open>thread_nidfilter\<close> for a packet message (other messages are skipped): the queue
  library's payload goes to the packet handler, as long as the packet says it is; the original is
  dropped. A length past the captured bytes reads outside the buffer.
\<close>

definition thread_nidfilter :: "byte list \<Rightarrow> 'a ph_state_scheme \<Rightarrow> 'a ph_state_scheme run" where
  "thread_nidfilter ip s =
     (if ip_tot_len ip \<le> length ip
      then Some (s\<lparr>sp_nf2ph := sp_nf2ph s @ [take (ip_tot_len ip) ip]\<rparr>) else None)"

section \<open>Output\<close>

abbreviation ph_size :: nat where "ph_size \<equiv> 1432"

definition ph_output_start :: "'a ph_state_scheme \<Rightarrow> 'a ph_state_scheme" where
  "ph_output_start s = s\<lparr>ph_nidcore := getNIDcore s, pho_nh := (pho_nh s)\<lparr>h_srcNID := getNID s\<rparr>\<rparr>"

text \<open>\<open>read(fd, pt, size)\<close>, and \<open>write(sp_ph2nr[1], buf, recv_bytes + nh_len)\<close>.\<close>

definition ph_read :: "byte list \<Rightarrow> 'a ph_state_scheme \<Rightarrow> 'a ph_state_scheme" where
  "ph_read d s = s\<lparr>pho_pt := dgram_read ph_size d (pho_pt s)\<rparr>"

definition ph_write :: "byte list \<Rightarrow> NID_header \<Rightarrow> 'a ph_state_scheme \<Rightarrow> 'a ph_state_scheme" where
  "ph_write d nh s = s\<lparr>pho_nh := nh,
     sp_ph2nr := sp_ph2nr s @ [encode_header nh @ take (min ph_size (length d)) (pho_pt s)]\<rparr>"

definition ph_from_filter :: "byte list \<Rightarrow> 'a ph_state_scheme \<Rightarrow> 'a ph_state_scheme run" where
  "ph_from_filter d s = do {
     let s = ph_read d s;
     nm_pt \<leftarrow> getNMEntry32 (ip_daddr (pho_pt s)) s;
     case nm_pt of
       Some nm_pt \<Rightarrow>
         Some (ph_write d ((pho_nh s)\<lparr>h_type := DATA, h_srcNIDgw := ph_nidcore s,
                 h_destNID := nm32_nid nm_pt, h_destNIDgw := nm32_nidgw nm_pt\<rparr>) s)
     | None \<Rightarrow> Some s
   }"

text \<open>The branches of the rendez-vous and the mobility threads are the same code.\<close>

definition ph_from_msg :: "byte list \<Rightarrow> 'a ph_state_scheme \<Rightarrow> 'a ph_state_scheme" where
  "ph_from_msg d s =
     (let s = ph_read d s;
          nmsg = decode_msg (pho_pt s)
      in ph_write d ((pho_nh s)\<lparr>h_type := m_type nmsg, h_srcNID := m_srcNID nmsg,
           h_destNID := m_destNID nmsg\<rparr>) s)"

definition ph_from_gwt :: "byte list \<Rightarrow> 'a ph_state_scheme \<Rightarrow> 'a ph_state_scheme" where
  "ph_from_gwt d s =
     (let s = ph_read d s;
          nmsg = decode_msg (pho_pt s)
      in ph_write d \<lparr>h_type = m_type nmsg, h_srcNID = m_srcNID nmsg, h_destNID = m_destNID nmsg,
           h_srcNIDgw = m_srcNIDgw nmsg, h_destNIDgw = m_destNIDgw nmsg\<rparr> s)"

definition thread_ph_output :: "'a ph_state_scheme \<Rightarrow> 'a ph_state_scheme run" where
  "thread_ph_output s =
     (case sp_nf2ph s of
        d # ds \<Rightarrow> ph_from_filter d (s\<lparr>sp_nf2ph := ds\<rparr>)
      | [] \<Rightarrow>
          (case sp_rvs2ph s of
             d # ds \<Rightarrow> Some (ph_from_msg d (s\<lparr>sp_rvs2ph := ds\<rparr>))
           | [] \<Rightarrow>
               (case sp_mo2ph s of
                  d # ds \<Rightarrow> Some (ph_from_msg d (s\<lparr>sp_mo2ph := ds\<rparr>))
                | [] \<Rightarrow>
                    (case sp_gwt2ph s of
                       d # ds \<Rightarrow> Some (ph_from_gwt d (s\<lparr>sp_gwt2ph := ds\<rparr>))
                     | [] \<Rightarrow> Some s))))"

section \<open>Input\<close>

abbreviation IPPROTO_ICMP :: byte where "IPPROTO_ICMP \<equiv> 1"
abbreviation IPPROTO_TCP :: byte where "IPPROTO_TCP \<equiv> 6"
abbreviation IPPROTO_UDP :: byte where "IPPROTO_UDP \<equiv> 17"

text \<open>
  \<open>recv_bytes - nh_len\<close> bytes from \<open>pt\<close>: \<open>None\<close> for a negative number, which a system call
  reads as a length near its maximum and refuses.
\<close>

definition ph_payload :: "byte list \<Rightarrow> byte list \<Rightarrow> byte list option" where
  "ph_payload d buf =
     (if min MAXBUFLEN (length d) < nh_len then None
      else Some (take (min MAXBUFLEN (length d) - nh_len) (drop nh_len buf)))"

definition raw_sendto ::
  "(byte \<Rightarrow> byte list \<Rightarrow> bool) \<Rightarrow> byte \<Rightarrow> byte list option \<Rightarrow> 'a ph_state_scheme \<Rightarrow> 'a ph_state_scheme run" where
  "raw_sendto raw_ok proto data s =
     (case data of
        None \<Rightarrow> None
      | Some p \<Rightarrow> if raw_ok proto p then Some (s\<lparr>raw_out := raw_out s @ [(proto, p)]\<rparr>) else None)"

definition ph_deliver ::
  "(byte \<Rightarrow> byte list \<Rightarrow> bool) \<Rightarrow> byte list \<Rightarrow> 'a ph_state_scheme \<Rightarrow> 'a ph_state_scheme run" where
  "ph_deliver raw_ok d s =
     (let nh = decode_header (phi_buf s);
          proto = ip_protocol (drop nh_len (phi_buf s));
          data = ph_payload d (phi_buf s)
      in if h_type nh = DATA then
           (if proto = IPPROTO_TCP \<or> proto = IPPROTO_UDP \<or> proto = IPPROTO_ICMP
            then raw_sendto raw_ok proto data s else Some s)
         else if h_type nh \<in> {REDIRECT, REGISTRY, REDIRECT_CORE, RVS_UPDATE, RVS_ACK, RVS_GET, RVS_RESPONSE}
         then Some (case data of None \<Rightarrow> s | Some p \<Rightarrow> s\<lparr>sp_ph2co := sp_ph2co s @ [p]\<rparr>)
         else Some s)"

definition thread_ph_input ::
  "(byte \<Rightarrow> byte list \<Rightarrow> bool) \<Rightarrow> 'a ph_state_scheme \<Rightarrow> 'a ph_state_scheme run" where
  "thread_ph_input raw_ok s =
     (case sp_nr2ph s of
        [] \<Rightarrow> Some s
      | d # ds \<Rightarrow> do {
          let buf = dgram_read MAXBUFLEN d (phi_buf s);
          let nh = decode_header buf;
          s \<leftarrow> newNMEntry (h_srcNID nh) (h_srcNIDgw nh) (s\<lparr>sp_nr2ph := ds, phi_buf := buf\<rparr>);
          ph_deliver raw_ok d s
        })"

definition updatePH :: "'a ph_state_scheme \<Rightarrow> 'a ph_state_scheme" where
  "updatePH s = s\<lparr>ph_nidcore := getNIDcore s\<rparr>"

section \<open>What the threads do\<close>

lemma ph_write_data:
  assumes "length d \<le> ph_size"
  shows "sp_ph2nr (ph_write d nh (ph_read d s)) = sp_ph2nr s @ [encode_header nh @ d]"
  using assms by (simp add: ph_write_def ph_read_def dgram_read_def overlay_def)

lemma ip_daddr_read:
  assumes "20 \<le> length d"
  shows "ip_daddr (dgram_read ph_size d buf) = ip_daddr d"
  using assms by (simp add: ip_daddr_def dgram_read_def nid32_at_def take_drop take_overlay)

text \<open>An application's packet: the header is built from the entry of its destination address.\<close>

definition data_header :: "'a ph_state_scheme \<Rightarrow> NID \<times> NID \<Rightarrow> NID_header" where
  "data_header s = (\<lambda>(nid, gw). \<lparr>h_type = DATA, h_srcNID = h_srcNID (pho_nh s), h_destNID = nid,
     h_srcNIDgw = ph_nidcore s, h_destNIDgw = gw\<rparr>)"

lemma ph_from_filter_spec:
  assumes "nid32_ok (nid32Table s)" "20 \<le> length d" "length d \<le> ph_size"
  shows "\<exists>s'. ph_from_filter d s = Some s' \<and>
    sp_ph2nr s' = sp_ph2nr s @ (case nm_pair s (ip_daddr d) of
        None \<Rightarrow> [] | Some p \<Rightarrow> [encode_header (data_header s p) @ d]) \<and>
    h_srcNID (pho_nh s') = h_srcNID (pho_nh s)"
proof (cases "nid32_view (nid32Table s) (ip_daddr d)")
  case None
  then show ?thesis using assms
    by (simp add: ph_from_filter_def ph_read_def ip_daddr_read getNMEntry32_def table_simps nm_pair_def)
next
  case (Some e)
  have h: "(pho_nh s)\<lparr>h_type := DATA, h_srcNIDgw := ph_nidcore s, h_destNID := nm32_nid e,
      h_destNIDgw := nm32_nidgw e\<rparr> = data_header s (nm32_nid e, nm32_nidgw e)"
    by (cases "pho_nh s") (simp add: data_header_def)
  have "ph_from_filter d s = Some (ph_write d (data_header s (nm32_nid e, nm32_nidgw e)) (ph_read d s))"
    using assms Some h
    by (simp add: ph_from_filter_def ph_read_def ip_daddr_read getNMEntry32_def table_simps)
  then show ?thesis using Some assms(3)
    by (simp add: ph_write_data nm_pair_def ph_write_def data_header_def ph_read_def)
qed

text \<open>A control message of the rendez-vous or mobility thread keeps the gateway fields of the last packet.\<close>

lemma ph_from_msg_spec:
  "sp_ph2nr (ph_from_msg (encode_msg m) s) = sp_ph2nr s @
     [encode_header ((pho_nh s)\<lparr>h_type := m_type m, h_srcNID := m_srcNID m, h_destNID := m_destNID m\<rparr>)
        @ encode_msg m]"
  "h_srcNID (pho_nh (ph_from_msg (encode_msg m) s)) = m_srcNID m"
proof -
  have "decode_msg (pho_pt (ph_read (encode_msg m) s)) = m"
    by (simp add: ph_read_def codec_simps)
  then show "sp_ph2nr (ph_from_msg (encode_msg m) s) = sp_ph2nr s @
     [encode_header ((pho_nh s)\<lparr>h_type := m_type m, h_srcNID := m_srcNID m, h_destNID := m_destNID m\<rparr>)
        @ encode_msg m]"
    "h_srcNID (pho_nh (ph_from_msg (encode_msg m) s)) = m_srcNID m"
    by (simp_all add: ph_from_msg_def ph_write_data Let_def) (simp_all add: ph_write_def ph_read_def)
qed

definition msg_header :: "NID_msg \<Rightarrow> NID_header" where
  "msg_header m = \<lparr>h_type = m_type m, h_srcNID = m_srcNID m, h_destNID = m_destNID m,
     h_srcNIDgw = m_srcNIDgw m, h_destNIDgw = m_destNIDgw m\<rparr>"

lemma ph_from_gwt_spec:
  "sp_ph2nr (ph_from_gwt (encode_msg m) s) = sp_ph2nr s @ [encode_header (msg_header m) @ encode_msg m]"
  "h_srcNID (pho_nh (ph_from_gwt (encode_msg m) s)) = m_srcNID m"
proof -
  have "decode_msg (pho_pt (ph_read (encode_msg m) s)) = m"
    by (simp add: ph_read_def codec_simps)
  then show "sp_ph2nr (ph_from_gwt (encode_msg m) s) = sp_ph2nr s @ [encode_header (msg_header m) @ encode_msg m]"
    "h_srcNID (pho_nh (ph_from_gwt (encode_msg m) s)) = m_srcNID m"
    by (simp_all add: ph_from_gwt_def ph_write_data Let_def msg_header_def) (simp add: ph_write_def)
qed

subsection \<open>Input\<close>

lemma phi_read:
  assumes "length p \<le> ph_size"
  shows "decode_header (dgram_read MAXBUFLEN (encode_header h @ p) buf) = h"
    "ph_payload (encode_header h @ p) (dgram_read MAXBUFLEN (encode_header h @ p) buf) = Some p"
    "10 \<le> length p \<Longrightarrow>
     ip_protocol (drop nh_len (dgram_read MAXBUFLEN (encode_header h @ p) buf)) = ip_protocol p"
proof -
  have r: "dgram_read MAXBUFLEN (encode_header h @ p) buf = encode_header h @ p @ drop (nh_len + length p) buf"
    using assms by (simp add: dgram_read_def overlay_def)
  show "decode_header (dgram_read MAXBUFLEN (encode_header h @ p) buf) = h"
    by (simp add: r codec_simps)
  show "ph_payload (encode_header h @ p) (dgram_read MAXBUFLEN (encode_header h @ p) buf) = Some p"
    using assms by (simp add: r ph_payload_def)
  show "ip_protocol (drop nh_len (dgram_read MAXBUFLEN (encode_header h @ p) buf)) = ip_protocol p"
    if "10 \<le> length p"
    using that by (simp add: r ip_protocol_def nth_append)
qed

text \<open>
  An input iteration learns the sender's gateway and then delivers: the state is the one after
  learning, with the packet handed on. \<open>ph_learnt\<close> is the state in between.
\<close>

definition ph_learnt :: "NID_header \<Rightarrow> byte list \<Rightarrow> byte list list \<Rightarrow> (NID, NMEntry) hash_table \<Rightarrow>
    (NID32, NMEntry32) hash_table \<Rightarrow> 'a ph_state_scheme \<Rightarrow> 'a ph_state_scheme" where
  "ph_learnt h p ds t t32 s = s\<lparr>sp_nr2ph := ds,
     phi_buf := dgram_read MAXBUFLEN (encode_header h @ p) (phi_buf s), nidTable := t, nid32Table := t32\<rparr>"

definition ph_learns :: "NID_header \<Rightarrow> 'a ph_state_scheme \<Rightarrow> 'b ph_state_scheme \<Rightarrow> bool" where
  "ph_learns h s s' \<longleftrightarrow> nm_ok s' \<and> nm_gw s' = (nm_gw s)(h_srcNID h := Some (h_srcNIDgw h)) \<and>
     nm_pair s' = (nm_pair s)(nid2nid32 (h_srcNID h) := Some (h_srcNID h, h_srcNIDgw h))"

lemma thread_ph_input_learn:
  assumes "nm_ok s" "sp_nr2ph s = (encode_header h @ p) # ds" "length p \<le> ph_size"
  shows "\<exists>t t32. thread_ph_input raw_ok s = ph_deliver raw_ok (encode_header h @ p) (ph_learnt h p ds t t32 s) \<and>
    ph_learns h s (ph_learnt h p ds t t32 s)"
proof -
  let ?s = "s\<lparr>sp_nr2ph := ds, phi_buf := dgram_read MAXBUFLEN (encode_header h @ p) (phi_buf s)\<rparr>"
  have "nm_ok ?s" using assms(1) by (simp add: nm_ok_def nm_tables_ok_def nm_gw_def nm_pair_def)
  from newNMEntry_ok [OF this, of "h_srcNID h" "h_srcNIDgw h"] obtain t t32 where
    "newNMEntry (h_srcNID h) (h_srcNIDgw h) ?s = Some (?s\<lparr>nidTable := t, nid32Table := t32\<rparr>)"
    "nm_ok (?s\<lparr>nidTable := t, nid32Table := t32\<rparr>)"
    "nm_gw (?s\<lparr>nidTable := t, nid32Table := t32\<rparr>) = (nm_gw ?s)(h_srcNID h := Some (h_srcNIDgw h))"
    "nm_pair (?s\<lparr>nidTable := t, nid32Table := t32\<rparr>)
       = (nm_pair ?s)(nid2nid32 (h_srcNID h) := Some (h_srcNID h, h_srcNIDgw h))"
    by blast
  then show ?thesis using assms(2,3)
    by - (rule exI [of _ t], rule exI [of _ t32],
        simp add: thread_ph_input_def phi_read nm_gw_def nm_pair_def ph_learnt_def ph_learns_def)
qed

definition ip_proto_known :: "byte list \<Rightarrow> bool" where
  "ip_proto_known p \<longleftrightarrow> ip_protocol p \<in> {IPPROTO_TCP, IPPROTO_UDP, IPPROTO_ICMP}"

lemma ph_learns_frame [simp]:
  "ph_learns h s (s'\<lparr>raw_out := x\<rparr>) = ph_learns h s s'" "ph_learns h s (s'\<lparr>sp_ph2co := y\<rparr>) = ph_learns h s s'"
  by (simp_all add: ph_learns_def nm_ok_def nm_tables_ok_def nm_gw_def nm_pair_def)

lemma thread_ph_input_data:
  assumes "nm_ok s" "sp_nr2ph s = (encode_header h @ p) # ds" "length p \<le> ph_size" "h_type h = DATA"
    "10 \<le> length p" "ip_proto_known p"
  shows "if raw_ok (ip_protocol p) p
    then \<exists>t t32. let s' = (ph_learnt h p ds t t32 s)\<lparr>raw_out := raw_out s @ [(ip_protocol p, p)]\<rparr>
      in thread_ph_input raw_ok s = Some s' \<and> ph_learns h s s'
    else thread_ph_input raw_ok s = None"
proof -
  from thread_ph_input_learn [OF assms(1-3), of raw_ok] obtain t t32 where s1:
    "thread_ph_input raw_ok s = ph_deliver raw_ok (encode_header h @ p) (ph_learnt h p ds t t32 s)"
    "ph_learns h s (ph_learnt h p ds t t32 s)" by blast
  have "ph_deliver raw_ok (encode_header h @ p) (ph_learnt h p ds t t32 s)
      = (if raw_ok (ip_protocol p) p
         then Some ((ph_learnt h p ds t t32 s)\<lparr>raw_out := raw_out s @ [(ip_protocol p, p)]\<rparr>) else None)"
    using assms(3-6)
    by (auto simp: ph_deliver_def phi_read ip_proto_known_def raw_sendto_def ph_learnt_def Let_def)
  then show ?thesis using s1
    by - (cases "raw_ok (ip_protocol p) p", simp_all, rule exI [of _ t], rule exI [of _ t32], simp)
qed

definition control_type :: "u32 \<Rightarrow> bool" where
  "control_type ty \<longleftrightarrow> ty \<in> {REDIRECT, REGISTRY, REDIRECT_CORE, RVS_UPDATE, RVS_ACK, RVS_GET, RVS_RESPONSE}"

lemma thread_ph_input_control:
  assumes "nm_ok s" "sp_nr2ph s = (encode_header h @ p) # ds" "length p \<le> ph_size" "h_type h \<noteq> DATA"
  shows "\<exists>t t32. let s' = (ph_learnt h p ds t t32 s)\<lparr>sp_ph2co := sp_ph2co s @ (if control_type (h_type h) then [p] else [])\<rparr>
      in thread_ph_input raw_ok s = Some s' \<and> ph_learns h s s'"
proof -
  from thread_ph_input_learn [OF assms(1-3), of raw_ok] obtain t t32 where s1:
    "thread_ph_input raw_ok s = ph_deliver raw_ok (encode_header h @ p) (ph_learnt h p ds t t32 s)"
    "ph_learns h s (ph_learnt h p ds t t32 s)" by blast
  have "ph_deliver raw_ok (encode_header h @ p) (ph_learnt h p ds t t32 s)
      = Some ((ph_learnt h p ds t t32 s)\<lparr>sp_ph2co := sp_ph2co s @ (if control_type (h_type h) then [p] else [])\<rparr>)"
    using assms(3,4) by (auto simp: ph_deliver_def phi_read control_type_def ph_learnt_def Let_def)
  then show ?thesis using s1 by - (rule exI [of _ t], rule exI [of _ t32], simp)
qed

text \<open>
  A datagram shorter than the header after a data packet: the header of the data packet is still
  in the buffer, the length to send is negative, and the process ends.
\<close>

lemma thread_ph_input_short:
  assumes "sp_nr2ph s = d # ds" "d = []" "h_type (decode_header (phi_buf s)) = DATA"
    "ip_proto_known (drop nh_len (phi_buf s))"
  shows "thread_ph_input raw_ok s = None"
proof -
  have "dgram_read MAXBUFLEN d (phi_buf s) = phi_buf s"
    using assms(2) by (simp add: dgram_read_def overlay_def)
  moreover have "ph_deliver raw_ok d s1 = None" if "phi_buf s1 = phi_buf s" for s1 :: "'a ph_state_scheme"
    using that assms by (auto simp: ph_deliver_def ip_proto_known_def ph_payload_def raw_sendto_def Let_def)
  moreover have "phi_buf s' = phi_buf s1" if "newNMEntry a b s1 = Some s'" for a b and s1 s' :: "'a ph_state_scheme"
    using that by (auto simp: newNMEntry_def newNMEntry32_def bind_eq_Some_conv split: option.splits)
  ultimately show ?thesis using assms(1)
    by (cases "newNMEntry (h_srcNID (decode_header (phi_buf s))) (h_srcNIDgw (decode_header (phi_buf s)))
        (s\<lparr>sp_nr2ph := ds\<rparr>)") (auto simp: thread_ph_input_def)
qed

end
