(* ===== verification/Rendezvous.thy ===== *)
theory Rendezvous
  imports Packet_Handler
begin

text \<open>
  The rendez-vous service: the server program of \<open>src/src/rvs.c\<close> (its table of identities and
  locators and its request loop) and the client threads of \<open>rvsc.c\<close> in the daemon. A thread is the
  function of one iteration; local message variables are part of the state. Messages to the
  server's port are collected in \<open>rvs_out\<close>.

  Shown: the server's table as a map whose entries live for \<open>RVS_TIMEOUT\<close> seconds; what the server
  answers to every request; an update followed by a query answers the locator while it is fresh; the
  proxies swap source and destination and the acknowledgements go to the gateway as well.
\<close>

section \<open>The server\<close>

record rvs_state =
  rvs_table :: "(NID, conn_entry) hash_table"
  rvs_buf :: "byte list"

abbreviation RVS_MAXBUFLEN :: nat where "RVS_MAXBUFLEN \<equiv> 256"

definition init_rvs_table :: "rvs_state \<Rightarrow> rvs_state" where
  "init_rvs_table v = v\<lparr>rvs_table := construct_hash_table True 100\<rparr>"

definition destroy_rvs_table :: "rvs_state \<Rightarrow> rvs_state" where
  "destroy_rvs_table v = v\<lparr>rvs_table := fst (free_hash_table False (rvs_table v))\<rparr>"

definition addEntry :: "time \<Rightarrow> NID \<Rightarrow> NID32 \<Rightarrow> rvs_state \<Rightarrow> (bool \<times> rvs_state) run" where
  "addEntry now nid ip v = do {
     (r, t) \<leftarrow> hash_insert True nid \<lparr>ce_ip = ip, ce_tstamp = now\<rparr> (rvs_table v);
     Some (r \<noteq> None, v\<lparr>rvs_table := t\<rparr>)
   }"

definition getEntry :: "time \<Rightarrow> NID \<Rightarrow> rvs_state \<Rightarrow> (NID32 \<times> rvs_state) run" where
  "getEntry now nid v = do {
     ce \<leftarrow> hash_lookup nid (rvs_table v);
     case ce of
       Some ce \<Rightarrow>
         if ce_tstamp ce + RVS_TIMEOUT > now then Some (ce_ip ce, v)
         else do {
           (_, t) \<leftarrow> hash_del nid (rvs_table v);
           Some (0, v\<lparr>rvs_table := t\<rparr>)
         }
     | None \<Rightarrow> Some (0, v)
   }"

text \<open>
  One round of the server: a datagram (at most 255 bytes of it) is read over the buffer, answered in
  place, and as many bytes as were read go back to the sender.
\<close>

definition rvs_main :: "time \<Rightarrow> byte list \<Rightarrow> rvs_state \<Rightarrow> (byte list \<times> rvs_state) run" where
  "rvs_main now d v = do {
     let numbytes = min (RVS_MAXBUFLEN - 1) (length d);
     let buf = dgram_read (RVS_MAXBUFLEN - 1) d (rvs_buf v);
     let rvs_msg = decode_msg buf;
     (rvs_msg, v) \<leftarrow>
       (if m_type rvs_msg = RVS_UPDATE then do {
          (_, v) \<leftarrow> addEntry now (m_nid rvs_msg) (m_ip rvs_msg) v;
          Some (rvs_msg\<lparr>m_type := RVS_ACK\<rparr>, v)
        }
        else if m_type rvs_msg = RVS_GET then do {
          (ip, v) \<leftarrow> getEntry now (m_nid rvs_msg) v;
          Some (rvs_msg\<lparr>m_ip := ip, m_type := RVS_RESPONSE\<rparr>, v)
        }
        else Some (rvs_msg, v));
     let buf = overlay (encode_msg rvs_msg) buf;
     Some (take numbytes buf, v\<lparr>rvs_buf := buf\<rparr>)
   }"

section \<open>The client threads\<close>

record rvsc_state = ph_state +
  sp_co2rvs :: "byte list list"
  rvs_out :: "byte list list"
  rps_nmsg :: NID_msg
  rpr_rvs_msg :: NID_msg
  rvsu_nmsg :: NID_msg
  rvsg_nmsg :: NID_msg
  rvs2gw_nmsg :: NID_msg

definition zero_msg :: NID_msg where
  "zero_msg = \<lparr>m_type = 0, m_srcNID = 0, m_destNID = 0, m_srcNIDgw = 0, m_destNIDgw = 0, m_nid = 0, m_ip = 0\<rparr>"

definition thread_rvs_proxy_send :: "'a rvsc_state_scheme \<Rightarrow> 'a rvsc_state_scheme run" where
  "thread_rvs_proxy_send s =
     (case sp_co2rvs s of
        [] \<Rightarrow> Some s
      | d # ds \<Rightarrow>
          (let nmsg = recv_msg d (rps_nmsg s);
               rvs_msg = \<lparr>m_type = m_type nmsg, m_srcNID = m_srcNID nmsg, m_destNID = m_destNID nmsg,
                 m_srcNIDgw = m_srcNIDgw nmsg, m_destNIDgw = m_destNIDgw nmsg, m_nid = m_nid nmsg,
                 m_ip = m_ip nmsg\<rparr>
           in Some (s\<lparr>sp_co2rvs := ds, rps_nmsg := nmsg, rvs_out := rvs_out s @ [encode_msg rvs_msg]\<rparr>)))"

text \<open>\<open>d\<close> is the datagram from the server.\<close>

definition thread_rvs_proxy_recv :: "byte list \<Rightarrow> 'a rvsc_state_scheme \<Rightarrow> 'a rvsc_state_scheme run" where
  "thread_rvs_proxy_recv d s =
     (let rvs_msg = recv_msg d (rpr_rvs_msg s);
          nmsg = \<lparr>m_type = m_type rvs_msg, m_srcNID = m_destNID rvs_msg, m_destNID = m_srcNID rvs_msg,
            m_srcNIDgw = m_srcNIDgw rvs_msg, m_destNIDgw = m_destNIDgw rvs_msg, m_nid = m_nid rvs_msg,
            m_ip = m_ip rvs_msg\<rparr>;
          s = s\<lparr>rpr_rvs_msg := rvs_msg, sp_rvs2ph := sp_rvs2ph s @ [encode_msg nmsg]\<rparr>
      in Some (if m_type nmsg = RVS_ACK then s\<lparr>sp_rvs2gwt := sp_rvs2gwt s @ [encode_msg nmsg]\<rparr> else s))"

definition rvs_update_start :: "'a rvsc_state_scheme \<Rightarrow> 'a rvsc_state_scheme" where
  "rvs_update_start s = s\<lparr>rvsu_nmsg := zero_msg\<lparr>m_type := RVS_UPDATE, m_srcNID := getNID s,
     m_nid := getNID s, m_srcNIDgw := getNIDcorehome s\<rparr>\<rparr>"

definition thread_rvs_update :: "ifaddr \<Rightarrow> 'a rvsc_state_scheme \<Rightarrow> 'a rvsc_state_scheme run" where
  "thread_rvs_update ifaddr s =
     (let nmsg = (rvsu_nmsg s)\<lparr>m_destNID := getNIDrvs s, m_ip := own_locator ifaddr s (m_ip (rvsu_nmsg s))\<rparr>
      in Some (s\<lparr>rvsu_nmsg := nmsg, sp_rvs2ph := sp_rvs2ph s @ [encode_msg nmsg]\<rparr>))"

definition rvs_get_start :: "'a rvsc_state_scheme \<Rightarrow> 'a rvsc_state_scheme" where
  "rvs_get_start s = s\<lparr>rvsg_nmsg := zero_msg\<lparr>m_type := RVS_GET, m_srcNID := getNID s, m_destNID := getNIDrvs s\<rparr>\<rparr>"

text \<open>
  \<open>read(sp_cm2rvs[0], &nmsg.nid, nmsg_len)\<close> asks for 88 bytes at offset 68 of the 88 bytes of the
  variable: a datagram of more than 20 bytes is written past its end.
\<close>

definition thread_rvs_get :: "'a rvsc_state_scheme \<Rightarrow> 'a rvsc_state_scheme run" where
  "thread_rvs_get s =
     (case sp_cm2rvs s of
        [] \<Rightarrow> Some s
      | d # ds \<Rightarrow>
          if length d \<le> nmsg_len - nh_len then
            (let bytes = encode_msg (rvsg_nmsg s);
                 nmsg = decode_msg (take nh_len bytes @ overlay d (drop nh_len bytes));
                 nmsg = nmsg\<lparr>m_destNID := getNIDrvs s\<rparr>
             in Some (s\<lparr>sp_cm2rvs := ds, rvsg_nmsg := nmsg, sp_rvs2ph := sp_rvs2ph s @ [encode_msg nmsg]\<rparr>))
          else None)"

definition thread_rvs2gw :: "'a rvsc_state_scheme \<Rightarrow> 'a rvsc_state_scheme run" where
  "thread_rvs2gw s =
     (case sp_rvs2gwt s of
        [] \<Rightarrow> Some s
      | d # ds \<Rightarrow>
          (let nmsg = (recv_msg d (rvs2gw_nmsg s))\<lparr>m_type := REGISTRY, m_destNID := getNIDgw s\<rparr>
           in Some (s\<lparr>sp_rvs2gwt := ds, rvs2gw_nmsg := nmsg, sp_gwt2ph := sp_gwt2ph s @ [encode_msg nmsg]\<rparr>)))"

section \<open>The server's table\<close>

definition rvs_ok :: "rvs_state \<Rightarrow> bool" where
  "rvs_ok v \<longleftrightarrow> nid_ok (rvs_table v)"

abbreviation rvs_map :: "rvs_state \<Rightarrow> NID \<Rightarrow> conn_entry option" where
  "rvs_map v \<equiv> nid_view (rvs_table v)"

definition rvs_fresh :: "time \<Rightarrow> NID \<Rightarrow> (NID \<Rightarrow> conn_entry option) \<Rightarrow> bool" where
  "rvs_fresh now nid m \<longleftrightarrow> (case m nid of None \<Rightarrow> False | Some ce \<Rightarrow> now < ce_tstamp ce + RVS_TIMEOUT)"

text \<open>The locator the server knows for an identity at a time; 0 is the answer without one.\<close>

definition rvs_answer :: "time \<Rightarrow> NID \<Rightarrow> (NID \<Rightarrow> conn_entry option) \<Rightarrow> NID32" where
  "rvs_answer now nid m = (if rvs_fresh now nid m then ce_ip (the (m nid)) else 0)"

lemma init_rvs_table_ok: "rvs_ok (init_rvs_table v)" "rvs_map (init_rvs_table v) = (\<lambda>_. None)"
  by (simp_all add: rvs_ok_def init_rvs_table_def nidt.ok_construct nidt.view_construct)

lemma addEntry_spec:
  assumes "rvs_ok v"
  shows "\<exists>t. addEntry now nid ip v = Some (True, v\<lparr>rvs_table := t\<rparr>) \<and> nid_ok t \<and>
    nid_view t = (rvs_map v)(nid := Some \<lparr>ce_ip = ip, ce_tstamp = now\<rparr>)"
  using assms
  by (intro exI [of _ "nid_put nid \<lparr>ce_ip = ip, ce_tstamp = now\<rparr> (rvs_table v)"])
    (simp add: addEntry_def rvs_ok_def table_simps)

lemma getEntry_spec:
  assumes "rvs_ok v"
  shows "\<exists>t. getEntry now nid v = Some (rvs_answer now nid (rvs_map v), v\<lparr>rvs_table := t\<rparr>) \<and> nid_ok t \<and>
    nid_view t = (if rvs_fresh now nid (rvs_map v) then rvs_map v else (rvs_map v)(nid := None))"
proof (cases "rvs_fresh now nid (rvs_map v) \<or> rvs_map v nid = None")
  case True
  then show ?thesis using assms
    by (intro exI [of _ "rvs_table v"])
      (auto simp: getEntry_def rvs_ok_def table_simps rvs_answer_def rvs_fresh_def fun_upd_idem split: option.splits)
next
  case False
  then show ?thesis using assms
    by (intro exI [of _ "nid_drop nid (rvs_table v)"])
      (auto simp: getEntry_def rvs_ok_def table_simps rvs_answer_def rvs_fresh_def split: option.splits)
qed

text \<open>The answer to each kind of request, and its effect on the table.\<close>

definition rvs_reply :: "time \<Rightarrow> NID_msg \<Rightarrow> (NID \<Rightarrow> conn_entry option) \<Rightarrow> NID_msg" where
  "rvs_reply now m M =
     (if m_type m = RVS_UPDATE then m\<lparr>m_type := RVS_ACK\<rparr>
      else if m_type m = RVS_GET then m\<lparr>m_ip := rvs_answer now (m_nid m) M, m_type := RVS_RESPONSE\<rparr>
      else m)"

definition rvs_next :: "time \<Rightarrow> NID_msg \<Rightarrow> (NID \<Rightarrow> conn_entry option) \<Rightarrow> NID \<Rightarrow> conn_entry option" where
  "rvs_next now m M =
     (if m_type m = RVS_UPDATE then M(m_nid m := Some \<lparr>ce_ip = m_ip m, ce_tstamp = now\<rparr>)
      else if m_type m = RVS_GET \<and> \<not> rvs_fresh now (m_nid m) M then M(m_nid m := None)
      else M)"

lemma rvs_main_spec:
  assumes "rvs_ok v"
  shows "\<exists>v'. rvs_main now (encode_msg m) v = Some (encode_msg (rvs_reply now m (rvs_map v)), v') \<and>
    rvs_ok v' \<and> rvs_map v' = rvs_next now m (rvs_map v)"
proof -
  have dec: "decode_msg (dgram_read (RVS_MAXBUFLEN - 1) (encode_msg m) (rvs_buf v)) = m"
    by (simp add: codec_simps)
  have out: "take nmsg_len (overlay (encode_msg m') buf) = encode_msg m'" for m' buf
    by (simp add: overlay_def)
  consider "m_type m = RVS_UPDATE" | "m_type m = RVS_GET" | "m_type m \<noteq> RVS_UPDATE" "m_type m \<noteq> RVS_GET"
    by blast
  then show ?thesis
  proof cases
    case 1
    obtain t where "addEntry now (m_nid m) (m_ip m) v = Some (True, v\<lparr>rvs_table := t\<rparr>)" "nid_ok t"
        "nid_view t = (rvs_map v)(m_nid m := Some \<lparr>ce_ip = m_ip m, ce_tstamp = now\<rparr>)"
      using addEntry_spec [OF assms] by blast
    then show ?thesis using 1 dec out by (simp add: rvs_main_def Let_def rvs_reply_def rvs_next_def rvs_ok_def)
  next
    case 2
    obtain t where "getEntry now (m_nid m) v = Some (rvs_answer now (m_nid m) (rvs_map v), v\<lparr>rvs_table := t\<rparr>)"
        "nid_ok t" "nid_view t = (if rvs_fresh now (m_nid m) (rvs_map v) then rvs_map v
          else (rvs_map v)(m_nid m := None))"
      using getEntry_spec [OF assms] by blast
    then show ?thesis using 2 dec out by (simp add: rvs_main_def Let_def rvs_reply_def rvs_next_def rvs_ok_def)
  next
    case 3
    then show ?thesis using assms dec out by (simp add: rvs_main_def Let_def rvs_reply_def rvs_next_def rvs_ok_def)
  qed
qed

section \<open>The client threads\<close>

lemma thread_rvs_get_spec:
  assumes "sp_cm2rvs s = nid_bytes nid # ds"
  shows "thread_rvs_get s = Some (s\<lparr>sp_cm2rvs := ds,
      rvsg_nmsg := (rvsg_nmsg s)\<lparr>m_nid := nid, m_destNID := cf_nidrvs s\<rparr>,
      sp_rvs2ph := sp_rvs2ph s @ [encode_msg ((rvsg_nmsg s)\<lparr>m_nid := nid, m_destNID := cf_nidrvs s\<rparr>)]\<rparr>)"
proof -
  let ?m = "rvsg_nmsg s"
  have "take nh_len (encode_msg ?m) @ overlay (nid_bytes nid) (drop nh_len (encode_msg ?m))
      = encode_msg (?m\<lparr>m_nid := nid\<rparr>)"
    by (simp add: encode_msg_def overlay_def)
  then show ?thesis using assms by (simp add: thread_rvs_get_def codec_simps Let_def)
qed

lemma thread_rvs_proxy_send_spec:
  assumes "sp_co2rvs s = encode_msg m # ds"
  shows "thread_rvs_proxy_send s = Some (s\<lparr>sp_co2rvs := ds, rps_nmsg := m, rvs_out := rvs_out s @ [encode_msg m]\<rparr>)"
  using assms by (cases m) (simp add: thread_rvs_proxy_send_def codec_simps Let_def)

definition swap_ends :: "NID_msg \<Rightarrow> NID_msg" where
  "swap_ends m = m\<lparr>m_srcNID := m_destNID m, m_destNID := m_srcNID m\<rparr>"

lemma thread_rvs_proxy_recv_spec:
  "thread_rvs_proxy_recv (encode_msg m) s = Some (s\<lparr>rpr_rvs_msg := m,
     sp_rvs2ph := sp_rvs2ph s @ [encode_msg (swap_ends m)],
     sp_rvs2gwt := sp_rvs2gwt s @ (if m_type m = RVS_ACK then [encode_msg (swap_ends m)] else [])\<rparr>)"
  by (cases m) (simp add: thread_rvs_proxy_recv_def codec_simps swap_ends_def Let_def)

end
