(* ===== verification/Mobility.thy ===== *)
theory Mobility
  imports Control
begin

text \<open>
  Mobility: the thread of \<open>src/src/mobility.c\<close>, which tells the correspondents of a node its new
  locator when an interface address changes, and the thread of \<open>dhcp.c\<close> with \<open>set_conf_dhcp\<close> of
  \<open>configuration.c\<close>, which take a new configuration from the DHCP client. The netlink event and
  the DHCP client's text are arguments; \<open>ifaddr\<close> is the kernel's table of interface addresses.

  Shown: a node acts on every second address event; in the same domain every live correspondent is sent
  the new locator, in another domain none; the connection table is rebuilt around the configured
  servers and the rendez-vous server is updated. A DHCP text sets exactly the fields whose
  token is an address, and the mobility kind by the gateway's identity.
\<close>

record mo_state = co_state +
  mo_count :: int

section \<open>mobility.c\<close>

definition rvs_update :: "ifaddr \<Rightarrow> 'a mo_state_scheme \<Rightarrow> 'a mo_state_scheme" where
  "rvs_update ifaddr s =
     (let nmsg = zero_msg\<lparr>m_type := RVS_UPDATE, m_srcNID := getNID s, m_nid := getNID s,
            m_destNID := getNIDrvs s\<rparr>;
          nmsg = nmsg\<lparr>m_ip := own_locator ifaddr s (m_ip nmsg)\<rparr>
      in s\<lparr>sp_rvs2ph := sp_rvs2ph s @ [encode_msg nmsg]\<rparr>)"

text \<open>The loop over the correspondents; the message variable is handed from one to the next.\<close>

fun redirect_all :: "ifaddr \<Rightarrow> NID_msg \<Rightarrow> ll_node list \<Rightarrow> 'a mo_state_scheme \<Rightarrow> 'a mo_state_scheme" where
  "redirect_all ifaddr nmsg [] s = s"
| "redirect_all ifaddr nmsg (lpt # nxt) s =
     (let nmsg = nmsg\<lparr>m_destNID := ln_nid lpt, m_ip := own_locator ifaddr s (m_ip nmsg)\<rparr>
      in redirect_all ifaddr nmsg nxt (s\<lparr>sp_mo2ph := sp_mo2ph s @ [encode_msg nmsg]\<rparr>))"

text \<open>
  One iteration of \<open>thread_mobility\<close> on a netlink message, \<open>newaddr\<close> if it is an \<open>RTM_NEWADDR\<close>.
  \<open>clk\<close>, \<open>clk1\<close> and \<open>clk2\<close> are the clock readings of the three enumerations.
\<close>

definition thread_mobility ::
  "ifaddr \<Rightarrow> clock \<Rightarrow> clock \<Rightarrow> clock \<Rightarrow> bool \<Rightarrow> 'a mo_state_scheme \<Rightarrow> 'a mo_state_scheme run" where
  "thread_mobility ifaddr clk clk1 clk2 newaddr s =
     (if newaddr then
        (let s = s\<lparr>mo_count := mo_count s + 1\<rparr> in
         if mo_count s \<ge> 2 then do {
           let nmsg = zero_msg\<lparr>m_srcNID := getNID s, m_nid := getNID s\<rparr>;
           let ll = getAllConnections clk s;
           let s = (if get_mobility s = INTRADOMAIN
                    then redirect_all ifaddr (nmsg\<lparr>m_type := REDIRECT\<rparr>) (ll_next ll) s else s);
           s \<leftarrow> updateCMconf clk1 clk2 s;
           Some (rvs_update ifaddr (s\<lparr>mo_count := 0\<rparr>))
         } else Some s)
      else Some s)"

section \<open>dhcp.c and set\_conf\_dhcp\<close>

text \<open>\<open>strtok\<close> with the delimiter \<open>|\<close>: the successive tokens of a text; \<open>None\<close> after the last.\<close>

fun strtok_bar :: "string \<Rightarrow> string \<Rightarrow> string list" where
  "strtok_bar cur [] = (if cur = [] then [] else [rev cur])"
| "strtok_bar cur (c # cs) =
     (if c = CHR ''|'' then (if cur = [] then strtok_bar [] cs else rev cur # strtok_bar [] cs)
      else strtok_bar (c # cur) cs)"

definition nth_token :: "nat \<Rightarrow> string list \<Rightarrow> string option" where
  "nth_token i toks = (if i < length toks then Some (toks ! i) else None)"

definition tok6 :: "nat \<Rightarrow> string list \<Rightarrow> NID \<Rightarrow> NID" where
  "tok6 i toks old = (case nth_token i toks of Some t \<Rightarrow> pton6_into t old | None \<Rightarrow> old)"

definition tok4 :: "nat \<Rightarrow> string list \<Rightarrow> NID32 \<Rightarrow> NID32" where
  "tok4 i toks old = (case nth_token i toks of Some t \<Rightarrow> pton4_into t old | None \<Rightarrow> old)"

definition set_conf_dhcp :: "string \<Rightarrow> 'a mo_state_scheme \<Rightarrow> 'a mo_state_scheme run" where
  "set_conf_dhcp str s = do {
     let toks = strtok_bar [] str;
     let s = s\<lparr>cf_nidcore := tok6 0 toks (cf_nidcore s), cf_nidgw := tok6 1 toks (cf_nidgw s),
               cf_gatewayIP := tok4 2 toks (cf_gatewayIP s), cf_nidrvs := tok6 3 toks (cf_nidrvs s),
               cf_rvsIP := tok4 4 toks (cf_rvsIP s), cf_niddns := tok6 5 toks (cf_niddns s),
               cf_ip := tok4 6 toks (cf_ip s)\<rparr>;
     let s = update_dns_server_address (cf_niddns s) s;
     s \<leftarrow> updateNM s;
     Some (updatePH s)
   }"

text \<open>
  One round of \<open>thread_dhcp\<close>: the bytes read from the client are a C string in a zeroed buffer of
  128 bytes. Without a second token \<open>strcmp\<close> reads through a null pointer; 128 bytes without a
  zero have no end for \<open>strdup\<close>.
\<close>

definition thread_dhcp :: "byte list \<Rightarrow> 'a mo_state_scheme \<Rightarrow> 'a mo_state_scheme run" where
  "thread_dhcp d s = do {
     let buf = dgram_read 128 d (replicate 128 0);
     if 0 \<notin> set buf then None
     else do {
       token \<leftarrow> nth_token 1 (strtok_bar [] (cstring buf));
       let aux = inet_ntop6 (getNIDgw s);
       set_conf_dhcp (cstring buf) (set_mobility (if token = aux then INTRADOMAIN else INTERDOMAIN) s)
     }
   }"

section \<open>What the threads do\<close>

definition redirect_msg :: "ifaddr \<Rightarrow> 'a conf_scheme \<Rightarrow> NID \<Rightarrow> NID_msg" where
  "redirect_msg ifaddr s dest = \<lparr>m_type = REDIRECT, m_srcNID = cf_nid s, m_destNID = dest, m_srcNIDgw = 0,
     m_destNIDgw = 0, m_nid = cf_nid s, m_ip = ifaddr (cf_primaryIface s)\<rparr>"

lemma redirect_all_spec:
  assumes "m_type m = REDIRECT" "m_srcNID m = cf_nid s" "m_nid m = cf_nid s" "m_srcNIDgw m = 0" "m_destNIDgw m = 0"
  shows "redirect_all ifaddr m ns s = s\<lparr>sp_mo2ph := sp_mo2ph s @
    map (\<lambda>n. encode_msg (redirect_msg ifaddr s (ln_nid n))) ns\<rparr>"
  using assms
proof (induction ns arbitrary: m s)
  case Nil
  then show ?case by simp
next
  case (Cons n ns)
  let ?m = "m\<lparr>m_destNID := ln_nid n, m_ip := ifaddr (cf_primaryIface s)\<rparr>"
  let ?s = "s\<lparr>sp_mo2ph := sp_mo2ph s @ [encode_msg ?m]\<rparr>"
  have "?m = redirect_msg ifaddr s (ln_nid n)"
    using Cons.prems by (cases m) (simp add: redirect_msg_def)
  moreover have "redirect_msg ifaddr ?s = redirect_msg ifaddr s" by (rule ext) (simp add: redirect_msg_def)
  moreover have "redirect_all ifaddr ?m ns ?s = ?s\<lparr>sp_mo2ph := sp_mo2ph ?s @
      map (\<lambda>n. encode_msg (redirect_msg ifaddr ?s (ln_nid n))) ns\<rparr>"
    by (rule Cons.IH) (use Cons.prems in simp_all)
  ultimately show ?case by (simp add: Let_def)
qed

definition rvs_update_msg :: "ifaddr \<Rightarrow> 'a conf_scheme \<Rightarrow> NID_msg" where
  "rvs_update_msg ifaddr s = \<lparr>m_type = RVS_UPDATE, m_srcNID = cf_nid s, m_destNID = cf_nidrvs s,
     m_srcNIDgw = 0, m_destNIDgw = 0, m_nid = cf_nid s, m_ip = ifaddr (cf_primaryIface s)\<rparr>"

lemma rvs_update_spec:
  "rvs_update ifaddr s = s\<lparr>sp_rvs2ph := sp_rvs2ph s @ [encode_msg (rvs_update_msg ifaddr s)]\<rparr>"
  by (simp add: rvs_update_def rvs_update_msg_def zero_msg_def Let_def)

text \<open>The first of two events is only counted.\<close>

lemma thread_mobility_first:
  "mo_count s = 0 \<Longrightarrow> thread_mobility ifaddr clk clk1 clk2 True s = Some (s\<lparr>mo_count := 1\<rparr>)"
  by (simp add: thread_mobility_def)

lemma thread_mobility_second:
  assumes ok: "nid_ok (connmap s)" and c: "mo_count s = 1"
  shows "\<exists>t. thread_mobility ifaddr clk clk1 clk2 True s = Some (s\<lparr>connmap := t, cm_nidgw := cf_nidgw s,
      cm_nidrvs := cf_nidrvs s, cm_gatewayIP := cf_gatewayIP s, cm_rvsIP := cf_rvsIP s, mo_count := 0,
      sp_mo2ph := sp_mo2ph s @ (if cf_mobility s = INTRADOMAIN then
         map (\<lambda>nid. encode_msg (redirect_msg ifaddr s nid)) (enum_nids (\<lambda>i. tv_sec (clk i)) (connmap s)) else []),
      sp_rvs2ph := sp_rvs2ph s @ [encode_msg (rvs_update_msg ifaddr s)]\<rparr>) \<and> nid_ok t \<and>
    nid_view t = set_static (cf_nidrvs s) (cf_rvsIP s)
      (set_static (cf_nidgw s) (cf_gatewayIP s) (nid_view (cm_cleaned clk1 clk2 s)))"
proof -
  let ?out = "if cf_mobility s = INTRADOMAIN then
     map (\<lambda>nid. encode_msg (redirect_msg ifaddr s nid)) (enum_nids (\<lambda>i. tv_sec (clk i)) (connmap s)) else []"
  let ?s = "s\<lparr>mo_count := 2, sp_mo2ph := sp_mo2ph s @ ?out\<rparr>"
  have red: "redirect_all ifaddr (zero_msg\<lparr>m_srcNID := cf_nid s, m_nid := cf_nid s, m_type := REDIRECT\<rparr>)
      (ll_next (getAllConnections clk (s\<lparr>mo_count := 2\<rparr>))) (s\<lparr>mo_count := 2\<rparr>)
     = s\<lparr>mo_count := 2, sp_mo2ph := sp_mo2ph s @
        map (\<lambda>nid. encode_msg (redirect_msg ifaddr s nid)) (enum_nids (\<lambda>i. tv_sec (clk i)) (connmap s))\<rparr>"
    by (subst redirect_all_spec)
      (simp_all add: zero_msg_def getAllConnections_def enum_nids_def redirect_msg_def)
  have cl: "cm_cleaned clk1 clk2 ?s = cm_cleaned clk1 clk2 s"
    using cm_cleaned_ok(2) [of s clk1 clk2] cm_cleaned_ok(2) [of ?s clk1 clk2] ok
    by (auto simp: cleanCM_def getAllConnections_def del_nodes_spec table_simps cm_cleaned_def Let_def)
  obtain t where t: "updateCMconf clk1 clk2 ?s = Some (?s\<lparr>connmap := t, cm_nidgw := cf_nidgw s,
      cm_nidrvs := cf_nidrvs s, cm_gatewayIP := cf_gatewayIP s, cm_rvsIP := cf_rvsIP s\<rparr>)" "nid_ok t"
    "nid_view t = set_static (cf_nidrvs s) (cf_rvsIP s)
      (set_static (cf_nidgw s) (cf_gatewayIP s) (nid_view (cm_cleaned clk1 clk2 s)))"
    using updateCMconf_spec [of ?s clk1 clk2] ok cl by auto
  have "thread_mobility ifaddr clk clk1 clk2 True s = map_option (\<lambda>s. rvs_update ifaddr (s\<lparr>mo_count := 0\<rparr>))
      (updateCMconf clk1 clk2 ?s)"
    using c red by (auto simp: thread_mobility_def Let_def map_option_case split: option.splits)
  then show ?thesis using t
    by (intro exI [of _ t]) (simp add: rvs_update_spec rvs_update_msg_def)
qed

text \<open>The tokens of a text that closes each with the delimiter, as the DHCP client writes it.\<close>

abbreviation bars :: "string list \<Rightarrow> string" where
  "bars toks \<equiv> concat (map (\<lambda>t. t @ ''|'') toks)"

lemma strtok_bar_token:
  "CHR ''|'' \<notin> set t \<Longrightarrow> strtok_bar cur (t @ CHR ''|'' # rest) =
     (if cur = [] \<and> t = [] then strtok_bar [] rest else (rev cur @ t) # strtok_bar [] rest)"
  by (induction t arbitrary: cur) auto

lemma strtok_bar_bars:
  "\<forall>t \<in> set toks. t \<noteq> [] \<and> CHR ''|'' \<notin> set t \<Longrightarrow> strtok_bar [] (bars toks) = toks"
  by (induction toks) (simp_all add: strtok_bar_token)

text \<open>
  What a configuration from the DHCP server does: the seven addresses, the DNS server's entry in the
  mapper under the new core gateway, and the kind of the move by the old gateway's text.
\<close>

lemma set_conf_dhcp_spec:
  assumes ok: "nm_ok s" and toks: "strtok_bar [] str = toks" "length toks = 7"
  shows "\<exists>s'. set_conf_dhcp str s = Some s' \<and> nm_ok s' \<and>
    cf_nidcore s' = pton6_into (toks ! 0) (cf_nidcore s) \<and> cf_nidgw s' = pton6_into (toks ! 1) (cf_nidgw s) \<and>
    cf_gatewayIP s' = pton4_into (toks ! 2) (cf_gatewayIP s) \<and> cf_nidrvs s' = pton6_into (toks ! 3) (cf_nidrvs s) \<and>
    cf_rvsIP s' = pton4_into (toks ! 4) (cf_rvsIP s) \<and> cf_niddns s' = pton6_into (toks ! 5) (cf_niddns s) \<and>
    cf_ip s' = pton4_into (toks ! 6) (cf_ip s) \<and> ph_nidcore s' = cf_nidcore s' \<and> cf_mobility s' = cf_mobility s \<and>
    nm_gw s' = (nm_gw s)(nm_niddns s := None, cf_niddns s' := Some (cf_nidcore s'))"
proof -
  let ?s = "s\<lparr>cf_nidcore := pton6_into (toks ! 0) (cf_nidcore s), cf_nidgw := pton6_into (toks ! 1) (cf_nidgw s),
     cf_gatewayIP := pton4_into (toks ! 2) (cf_gatewayIP s), cf_nidrvs := pton6_into (toks ! 3) (cf_nidrvs s),
     cf_rvsIP := pton4_into (toks ! 4) (cf_rvsIP s), cf_niddns := pton6_into (toks ! 5) (cf_niddns s),
     cf_ip := pton4_into (toks ! 6) (cf_ip s)\<rparr>"
  let ?s2 = "update_dns_server_address (cf_niddns ?s) ?s"
  have fr: "nm_niddns ?s2 = nm_niddns s" "nidTable ?s2 = nidTable s" "nid32Table ?s2 = nid32Table s" "nm_nid32dns ?s2 = nm_nid32dns s"
    "cf_niddns ?s2 = cf_niddns ?s" "cf_nidcore ?s2 = cf_nidcore ?s"
    by (simp_all add: update_dns_server_address_def)
  have "nm_ok ?s2" using ok fr by (simp add: nm_ok_def nm_tables_ok_def nm_gw_def nm_pair_def)
  from updateNM_spec [OF this] obtain t t32 where up:
    "updateNM ?s2 = Some (?s2\<lparr>nidTable := t, nid32Table := t32\<rparr>)" "nm_ok (?s2\<lparr>nidTable := t, nid32Table := t32\<rparr>)"
    "nm_gw (?s2\<lparr>nidTable := t, nid32Table := t32\<rparr>) = (nm_gw ?s2)(nm_niddns ?s2 := None, cf_niddns ?s2 := Some (cf_nidcore ?s2))"
    by blast
  have nt: "nth_token 0 toks = Some (toks ! 0)" "nth_token 1 toks = Some (toks ! 1)" "nth_token 2 toks = Some (toks ! 2)"
    "nth_token 3 toks = Some (toks ! 3)" "nth_token 4 toks = Some (toks ! 4)" "nth_token 5 toks = Some (toks ! 5)"
    "nth_token 6 toks = Some (toks ! 6)" using toks(2) unfolding nth_token_def by simp_all
  have run: "set_conf_dhcp str s = Some (updatePH (?s2\<lparr>nidTable := t, nid32Table := t32\<rparr>))"
    using up(1) toks(1) by (simp only: set_conf_dhcp_def nt tok6_def tok4_def Let_def option.case bind.bind_lunit toks(1)) 
  show ?thesis
    by (rule exI [of _ "updatePH (?s2\<lparr>nidTable := t, nid32Table := t32\<rparr>)"])
      (use run up fr in \<open>simp add: updatePH_def getNIDcore_def update_dns_server_address_def nm_ok_def nm_tables_ok_def nm_gw_def nm_pair_def\<close>)
qed

lemma dhcp_buffer:
  assumes "no_nul str" "length str < 128" "\<forall>b \<in> set pad. b = 0"
  shows "\<exists>rest. dgram_read 128 (bytes_of str @ pad) (replicate 128 0) = bytes_of str @ 0 # rest"
proof -
  have p: "pad = replicate (length pad) 0" using assms(3) by (simp add: replicate_length_same)
  have "dgram_read 128 (bytes_of str @ pad) (replicate 128 0) = bytes_of str @ replicate (128 - length str) 0"
    using assms(2) by (subst p) (simp add: dgram_read_def overlay_def min_def flip: replicate_add)
  moreover have "128 - length str = Suc (127 - length str)" using assms(2) by simp
  ultimately show ?thesis by (metis replicate_Suc)
qed

lemma thread_dhcp_spec:
  assumes ok: "nm_ok s" and toks: "\<forall>t \<in> set toks. t \<noteq> [] \<and> CHR ''|'' \<notin> set t \<and> no_nul t" "length toks = 7"
    and len: "length (bars toks) < 128" and pad: "\<forall>b \<in> set pad. b = 0"
  shows "\<exists>s'. thread_dhcp (bytes_of (bars toks) @ pad) s = Some s' \<and> nm_ok s' \<and>
    cf_nidcore s' = pton6_into (toks ! 0) (cf_nidcore s) \<and> cf_nidgw s' = pton6_into (toks ! 1) (cf_nidgw s) \<and>
    cf_gatewayIP s' = pton4_into (toks ! 2) (cf_gatewayIP s) \<and> cf_nidrvs s' = pton6_into (toks ! 3) (cf_nidrvs s) \<and>
    cf_rvsIP s' = pton4_into (toks ! 4) (cf_rvsIP s) \<and> cf_niddns s' = pton6_into (toks ! 5) (cf_niddns s) \<and>
    cf_ip s' = pton4_into (toks ! 6) (cf_ip s) \<and> ph_nidcore s' = cf_nidcore s' \<and>
    cf_mobility s' = (if toks ! 1 = inet_ntop6 (cf_nidgw s) then INTRADOMAIN else INTERDOMAIN) \<and>
    nm_gw s' = (nm_gw s)(nm_niddns s := None, cf_niddns s' := Some (cf_nidcore s'))"
proof -
  have nn: "no_nul (bars toks)" using toks(1) by (auto simp: no_nul_def)
  obtain rest where buf: "dgram_read 128 (bytes_of (bars toks) @ pad) (replicate 128 0) = bytes_of (bars toks) @ 0 # rest"
    using dhcp_buffer [OF nn len pad] by blast
  have str: "cstring (bytes_of (bars toks) @ 0 # rest) = bars toks" by (rule cstring_bytes_of [OF nn])
  have tk: "strtok_bar [] (bars toks) = toks" using toks(1) by (intro strtok_bar_bars) auto
  define mob :: u16 where "mob = (if toks ! 1 = inet_ntop6 (cf_nidgw s) then INTRADOMAIN else INTERDOMAIN)"
  have ok': "nm_ok (s\<lparr>cf_mobility := mob\<rparr>)" using ok by (simp add: nm_ok_def nm_tables_ok_def nm_gw_def nm_pair_def)
  have "thread_dhcp (bytes_of (bars toks) @ pad) s = set_conf_dhcp (bars toks) (s\<lparr>cf_mobility := mob\<rparr>)"
    using toks(2) by (simp add: thread_dhcp_def buf str tk nth_token_def getNIDgw_def set_mobility_def mob_def)
  then show ?thesis using set_conf_dhcp_spec [OF ok' tk toks(2)] by (simp add: mob_def nm_gw_def)
qed

text \<open>The text the client writes on a lease: a root path of six fields, and the address it was given.\<close>

lemma thread_dhcp_written:
  assumes ok: "nm_ok s" and toks: "\<forall>t \<in> set toks. t \<noteq> [] \<and> CHR ''|'' \<notin> set t \<and> no_nul t" "length toks = 6"
    and len: "length (bars toks) < 112" and pad: "\<forall>b \<in> set pad. b = 0"
  shows "\<exists>s'. thread_dhcp (bytes_of (bars toks @ inet_ntop4 y @ ''|'') @ pad) s = Some s' \<and> nm_ok s' \<and>
    cf_nidcore s' = pton6_into (toks ! 0) (cf_nidcore s) \<and> cf_nidgw s' = pton6_into (toks ! 1) (cf_nidgw s) \<and>
    cf_gatewayIP s' = pton4_into (toks ! 2) (cf_gatewayIP s) \<and> cf_nidrvs s' = pton6_into (toks ! 3) (cf_nidrvs s) \<and>
    cf_rvsIP s' = pton4_into (toks ! 4) (cf_rvsIP s) \<and> cf_niddns s' = pton6_into (toks ! 5) (cf_niddns s) \<and>
    cf_ip s' = y \<and> ph_nidcore s' = cf_nidcore s' \<and>
    cf_mobility s' = (if toks ! 1 = inet_ntop6 (cf_nidgw s) then INTRADOMAIN else INTERDOMAIN) \<and>
    nm_gw s' = (nm_gw s)(nm_niddns s := None, cf_niddns s' := Some (cf_nidcore s'))"
proof -
  let ?ts = "toks @ [inet_ntop4 y]"
  have ts: "\<forall>t \<in> set ?ts. t \<noteq> [] \<and> CHR ''|'' \<notin> set t \<and> no_nul t" "length ?ts = 7"
    using toks inet_ntop4_plain [of y] inet_ntop4_no_nul [of y] by auto
  have "length (bars ?ts) < 128" using len length_inet_ntop4 [of y] by simp
  from thread_dhcp_spec [OF ok ts this pad] show ?thesis
    using toks(2) by (simp add: nth_append pton4_into_def inet_pton4_ntop4)
qed
end
