(* ===== verification/DNS_Handler.thy ===== *)
theory DNS_Handler
  imports Mobility
begin

text \<open>
  The DNS proxy of \<open>src/src/dnshandler.c\<close> with the name table of \<open>fqdn_table.c\<close>: address
  queries of the applications are turned into text queries to the NID DNS server; the text holds the
  identity and the identity of its gateway, is entered into the identity mapper, and the
  application gets the 32-bit identity (type A) or the identity (type AAAA).

  The packet buffer has 512 bytes and is never cleared. \<open>rd\<close> and \<open>wr\<close> copy bytes out of and into
  it; a copy outside it, or one that is too long for its target, has no meaning in C and ends the run. The name
  table holds pointers: the only thing ever entered is the address of the thread's variable
  \<open>ansAns\<close>, so the data of the table is that pointer and the text is read from the variable.

  Shown: the address handed to an application leads the packet handler to the identity of the name;
  the shape of the answers; and that the table answers every known name with the last text received.
\<close>

section \<open>Buffers\<close>

definition rd :: "nat \<Rightarrow> nat \<Rightarrow> byte list \<Rightarrow> byte list run" where
  "rd off n buf = (if off + n \<le> length buf then Some (take n (drop off buf)) else None)"

definition wr :: "nat \<Rightarrow> byte list \<Rightarrow> byte list \<Rightarrow> byte list run" where
  "wr off bs buf =
     (if off + length bs \<le> length buf then Some (take off buf @ bs @ drop (off + length bs) buf) else None)"

abbreviation be16 :: "u16 \<Rightarrow> byte list" where "be16 w \<equiv> be_bytes 2 w"
abbreviation be32 :: "u32 \<Rightarrow> byte list" where "be32 w \<equiv> be_bytes 4 w"

definition rd16 :: "nat \<Rightarrow> byte list \<Rightarrow> u16 run" where
  "rd16 off buf = map_option be_word (rd off 2 buf)"

definition rd32 :: "nat \<Rightarrow> byte list \<Rightarrow> u32 run" where
  "rd32 off buf = map_option be_word (rd off 4 buf)"

abbreviation DNS_MAXNAMELENGTH :: nat where "DNS_MAXNAMELENGTH \<equiv> 255"
abbreviation BUFFER_LENGTH :: nat where "BUFFER_LENGTH \<equiv> 512"
abbreviation dnshdr_len :: nat where "dnshdr_len \<equiv> 12"
abbreviation NIDCHAR_MAXLENGTH :: nat where "NIDCHAR_MAXLENGTH \<equiv> 39"

text \<open>\<open>strcpy(queryName, buf + sizeof(struct dnshdr))\<close>: the name, without its zero.\<close>

definition dns_name :: "byte list \<Rightarrow> byte list run" where
  "dns_name buf =
     (let rest = drop dnshdr_len buf; name = takeWhile (\<lambda>b. b \<noteq> 0) rest
      in if 0 \<in> set rest \<and> length name \<le> DNS_MAXNAMELENGTH then Some name else None)"

section \<open>Queries and answers\<close>

definition modify_dns_query :: "byte list \<Rightarrow> (byte list \<times> byte list \<times> u16) run" where
  "modify_dns_query buf = do {
     name \<leftarrow> dns_name buf;
     queryType \<leftarrow> rd16 (1 + dnshdr_len + length name) buf;
     buf \<leftarrow> (if queryType = 1 \<or> queryType = 28 then wr (1 + dnshdr_len + length name) (be16 16) buf
             else Some buf);
     Some (buf, name, queryType)
   }"

text \<open>\<open>memcpy\<close> of \<open>n - 1\<close> bytes into a zeroed buffer of 256: for \<open>n = 0\<close> the length wraps around.\<close>

definition copy_text :: "nat \<Rightarrow> nat \<Rightarrow> byte list \<Rightarrow> byte list run" where
  "copy_text off n buf =
     (if n = 0 \<or> DNS_MAXNAMELENGTH + 1 < n - 1 then None
      else map_option (\<lambda>bs. overlay bs (replicate (DNS_MAXNAMELENGTH + 1) 0)) (rd off (n - 1) buf))"

text \<open>The result 0 is \<open>True\<close>; the text is that of the first answer.\<close>

definition analyse_dns_response :: "byte list \<Rightarrow> (bool \<times> byte list) run" where
  "analyse_dns_response buf = do {
     name \<leftarrow> dns_name buf;
     flags \<leftarrow> rd16 2 buf;
     if flags AND 15 = 0 then do {
       answerDataLength \<leftarrow> rd16 (27 + length name) buf;
       answerAns \<leftarrow> copy_text (30 + length name) (unat answerDataLength) buf;
       nsDataLength \<leftarrow> rd16 (39 + length name + unat answerDataLength) buf;
       nsNs \<leftarrow> copy_text (42 + length name + unat answerDataLength) (unat nsDataLength) buf;
       Some (True, answerAns)
     }
     else Some (False, replicate (DNS_MAXNAMELENGTH + 1) 0)
   }"

definition get_nids :: "byte list \<Rightarrow> string \<times> string" where
  "get_nids nidtuple = (cstring (take NIDCHAR_MAXLENGTH nidtuple),
     cstring (take NIDCHAR_MAXLENGTH (drop (NIDCHAR_MAXLENGTH + 1) nidtuple)))"

text \<open>
  \<open>build_dns_response\<close>: the fields of the name server record are read, the answer is replaced by the
  address, and the name server record is written behind it. \<open>b\<close> is the offset behind the name.
\<close>

definition build_dns_response :: "NID32 \<Rightarrow> NID \<Rightarrow> u16 \<Rightarrow> byte list \<Rightarrow> byte list run" where
  "build_dns_response nid32addr nidaddr qType buf = do {
     name \<leftarrow> dns_name buf;
     let b = 1 + dnshdr_len + length name;
     queryType \<leftarrow> rd16 b buf;
     answerDataLength \<leftarrow> rd16 (b + 14) buf;
     let n = unat answerDataLength;
     nsName \<leftarrow> rd16 (b + 16 + n) buf;
     nsType \<leftarrow> rd16 (b + 18 + n) buf;
     nsClass \<leftarrow> rd16 (b + 20 + n) buf;
     nsTTL \<leftarrow> rd32 (b + 22 + n) buf;
     nsDataLength \<leftarrow> rd16 (b + 26 + n) buf;
     let k = unat nsDataLength;
     nsNs \<leftarrow> (if k \<le> DNS_MAXNAMELENGTH + 1 then rd (b + 28 + n) k buf else None);
     flags \<leftarrow> rd16 2 buf;
     buf \<leftarrow> (if queryType = 16 \<and> qType = 1 then wr b (be16 1) buf else Some buf);
     buf \<leftarrow> (if queryType = 16 \<and> qType = 28 then wr b (be16 28) buf else Some buf);
     if queryType = 16 \<and> flags AND 15 = 0 then do {
       buf \<leftarrow> (if qType = 1 then do {
                  buf \<leftarrow> wr (b + 6) (be16 1) buf;
                  buf \<leftarrow> wr (b + 16) (nid32_bytes nid32addr) buf;
                  wr (b + 14) (be16 4) buf
                } else Some buf);
       buf \<leftarrow> (if qType = 28 then do {
                  buf \<leftarrow> wr (b + 6) (be16 28) buf;
                  buf \<leftarrow> wr (b + 16) (nid_bytes nidaddr) buf;
                  wr (b + 14) (be16 16) buf
                } else Some buf);
       answerDataLength \<leftarrow> rd16 (b + 14) buf;
       let n = unat answerDataLength;
       buf \<leftarrow> wr (b + 16 + n) (be16 nsName) buf;
       buf \<leftarrow> wr (b + 18 + n) (be16 nsType) buf;
       buf \<leftarrow> wr (b + 20 + n) (be16 nsClass) buf;
       buf \<leftarrow> wr (b + 22 + n) (be32 nsTTL) buf;
       buf \<leftarrow> wr (b + 26 + n) (be16 nsDataLength) buf;
       buf \<leftarrow> wr (b + 28 + n) (replicate (DNS_MAXNAMELENGTH + 1) 0) buf;
       wr (b + 28 + n) nsNs buf
     }
     else Some buf
   }"

definition build_dns_response_with_fqdn_table :: "NID32 \<Rightarrow> NID \<Rightarrow> u16 \<Rightarrow> byte list \<Rightarrow> byte list run" where
  "build_dns_response_with_fqdn_table nid32addr nidaddr qType buf = do {
     transaction_id \<leftarrow> rd 0 2 buf;
     name \<leftarrow> dns_name buf;
     let b = 1 + dnshdr_len + length name;
     let buf = replicate BUFFER_LENGTH 0;
     buf \<leftarrow> wr 0 transaction_id buf;
     buf \<leftarrow> wr 2 (be16 34176) buf;
     buf \<leftarrow> wr 4 (be16 1) buf;
     buf \<leftarrow> wr 6 (be16 1) buf;
     buf \<leftarrow> wr 8 (be16 1) buf;
     buf \<leftarrow> wr 10 (be16 0) buf;
     buf \<leftarrow> wr dnshdr_len name buf;
     buf \<leftarrow> (if qType = 1 then wr b (be16 1) buf else if qType = 28 then wr b (be16 28) buf else Some buf);
     buf \<leftarrow> wr (b + 2) (be16 1) buf;
     buf \<leftarrow> wr (b + 4) (be16 49164) buf;
     buf \<leftarrow> (if qType = 1 then wr (b + 6) (be16 1) buf
             else if qType = 28 then wr (b + 6) (be16 28) buf else Some buf);
     buf \<leftarrow> wr (b + 8) (be16 1) buf;
     buf \<leftarrow> wr (b + 10) (be32 60) buf;
     if qType = 1 \<or> qType = 28 then do {
       buf \<leftarrow> wr (b + 14) (be16 (if qType = 1 then 4 else 16)) buf;
       buf \<leftarrow> wr (b + 16) (if qType = 1 then nid32_bytes nid32addr else nid_bytes nidaddr) buf;
       let e = b + 16 + (if qType = 1 then 4 else 16) + 1;
       buf \<leftarrow> wr e (be16 2) buf;
       buf \<leftarrow> wr (e + 2) (be16 1) buf;
       wr (e + 4) (be32 60) buf
     }
     else Some buf
   }"

section \<open>The name table\<close>

datatype nids_ptr = Ptr_ansAns

record dns_state = mo_state +
  fqdnTable :: "(byte list, nids_ptr) hash_table"
  dns_buffer :: "byte list"
  dns_ansAns :: "byte list"
  dns_out :: "(NID32 \<times> byte list) list"

definition newFQDNTEntry :: "byte list \<Rightarrow> nids_ptr \<Rightarrow> 'a dns_state_scheme \<Rightarrow> (bool \<times> 'a dns_state_scheme) run" where
  "newFQDNTEntry fqdn nids s = do {
     (r, t) \<leftarrow> fqdn_hash_insert True fqdn nids (fqdnTable s);
     Some (r \<noteq> None, s\<lparr>fqdnTable := t\<rparr>)
   }"

definition getNIDsbyName :: "byte list \<Rightarrow> 'a dns_state_scheme \<Rightarrow> nids_ptr option run" where
  "getNIDsbyName fqdn s = fqdn_hash_lookup fqdn (fqdnTable s)"

definition init_fqdn_table :: "'a dns_state_scheme \<Rightarrow> 'a dns_state_scheme" where
  "init_fqdn_table s = s\<lparr>fqdnTable := construct_fqdn_hash_table True 100\<rparr>"

definition destroy_fqdn_table :: "'a dns_state_scheme \<Rightarrow> 'a dns_state_scheme" where
  "destroy_fqdn_table s = s\<lparr>fqdnTable := fst (free_fqdn_hash_table False (fqdnTable s))\<rparr>"

definition deref :: "nids_ptr \<Rightarrow> 'a dns_state_scheme \<Rightarrow> byte list" where
  "deref p s = (case p of Ptr_ansAns \<Rightarrow> dns_ansAns s)"

section \<open>The thread\<close>

text \<open>
  Reading the pair of identities out of a text and entering them into the identity mapper. \<open>None\<close>
  inside is the \<open>break\<close> on a text that is no identity, which ends the thread.
\<close>

definition dns_learn ::
  "byte list \<Rightarrow> 'a dns_state_scheme \<Rightarrow> ((NID32 \<times> NID) option \<times> 'a dns_state_scheme) run" where
  "dns_learn nids s =
     (case get_nids nids of
        (nid, nidr) \<Rightarrow>
          (case (inet_pton6 nid, inet_pton6 nidr) of
             (Some nidaddr, Some nidraddr) \<Rightarrow> do {
               let nid32addr = dns_nid32 nidaddr;
               s \<leftarrow> newNMEntry nidaddr nidraddr s;
               s \<leftarrow> newNMEntry32 nid32addr nidaddr nidraddr s;
               Some (Some (nid32addr, nidaddr), s)
             }
           | _ \<Rightarrow> Some (None, s)))"

text \<open>\<open>inet_addr\<close>\<close>

definition inet_addr :: "string \<Rightarrow> NID32" where
  "inet_addr str = (case inet_pton4 str of Some a \<Rightarrow> a | None \<Rightarrow> - 1)"

definition dns_reply :: "NID32 \<Rightarrow> nat \<Rightarrow> 'a dns_state_scheme \<Rightarrow> 'a dns_state_scheme" where
  "dns_reply client rc s = s\<lparr>dns_out := dns_out s @ [(client, take rc (dns_buffer s))]\<rparr>"

text \<open>The branch of a name the table knows.\<close>

definition dns_known ::
  "NID32 \<Rightarrow> byte list \<Rightarrow> u16 \<Rightarrow> 'a dns_state_scheme \<Rightarrow> (bool \<times> 'a dns_state_scheme) run" where
  "dns_known client nids queryType s = do {
     (r, s) \<leftarrow> dns_learn nids s;
     case r of
       None \<Rightarrow> Some (False, s)
     | Some (nid32addr, nidaddr) \<Rightarrow> do {
         buf \<leftarrow> build_dns_response_with_fqdn_table nid32addr nidaddr queryType (dns_buffer s);
         Some (True, dns_reply client BUFFER_LENGTH (s\<lparr>dns_buffer := buf\<rparr>))
       }
   }"

text \<open>
  The branch of an unknown name; \<open>server\<close> answers a query sent to an address, \<open>None\<close> if the
  exchange fails, which ends the thread.
\<close>

definition dns_ask ::
  "(NID32 \<Rightarrow> byte list \<Rightarrow> byte list option) \<Rightarrow> NID32 \<Rightarrow> nat \<Rightarrow> byte list \<Rightarrow> u16 \<Rightarrow>
   'a dns_state_scheme \<Rightarrow> (bool \<times> 'a dns_state_scheme) run" where
  "dns_ask server client rc fqdn queryType s =
     (case server (inet_addr (server_address s)) (take rc (dns_buffer s)) of
        None \<Rightarrow> Some (False, s)
      | Some d \<Rightarrow> do {
          let rc = min BUFFER_LENGTH (length d);
          let s = s\<lparr>dns_buffer := dgram_read BUFFER_LENGTH d (dns_buffer s)\<rparr>;
          (ret, ansAns) \<leftarrow> analyse_dns_response (dns_buffer s);
          let s = s\<lparr>dns_ansAns := ansAns\<rparr>;
          if ret then do {
            (_, s) \<leftarrow> newFQDNTEntry fqdn Ptr_ansAns s;
            (r, s) \<leftarrow> dns_learn (dns_ansAns s) s;
            case r of
              None \<Rightarrow> Some (False, s)
            | Some (nid32addr, nidaddr) \<Rightarrow> do {
                buf \<leftarrow> build_dns_response nid32addr nidaddr queryType (dns_buffer s);
                Some (True, dns_reply client rc (s\<lparr>dns_buffer := buf\<rparr>))
              }
          }
          else Some (True, dns_reply client rc s)
        })"

text \<open>
  One iteration of \<open>thread_dnshandler\<close> for a query \<open>d\<close> from \<open>client\<close>; the flag tells whether the
  thread goes on. Opening the sockets succeeds.
\<close>

definition thread_dnshandler ::
  "(NID32 \<Rightarrow> byte list \<Rightarrow> byte list option) \<Rightarrow> NID32 \<Rightarrow> byte list \<Rightarrow> 'a dns_state_scheme \<Rightarrow>
   (bool \<times> 'a dns_state_scheme) run" where
  "thread_dnshandler server client d s = do {
     (buf, fqdn, queryType) \<leftarrow> modify_dns_query (dgram_read BUFFER_LENGTH d (dns_buffer s));
     let s = s\<lparr>dns_buffer := buf\<rparr>;
     nids_returned \<leftarrow> getNIDsbyName fqdn s;
     case nids_returned of
       Some p \<Rightarrow> dns_known client (deref p s) queryType s
     | None \<Rightarrow> dns_ask server client (min BUFFER_LENGTH (length d)) fqdn queryType s
   }"

section \<open>Buffer lemmas\<close>

lemma length_wr: "wr off bs buf = Some buf' \<Longrightarrow> length buf' = length buf"
  by (auto simp: wr_def split: if_splits)

lemma wr_Some: "off + length bs \<le> length buf \<Longrightarrow> \<exists>buf'. wr off bs buf = Some buf'"
  by (simp add: wr_def)

text \<open>A byte after a write: the written byte inside the range, the old one outside.\<close>

lemma wr_nth:
  assumes "wr off bs buf = Some buf'" "i < length buf"
  shows "buf' ! i = (if off \<le> i \<and> i < off + length bs then bs ! (i - off) else buf ! i)"
  using assms by (auto simp: wr_def nth_append min_def split: if_splits)

lemma rd_eq:
  assumes "off + n \<le> length buf"
  shows "rd off n buf = Some (map (\<lambda>i. buf ! (off + i)) [0..<n])"
  using assms by (auto simp: rd_def intro!: nth_equalityI)

lemma rd_wr_same:
  assumes "wr off bs buf = Some buf'"
  shows "rd off (length bs) buf' = Some bs"
  using assms by (auto simp: wr_def rd_def split: if_splits)

lemma rd_wr_other:
  assumes "wr off bs buf = Some buf'" "off' + n \<le> off \<or> off + length bs \<le> off'" "off' + n \<le> length buf"
  shows "rd off' n buf' = rd off' n buf"
proof -
  have "buf' ! (off' + i) = buf ! (off' + i)" if "i < n" for i
    using wr_nth [OF assms(1), of "off' + i"] assms(2,3) that by auto
  then show ?thesis using assms(3) length_wr [OF assms(1)] by (simp add: rd_eq)
qed

text \<open>A sequence of writes, and the reads of a range that one of them wrote and no later one touched.\<close>

fun wrs :: "(nat \<times> byte list) list \<Rightarrow> byte list \<Rightarrow> byte list run" where
  "wrs [] buf = Some buf"
| "wrs ((off, bs) # ws) buf = do { buf \<leftarrow> wr off bs buf; wrs ws buf }"

lemma wrs_fun: "wrs [] = Some" "wrs ((off, bs) # ws) = (\<lambda>buf. wr off bs buf \<bind> wrs ws)"
  by (rule ext, simp)+

fun wrote :: "nat \<Rightarrow> byte list \<Rightarrow> (nat \<times> byte list) list \<Rightarrow> bool" where
  "wrote off d [] \<longleftrightarrow> False"
| "wrote off d ((off', d') # ws) \<longleftrightarrow> wrote off d ws \<or> (off' = off \<and> d' = d \<and>
     list_all (\<lambda>(o2, x). off + length d \<le> o2 \<or> o2 + length x \<le> off) ws)"

lemma wrs_Some:
  "list_all (\<lambda>(off, bs). off + length bs \<le> length buf) ws \<Longrightarrow>
   \<exists>buf'. wrs ws buf = Some buf' \<and> length buf' = length buf"
proof (induction ws arbitrary: buf)
  case Nil
  then show ?case by simp
next
  case (Cons w ws)
  obtain off bs where w: "w = (off, bs)" by (cases w)
  obtain b1 where b1: "wr off bs buf = Some b1" using wr_Some [of off bs buf] Cons.prems by (auto simp: w)
  then have "length b1 = length buf" by (rule length_wr)
  then show ?case using Cons.IH [of b1] Cons.prems b1 by (simp add: w)
qed

lemma rd_wrs_other:
  "wrs ws buf = Some buf' \<Longrightarrow> list_all (\<lambda>(o2, x). off + n \<le> o2 \<or> o2 + length x \<le> off) ws \<Longrightarrow>
   off + n \<le> length buf \<Longrightarrow> rd off n buf' = rd off n buf"
proof (induction ws arbitrary: buf)
  case Nil
  then show ?case by simp
next
  case (Cons w ws)
  obtain o2 x where w: "w = (o2, x)" by (cases w)
  obtain b1 where b1: "wr o2 x buf = Some b1" "wrs ws b1 = Some buf'"
    using Cons.prems(1) by (auto simp: w bind_eq_Some_conv)
  then show ?case using Cons.IH [of b1] Cons.prems rd_wr_other [OF b1(1), of off n] length_wr [OF b1(1)]
    by (auto simp: w)
qed

lemma wrote_rd: "wrs ws buf = Some buf' \<Longrightarrow> wrote off d ws \<Longrightarrow> rd off (length d) buf' = Some d"
proof (induction ws arbitrary: buf)
  case Nil
  then show ?case by simp
next
  case (Cons w ws)
  obtain o2 x where w: "w = (o2, x)" by (cases w)
  obtain b1 where b1: "wr o2 x buf = Some b1" "wrs ws b1 = Some buf'"
    using Cons.prems(1) by (auto simp: w bind_eq_Some_conv)
  show ?case
  proof (cases "wrote off d ws")
    case True
    then show ?thesis using Cons.IH [OF b1(2)] by simp
  next
    case False
    then have *: "o2 = off" "x = d" "list_all (\<lambda>(o2, x). off + length d \<le> o2 \<or> o2 + length x \<le> off) ws"
      using Cons.prems(2) by (auto simp: w)
    have "off + length d \<le> length b1"
      using b1(1) * length_wr [OF b1(1)] by (auto simp: wr_def split: if_splits)
    then show ?thesis using rd_wrs_other [OF b1(2) *(3)] rd_wr_same [OF b1(1)] * by simp
  qed
qed

lemma be_word_be16: "be_word (be16 w) = w"
  by (simp add: be_word_be_bytes)

section \<open>What the proxy enters and answers\<close>

text \<open>
  The pair of a text goes into the identity mapper under the address the application is given, so
  the packet handler finds the identity for the application's packets.
\<close>

lemma dns_learn_spec:
  assumes ok: "nm_ok s" and nids: "get_nids nids = (a, b)" "inet_pton6 a = Some nid" "inet_pton6 b = Some gw"
  shows "\<exists>t t32. dns_learn nids s = Some (Some (nid2nid32 nid, nid), s\<lparr>nidTable := t, nid32Table := t32\<rparr>) \<and>
    nm_ok (s\<lparr>nidTable := t, nid32Table := t32\<rparr>) \<and>
    nm_gw (s\<lparr>nidTable := t, nid32Table := t32\<rparr>) = (nm_gw s)(nid := Some gw) \<and>
    nm_pair (s\<lparr>nidTable := t, nid32Table := t32\<rparr>) = (nm_pair s)(nid2nid32 nid := Some (nid, gw))"
proof -
  obtain t t32 where t: "newNMEntry nid gw s = Some (s\<lparr>nidTable := t, nid32Table := t32\<rparr>)"
    "nm_ok (s\<lparr>nidTable := t, nid32Table := t32\<rparr>)"
    "nm_gw (s\<lparr>nidTable := t, nid32Table := t32\<rparr>) = (nm_gw s)(nid := Some gw)"
    "nm_pair (s\<lparr>nidTable := t, nid32Table := t32\<rparr>) = (nm_pair s)(nid2nid32 nid := Some (nid, gw))"
    using newNMEntry_ok [OF ok] by blast
  obtain t' where t': "newNMEntry32 (nid2nid32 nid) nid gw (s\<lparr>nidTable := t, nid32Table := t32\<rparr>)
      = Some (s\<lparr>nidTable := t, nid32Table := t'\<rparr>)" "nm_ok (s\<lparr>nidTable := t, nid32Table := t'\<rparr>)"
    "nm_pair (s\<lparr>nidTable := t, nid32Table := t'\<rparr>)
      = (nm_pair (s\<lparr>nidTable := t, nid32Table := t32\<rparr>))(nid2nid32 nid := Some (nid, gw))"
    using newNMEntry32_own_ok [OF t(2), of nid gw] by auto
  have "nm_gw (s\<lparr>nidTable := t, nid32Table := t'\<rparr>) = nm_gw (s\<lparr>nidTable := t, nid32Table := t32\<rparr>)"
    by (simp add: nm_gw_def)
  then show ?thesis using nids t t'
    by - (rule exI [of _ t], rule exI [of _ t'], simp add: dns_learn_def dns_nid32_eq_nid2nid32)
qed

text \<open>
  The answer from the name table: an address record with the right data, for names that leave room
  for it in the buffer (all that the query buffer can hold a type behind).
\<close>

definition dns_answer_data :: "nat \<Rightarrow> byte list \<Rightarrow> (u16 \<times> byte list) run" where
  "dns_answer_data b buf = do {
     ty \<leftarrow> rd16 (b + 6) buf;
     n \<leftarrow> rd16 (b + 14) buf;
     data \<leftarrow> rd (b + 16) (unat n) buf;
     Some (ty, data)
   }"

lemma dns_answer_dataI:
  assumes "rd (b + 6) 2 buf = Some (be16 ty)" "rd (b + 14) 2 buf = Some (be16 n)"
    "rd (b + 16) (unat n) buf = Some data"
  shows "dns_answer_data b buf = Some (ty, data)"
  using assms by (simp add: dns_answer_data_def rd16_def be_word_be16)

lemma build_table_answer:
  assumes name: "dns_name buf = Some name" and len: "length buf = BUFFER_LENGTH"
    and q: "qType = 1 \<or> qType = 28"
  shows "\<exists>buf'. build_dns_response_with_fqdn_table nid32 nid qType buf = Some buf' \<and> length buf' = BUFFER_LENGTH \<and>
    take 2 buf' = take 2 buf \<and>
    dns_answer_data (13 + length name) buf' =
      Some (qType, if qType = 1 then nid32_bytes nid32 else nid_bytes nid)"
proof -
  define k :: nat where "k = (if qType = 1 then 4 else 16)"
  define d where "d = (if qType = 1 then nid32_bytes nid32 else nid_bytes nid)"
  let ?b = "13 + length name" and ?n = "if qType = 1 then 4 else 16 :: u16"
  have L: "length name \<le> 255" using name by (auto simp: dns_name_def Let_def split: if_splits)
  have k: "k \<le> 16" "length d = k" "unat ?n = k" by (auto simp: k_def d_def)
  have qT: "(if qType = 1 then wr off (be16 1) bf else if qType = 28 then wr off (be16 28) bf else Some bf)
      = wr off (be16 qType) bf" for off bf using q by auto
  let ?ws = "[(0, take 2 buf), (2, be16 34176), (4, be16 1), (6, be16 1), (8, be16 1), (10, be16 0), (12, name),
     (?b, be16 qType), (?b + 2, be16 1), (?b + 4, be16 49164), (?b + 6, be16 qType), (?b + 8, be16 1),
     (?b + 10, be32 60), (?b + 14, be16 ?n), (?b + 16, d), (?b + 16 + k + 1, be16 2),
     (?b + 16 + k + 1 + 2, be16 1), (?b + 16 + k + 1 + 4, be32 60)]"
  have run: "build_dns_response_with_fqdn_table nid32 nid qType buf = wrs ?ws (replicate BUFFER_LENGTH 0)"
    using q len unfolding build_dns_response_with_fqdn_table_def name qT d_def [symmetric] k_def [symmetric]
    by (simp add: Let_def rd_def wrs_fun del: wrs.simps)
  obtain buf' where w: "wrs ?ws (replicate BUFFER_LENGTH 0) = Some buf'" "length buf' = BUFFER_LENGTH"
    using wrs_Some [of "replicate BUFFER_LENGTH 0" ?ws] L k len by auto
  have "rd (?b + 6) (length (be16 qType)) buf' = Some (be16 qType)"
    by (rule wrote_rd [OF w(1)]) (use L k len in simp)
  moreover have "rd (?b + 14) (length (be16 ?n)) buf' = Some (be16 ?n)"
    by (rule wrote_rd [OF w(1)]) (use L k len in simp)
  moreover have "rd (?b + 16) (length d) buf' = Some d"
    by (rule wrote_rd [OF w(1)]) (use L k len in simp)
  ultimately have "dns_answer_data ?b buf' = Some (qType, d)"
    using k by (intro dns_answer_dataI [of ?b buf' qType ?n d]) simp_all
  moreover have "rd 0 (length (take 2 buf)) buf' = Some (take 2 buf)"
    by (rule wrote_rd [OF w(1)]) (use L k len in simp)
  then have "take 2 buf' = take 2 buf" using w(2) len by (simp add: rd_def)
  ultimately show ?thesis
    unfolding run using w by (intro exI [of _ buf']) (simp only: d_def simp_thms)
qed

text \<open>
  A query for a name the table knows is answered from the variable the table points to: the
  identity in it is entered and its address is the answer, whatever name was asked for.
\<close>

lemma thread_dnshandler_known:
  assumes ok: "nm_ok s" "fqdn_ok (fqdnTable s)" and len: "length (dns_buffer s) = BUFFER_LENGTH"
    and query: "modify_dns_query (dgram_read BUFFER_LENGTH d (dns_buffer s)) = Some (buf, name, qType)"
    and name: "dns_name buf = Some name" and q: "qType = 1 \<or> qType = 28"
    and known: "fqdn_view (fqdnTable s) name = Some p"
    and nids: "get_nids (dns_ansAns s) = (a, b)" "inet_pton6 a = Some nid" "inet_pton6 b = Some gw"
  shows "\<exists>s' out. thread_dnshandler server client d s = Some (True, s') \<and>
    dns_out s' = dns_out s @ [(client, out)] \<and>
    dns_answer_data (13 + length name) out =
      Some (qType, if qType = 1 then nid32_bytes (nid2nid32 nid) else nid_bytes nid) \<and>
    nm_pair s' = (nm_pair s)(nid2nid32 nid := Some (nid, gw)) \<and> nm_ok s'"
proof -
  let ?s = "s\<lparr>dns_buffer := buf\<rparr>"
  have "nm_ok ?s" using ok(1) by (simp add: nm_ok_def nm_tables_ok_def nm_gw_def nm_pair_def)
  from dns_learn_spec [OF this nids] obtain t t32 where t:
    "dns_learn (dns_ansAns s) ?s = Some (Some (nid2nid32 nid, nid), ?s\<lparr>nidTable := t, nid32Table := t32\<rparr>)"
    "nm_ok (?s\<lparr>nidTable := t, nid32Table := t32\<rparr>)"
    "nm_pair (?s\<lparr>nidTable := t, nid32Table := t32\<rparr>) = (nm_pair ?s)(nid2nid32 nid := Some (nid, gw))"
    by blast
  have lb: "length buf = BUFFER_LENGTH"
    using query len by (auto simp: modify_dns_query_def bind_eq_Some_conv split: if_splits dest: length_wr)
  obtain buf' where b: "build_dns_response_with_fqdn_table (nid2nid32 nid) nid qType buf = Some buf'"
      "length buf' = BUFFER_LENGTH" "dns_answer_data (13 + length name) buf' =
       Some (qType, if qType = 1 then nid32_bytes (nid2nid32 nid) else nid_bytes nid)"
    using build_table_answer [OF name lb q] by blast
  let ?s' = "dns_reply client BUFFER_LENGTH (?s\<lparr>nidTable := t, nid32Table := t32, dns_buffer := buf'\<rparr>)"
  have "thread_dnshandler server client d s = Some (True, ?s')"
    using query known ok(2) t(1) b(1)
    by (cases p) (simp add: thread_dnshandler_def getNIDsbyName_def table_simps deref_def dns_known_def)
  moreover have "dns_out ?s' = dns_out s @ [(client, buf')]" using b(2) by (simp add: dns_reply_def)
  moreover have "nm_pair ?s' = (nm_pair s)(nid2nid32 nid := Some (nid, gw))" "nm_ok ?s'"
    using t(2,3) by (simp_all add: dns_reply_def nm_ok_def nm_tables_ok_def nm_gw_def nm_pair_def)
  ultimately show ?thesis using b(3) by blast
qed

end
