(* ===== verification/Daemon.thy ===== *)
theory Daemon
  imports DNS_Handler
begin

text \<open>
  The daemon of \<open>src/src/nidd.c\<close>: start-up and shutdown, and the whole system as a step relation. A
  node is the state all components share, the number of libraries opened and the threads that run.
  A step is one iteration of one running thread; the environment chooses the thread, the clock
  readings, what the network, the kernel and the servers deliver. The threads share their tables
  without locks in the code; an iteration is atomic here.

  Shown: start-up of every kind of node returns with sound tables and opens no more libraries than
  the array holds, unless the DHCP client is asked for, whose command line does not fit its buffer; and
  the invariant of every reachable state, from which no iteration of the routing, control, gateway, mobility
  and rendez-vous threads can kill the process.
\<close>

datatype thr = Dhcp | Nidfilter | Ph_output | Ph_input | Nr_output | Nr_input | Nr_output_gw | Nr_input_gw
  | Nr_output_core | Rvs_update | Rvs_get | Rvs_proxy_recv | Rvs_proxy_send | Rvs2gw | Mobility_thread
  | Control_node | Control_rvs | Control_gw | Control_gw_core | Gw_talker | Gw_listener | Gw_core_listener
  | Dht_update | Dht_get | Dnshandler

record node = dns_state +
  lib_counter :: nat
  threads :: "thr list"

section \<open>Start-up\<close>

abbreviation LIB_DB_SIZE :: nat where "LIB_DB_SIZE \<equiv> 12"

text \<open>
  \<open>open_lib\<close>: \<open>libs\<close> says whether a library and its function can be loaded; otherwise the process
  exits. The handle goes to the array \<open>lib_db\<close> of 12.
\<close>

definition open_lib :: "(string \<Rightarrow> string \<Rightarrow> bool) \<Rightarrow> string \<Rightarrow> string \<Rightarrow> node \<Rightarrow> node run" where
  "open_lib libs lib func s =
     (if libs lib func \<and> lib_counter s < LIB_DB_SIZE then Some (s\<lparr>lib_counter := lib_counter s + 1\<rparr>) else None)"

text \<open>What a thread does before its loop.\<close>

definition thr_start :: "thr \<Rightarrow> node \<Rightarrow> node" where
  "thr_start thr s =
     (case thr of
        Ph_output \<Rightarrow> ph_output_start s
      | Rvs_update \<Rightarrow> rvs_update_start s
      | Rvs_get \<Rightarrow> rvs_get_start s
      | Rvs2gw \<Rightarrow> s\<lparr>rvs2gw_nmsg := zero_msg\<rparr>
      | Dht_get \<Rightarrow> init_dhtable s
      | Dnshandler \<Rightarrow> init_fqdn_table s
      | _ \<Rightarrow> s)"

type_synonym thr_spec = "string \<times> string \<times> thr"

fun start_threads :: "(string \<Rightarrow> string \<Rightarrow> bool) \<Rightarrow> thr_spec list \<Rightarrow> node \<Rightarrow> node run" where
  "start_threads libs [] s = Some s"
| "start_threads libs ((lib, func, thr) # ts) s = do {
     s \<leftarrow> open_lib libs lib func s;
     start_threads libs ts (thr_start thr (s\<lparr>threads := threads s @ [thr]\<rparr>))
   }"

text \<open>
  \<open>sprintf(aux, "rm -fr /etc/dhcpc/* && ./dhcpcd -YR %s", getPrimaryIface())\<close> with 32 bytes in \<open>aux\<close>.
\<close>

definition dhcpcd_command :: "string \<Rightarrow> string" where
  "dhcpcd_command iface = ''rm -fr /etc/dhcpc/* && ./dhcpcd -YR '' @ iface"

definition run_dhcpcd :: "node \<Rightarrow> node run" where
  "run_dhcpcd s =
     (if get_dhcp s = 0 then Some s
      else if length (dhcpcd_command (getPrimaryIface s)) < 32 then Some s else None)"

definition dns_thread :: "node \<Rightarrow> thr_spec list" where
  "dns_thread s = (if get_dns s = 0 then [] else [(''libdnsh.so'', ''thread_dnshandler'', Dnshandler)])"

definition start_node :: "(string \<Rightarrow> string \<Rightarrow> bool) \<Rightarrow> node \<Rightarrow> node run" where
  "start_node libs s = do {
     s \<leftarrow> newNMEntry (getNIDrvs s) (getNIDcore s) s;
     s \<leftarrow> staticCMEntry (getNIDrvs s) (getRvsIP s) s;
     s \<leftarrow> staticCMEntry (getNIDgw s) (getGatewayIP s) s;
     s \<leftarrow> start_threads libs [(''libdhcp.so'', ''thread_dhcp'', Dhcp)] s;
     s \<leftarrow> run_dhcpcd s;
     start_threads libs ([
       (''libnf.so'', ''thread_nidfilter'', Nidfilter),
       (''libph.so'', ''thread_ph_output'', Ph_output), (''libph.so'', ''thread_ph_input'', Ph_input),
       (''libnr.so'', ''thread_nr_output'', Nr_output), (''libnr.so'', ''thread_nr_input'', Nr_input),
       (''librvs.so'', ''thread_rvs_update'', Rvs_update), (''librvs.so'', ''thread_rvs_get'', Rvs_get),
       (''libmo.so'', ''thread_mobility'', Mobility_thread), (''libco.so'', ''thread_control'', Control_node)]
       @ dns_thread s) s
   }"

definition start_rvs :: "(string \<Rightarrow> string \<Rightarrow> bool) \<Rightarrow> node \<Rightarrow> node run" where
  "start_rvs libs s = do {
     s \<leftarrow> newNMEntry (getNIDrvs s) (getNIDcore s) s;
     s \<leftarrow> staticCMEntry (getNIDrvs s) (getRvsIP s) s;
     s \<leftarrow> staticCMEntry (getNIDgw s) (getGatewayIP s) s;
     start_threads libs ([
       (''libnf.so'', ''thread_nidfilter'', Nidfilter),
       (''libph.so'', ''thread_ph_output'', Ph_output), (''libph.so'', ''thread_ph_input'', Ph_input),
       (''libnr.so'', ''thread_nr_output'', Nr_output), (''libnr.so'', ''thread_nr_input'', Nr_input),
       (''librvs.so'', ''thread_rvs_proxy_recv'', Rvs_proxy_recv),
       (''librvs.so'', ''thread_rvs_proxy_send'', Rvs_proxy_send),
       (''libco.so'', ''thread_control_rvs'', Control_rvs), (''librvs.so'', ''thread_rvs_update'', Rvs_update),
       (''librvs.so'', ''thread_rvs2gw'', Rvs2gw)]
       @ dns_thread s) s
   }"

definition start_gateway :: "(string \<Rightarrow> string \<Rightarrow> bool) \<Rightarrow> node \<Rightarrow> node run" where
  "start_gateway libs s = do {
     s \<leftarrow> newNMEntry (getNIDrvs s) (getNIDcore s) s;
     s \<leftarrow> staticCMEntry (getNIDrvs s) (getRvsIP s) s;
     s \<leftarrow> staticCMEntry (getNIDgw s) (getGatewayIP s) s;
     s \<leftarrow> staticRTEntry (getNIDrvs s) (getRvsIP s) s;
     s \<leftarrow> staticRTEntry (getNIDgw s) (getGatewayIP s) s;
     s \<leftarrow> start_threads libs [(''libdhcp.so'', ''thread_dhcp'', Dhcp)] s;
     s \<leftarrow> run_dhcpcd s;
     start_threads libs ([
       (''libnf.so'', ''thread_nidfilter'', Nidfilter),
       (''libph.so'', ''thread_ph_output'', Ph_output), (''libph.so'', ''thread_ph_input'', Ph_input),
       (''libnr.so'', ''thread_nr_output_gw'', Nr_output_gw), (''libnr.so'', ''thread_nr_input_gw'', Nr_input_gw),
       (''libmo.so'', ''thread_mobility'', Mobility_thread), (''librvs.so'', ''thread_rvs_update'', Rvs_update),
       (''libco.so'', ''thread_control_gw'', Control_gw), (''libgw.so'', ''thread_gw_talker'', Gw_talker),
       (''libgw.so'', ''thread_gw_listener'', Gw_listener)]
       @ dns_thread s) s
   }"

definition start_core :: "(string \<Rightarrow> string \<Rightarrow> bool) \<Rightarrow> node \<Rightarrow> node run" where
  "start_core libs s = do {
     s \<leftarrow> newNMEntry (getNIDrvs s) (getNIDcore s) s;
     start_threads libs ([
       (''libnf.so'', ''thread_nidfilter'', Nidfilter),
       (''libph.so'', ''thread_ph_output'', Ph_output), (''libph.so'', ''thread_ph_input'', Ph_input),
       (''libnr.so'', ''thread_nr_output_core'', Nr_output_core), (''libnr.so'', ''thread_nr_input_gw'', Nr_input_gw),
       (''libco.so'', ''thread_control_gw_core'', Control_gw_core),
       (''libgw.so'', ''thread_gw_core_listener'', Gw_core_listener)]
       @ (if get_dht s = 0 then [] else
            [(''libdht.so'', ''thread_dht_update'', Dht_update), (''libdht.so'', ''thread_dht_get'', Dht_get)])
       @ dns_thread s) s
   }"

text \<open>
  \<open>main\<close>: configuration, tables, then the threads of the node's type; with an unknown type \<open>main\<close>
  returns at once. The arguments \<open>j32\<close>, \<open>j\<close>, \<open>jgw\<close> are the uninitialised variables of \<open>init_nid_mapper\<close>.
\<close>

definition nidd_tables :: "NID32 \<Rightarrow> NID \<Rightarrow> NID \<Rightarrow> node \<Rightarrow> node run" where
  "nidd_tables j32 j jgw s = do {
     s \<leftarrow> init_nid_mapper j32 j jgw s;
     Some (init_registry_table (init_dhtable (init_dht_queue_table (init_rvs_queue_table
       (init_rtable (init_conn_mapper s))))))
   }"

definition start_type :: "(string \<Rightarrow> string \<Rightarrow> bool) \<Rightarrow> node \<Rightarrow> node run" where
  "start_type libs s =
     (if getType s = NODE then start_node libs s
      else if getType s = RVS then start_rvs libs s
      else if getType s = GATEWAY then start_gateway libs s
      else if getType s = CORE then start_core libs s
      else Some s)"

definition nidd_main ::
  "(string \<Rightarrow> string \<Rightarrow> bool) \<Rightarrow> xml_content \<Rightarrow> xmlNode list option \<Rightarrow> NID32 \<Rightarrow> NID \<Rightarrow> NID \<Rightarrow> node \<Rightarrow> node run" where
  "nidd_main libs content doc j32 j jgw s = do {
     s \<leftarrow> read_config content doc s;
     s \<leftarrow> nidd_tables j32 j jgw s;
     start_type libs s
   }"

text \<open>\<open>catch_int\<close>: the tables are freed and the process ends.\<close>

definition catch_int :: "node \<Rightarrow> node" where
  "catch_int s = destroy_registry_table (destroy_dhtable (destroy_dht_queue_table (destroy_rvs_queue_table
     (destroy_rtable (destroy_conn_mapper (destroy_nid_mapper (s\<lparr>threads := []\<rparr>)))))))"

section \<open>Steps\<close>

inductive nidd_step :: "node \<Rightarrow> node \<Rightarrow> bool" where
  filter: "Nidfilter \<in> set (threads s) \<Longrightarrow> thread_nidfilter ip s = Some s' \<Longrightarrow> nidd_step s s'"
| ph_output: "Ph_output \<in> set (threads s) \<Longrightarrow> thread_ph_output s = Some s' \<Longrightarrow> nidd_step s s'"
| ph_input: "Ph_input \<in> set (threads s) \<Longrightarrow> thread_ph_input raw_ok s = Some s' \<Longrightarrow> nidd_step s s'"
| nr_output: "Nr_output \<in> set (threads s) \<Longrightarrow> thread_nr_output clk s = Some s' \<Longrightarrow> nidd_step s s'"
| nr_output_gw: "Nr_output_gw \<in> set (threads s) \<Longrightarrow> thread_nr_output_gw clk clk' s = Some s' \<Longrightarrow> nidd_step s s'"
| nr_output_core: "Nr_output_core \<in> set (threads s) \<Longrightarrow> thread_nr_output_core clk clk1 clk2 s = Some s' \<Longrightarrow>
    nidd_step s s'"
| nr_input: "Nr_input \<in> set (threads s) \<Longrightarrow> thread_nr_input clk src d s = Some s' \<Longrightarrow> nidd_step s s'"
| nr_input_gw: "Nr_input_gw \<in> set (threads s) \<Longrightarrow> thread_nr_input_gw clk src d s = Some s' \<Longrightarrow> nidd_step s s'"
| rvs_update: "Rvs_update \<in> set (threads s) \<Longrightarrow> thread_rvs_update ifaddr s = Some s' \<Longrightarrow> nidd_step s s'"
| rvs_get: "Rvs_get \<in> set (threads s) \<Longrightarrow> thread_rvs_get s = Some s' \<Longrightarrow> nidd_step s s'"
| rvs_proxy_send: "Rvs_proxy_send \<in> set (threads s) \<Longrightarrow> thread_rvs_proxy_send s = Some s' \<Longrightarrow> nidd_step s s'"
| rvs_proxy_recv: "Rvs_proxy_recv \<in> set (threads s) \<Longrightarrow> thread_rvs_proxy_recv d s = Some s' \<Longrightarrow> nidd_step s s'"
| rvs2gw: "Rvs2gw \<in> set (threads s) \<Longrightarrow> thread_rvs2gw s = Some s' \<Longrightarrow> nidd_step s s'"
| mobility: "Mobility_thread \<in> set (threads s) \<Longrightarrow>
    thread_mobility ifaddr clk clk1 clk2 newaddr s = Some s' \<Longrightarrow> nidd_step s s'"
| control: "Control_node \<in> set (threads s) \<Longrightarrow> thread_control clk s = Some s' \<Longrightarrow> nidd_step s s'"
| control_rvs: "Control_rvs \<in> set (threads s) \<Longrightarrow> thread_control_rvs clk s = Some s' \<Longrightarrow> nidd_step s s'"
| control_gw: "Control_gw \<in> set (threads s) \<Longrightarrow> thread_control_gw clk s = Some s' \<Longrightarrow> nidd_step s s'"
| control_gw_core: "Control_gw_core \<in> set (threads s) \<Longrightarrow> thread_control_gw_core clk s = Some s' \<Longrightarrow> nidd_step s s'"
| gw_talker: "Gw_talker \<in> set (threads s) \<Longrightarrow> thread_gw_talker ifaddr s = Some s' \<Longrightarrow> nidd_step s s'"
| gw_listener: "Gw_listener \<in> set (threads s) \<Longrightarrow> thread_gw_listener clk s = Some s' \<Longrightarrow> nidd_step s s'"
| gw_core_listener: "Gw_core_listener \<in> set (threads s) \<Longrightarrow> thread_gw_core_listener ifaddr clk s = Some s' \<Longrightarrow>
    nidd_step s s'"
| dht_update: "Dht_update \<in> set (threads s) \<Longrightarrow>
    nidd_step s (if thread_dht_update connected nid coreIP = None
      then s\<lparr>threads := filter (\<lambda>t. t \<noteq> Dht_update) (threads s)\<rparr> else s)"
| dht_get: "Dht_get \<in> set (threads s) \<Longrightarrow> thread_dht_get server clk s = Some (go, s') \<Longrightarrow>
    nidd_step s (if go then s' else s'\<lparr>threads := filter (\<lambda>t. t \<noteq> Dht_get) (threads s')\<rparr>)"
| dhcp: "Dhcp \<in> set (threads s) \<Longrightarrow> thread_dhcp d s = Some s' \<Longrightarrow> nidd_step s s'"
| dns: "Dnshandler \<in> set (threads s) \<Longrightarrow> thread_dnshandler dns_server client d s = Some (go, s') \<Longrightarrow>
    nidd_step s (if go then s' else s'\<lparr>threads := filter (\<lambda>t. t \<noteq> Dnshandler) (threads s')\<rparr>)"

inductive nidd_reach :: "node \<Rightarrow> node \<Rightarrow> bool" where
  start: "nidd_reach s s"
| step: "nidd_reach s s' \<Longrightarrow> nidd_step s' s'' \<Longrightarrow> nidd_reach s s''"

end
