(* ===== verification/Daemon_Safety.thy ===== *)
theory Daemon_Safety
  imports Daemon
begin

text \<open>
  The invariant of the running daemon and what it guarantees. \<open>node_ok\<close>: all tables are sound, every
  identity with a gateway has its entry under the 32-bit identity, and requests to the rendez-vous thread are
  16 bytes long. Each operation and each thread iteration is shown to return from a state with the
  invariant and to keep it, by rules that follow the structure of the code (\<open>safe_intros\<close>); threads
  the environment can kill are shown to keep it when they return.
\<close>

named_theorems safe_intros "an operation returns and keeps the invariant"

definition node_ok :: "node \<Rightarrow> bool" where
  "node_ok s \<longleftrightarrow> nm_ok s \<and> nr_ok s \<and> list_all (\<lambda>d. length d = 16) (sp_cm2rvs s) \<and>
     (Dnshandler \<in> set (threads s) \<longrightarrow> fqdn_ok (fqdnTable s))"

lemmas node_ok_defs = node_ok_def nr_ok_defs nm_ok_def nm_tables_ok_def nm_gw_def nm_pair_def

text \<open>Fields that are not in the invariant.\<close>

lemma node_ok_frame [simp]:
  "node_ok (s\<lparr>cf_type := x0\<rparr>) = node_ok s"
  "node_ok (s\<lparr>cf_dhcp := x1\<rparr>) = node_ok s"
  "node_ok (s\<lparr>cf_dht := x2\<rparr>) = node_ok s"
  "node_ok (s\<lparr>cf_dns := x3\<rparr>) = node_ok s"
  "node_ok (s\<lparr>cf_mobility := x4\<rparr>) = node_ok s"
  "node_ok (s\<lparr>cf_nid := x5\<rparr>) = node_ok s"
  "node_ok (s\<lparr>cf_nidgw := x6\<rparr>) = node_ok s"
  "node_ok (s\<lparr>cf_nidrvs := x7\<rparr>) = node_ok s"
  "node_ok (s\<lparr>cf_nidcore := x8\<rparr>) = node_ok s"
  "node_ok (s\<lparr>cf_niddns := x9\<rparr>) = node_ok s"
  "node_ok (s\<lparr>cf_gatewayIP := x10\<rparr>) = node_ok s"
  "node_ok (s\<lparr>cf_rvsIP := x11\<rparr>) = node_ok s"
  "node_ok (s\<lparr>cf_ip := x12\<rparr>) = node_ok s"
  "node_ok (s\<lparr>server_address := x13\<rparr>) = node_ok s"
  "node_ok (s\<lparr>cm_nidgw := x14\<rparr>) = node_ok s"
  "node_ok (s\<lparr>cm_nidrvs := x15\<rparr>) = node_ok s"
  "node_ok (s\<lparr>cm_gatewayIP := x16\<rparr>) = node_ok s"
  "node_ok (s\<lparr>cm_rvsIP := x17\<rparr>) = node_ok s"
  "node_ok (s\<lparr>rt_nidgw := x18\<rparr>) = node_ok s"
  "node_ok (s\<lparr>rt_gatewayIP := x19\<rparr>) = node_ok s"
  "node_ok (s\<lparr>sp_co2gwl := x20\<rparr>) = node_ok s"
  "node_ok (s\<lparr>sp_gwl2gwt := x21\<rparr>) = node_ok s"
  "node_ok (s\<lparr>sp_rvs2gwt := x22\<rparr>) = node_ok s"
  "node_ok (s\<lparr>sp_gwt2ph := x23\<rparr>) = node_ok s"
  "node_ok (s\<lparr>gwl_nmsg := x24\<rparr>) = node_ok s"
  "node_ok (s\<lparr>gwt_nmsg := x25\<rparr>) = node_ok s"
  "node_ok (s\<lparr>sp_dht := x26\<rparr>) = node_ok s"
  "node_ok (s\<lparr>dg_nid := x27\<rparr>) = node_ok s"
  "node_ok (s\<lparr>dg_nid32 := x28\<rparr>) = node_ok s"
  "node_ok (s\<lparr>dg_aux := x29\<rparr>) = node_ok s"
  "node_ok (s\<lparr>sp_ph2nr := x30\<rparr>) = node_ok s"
  "node_ok (s\<lparr>sp_nr2ph := x31\<rparr>) = node_ok s"
  "node_ok (s\<lparr>sp_nr := x32\<rparr>) = node_ok s"
  "node_ok (s\<lparr>nro_buf := x33\<rparr>) = node_ok s"
  "node_ok (s\<lparr>nri_buf := x34\<rparr>) = node_ok s"
  "node_ok (s\<lparr>net_out := x35\<rparr>) = node_ok s"
  "node_ok (s\<lparr>sp_nf2ph := x36\<rparr>) = node_ok s"
  "node_ok (s\<lparr>sp_rvs2ph := x37\<rparr>) = node_ok s"
  "node_ok (s\<lparr>sp_mo2ph := x38\<rparr>) = node_ok s"
  "node_ok (s\<lparr>sp_ph2co := x39\<rparr>) = node_ok s"
  "node_ok (s\<lparr>ph_nidcore := x40\<rparr>) = node_ok s"
  "node_ok (s\<lparr>pho_nh := x41\<rparr>) = node_ok s"
  "node_ok (s\<lparr>pho_pt := x42\<rparr>) = node_ok s"
  "node_ok (s\<lparr>phi_buf := x43\<rparr>) = node_ok s"
  "node_ok (s\<lparr>raw_out := x44\<rparr>) = node_ok s"
  "node_ok (s\<lparr>sp_co2rvs := x45\<rparr>) = node_ok s"
  "node_ok (s\<lparr>rvs_out := x46\<rparr>) = node_ok s"
  "node_ok (s\<lparr>rps_nmsg := x47\<rparr>) = node_ok s"
  "node_ok (s\<lparr>rpr_rvs_msg := x48\<rparr>) = node_ok s"
  "node_ok (s\<lparr>rvsu_nmsg := x49\<rparr>) = node_ok s"
  "node_ok (s\<lparr>rvsg_nmsg := x50\<rparr>) = node_ok s"
  "node_ok (s\<lparr>rvs2gw_nmsg := x51\<rparr>) = node_ok s"
  "node_ok (s\<lparr>co_nmsg := x52\<rparr>) = node_ok s"
  "node_ok (s\<lparr>mo_count := x53\<rparr>) = node_ok s"
  "node_ok (s\<lparr>dns_buffer := x54\<rparr>) = node_ok s"
  "node_ok (s\<lparr>dns_ansAns := x55\<rparr>) = node_ok s"
  "node_ok (s\<lparr>dns_out := x56\<rparr>) = node_ok s"
  "node_ok (s\<lparr>lib_counter := x57\<rparr>) = node_ok s"
  by (simp_all add: node_ok_defs)

lemma node_ok_tables:
  "node_ok s \<Longrightarrow> nid_ok t \<Longrightarrow> node_ok (s\<lparr>connmap := t\<rparr>)"
  "node_ok s \<Longrightarrow> nid_ok t \<Longrightarrow> node_ok (s\<lparr>rtable := t\<rparr>)"
  "node_ok s \<Longrightarrow> nid_ok t \<Longrightarrow> node_ok (s\<lparr>registry_table := t\<rparr>)"
  "node_ok s \<Longrightarrow> nid_ok t \<Longrightarrow> node_ok (s\<lparr>dhtable := t\<rparr>)"
  "node_ok s \<Longrightarrow> lockt_ok q \<Longrightarrow> node_ok (s\<lparr>queue_table := q\<rparr>)"
  "node_ok s \<Longrightarrow> lockt_ok q \<Longrightarrow> node_ok (s\<lparr>dht_queue_table := q\<rparr>)"
  "node_ok s \<Longrightarrow> fqdn_ok f \<Longrightarrow> node_ok (s\<lparr>fqdnTable := f\<rparr>)"
  "node_ok s \<Longrightarrow> list_all (\<lambda>d. length d = 16) ds \<Longrightarrow> node_ok (s\<lparr>sp_cm2rvs := ds\<rparr>)"
  by (simp_all add: node_ok_defs)

lemma node_ok_nm: "node_ok s \<Longrightarrow> nm_ok (s\<lparr>nidTable := t, nid32Table := t32\<rparr>) \<Longrightarrow>
    node_ok (s\<lparr>nidTable := t, nid32Table := t32\<rparr>)"
  by (simp add: node_ok_defs)

lemma node_okD:
  assumes "node_ok s"
  shows "nm_ok s" "nr_ok s" "cm_ok s" "dht_ok s" "gw_tables_ok s" "nid_ok (connmap s)" "nid_ok (rtable s)"
    "nid_ok (registry_table s)" "nid_ok (dhtable s)" "rvs_locks_ok s" "dht_locks_ok s"
    "list_all (\<lambda>d. length d = 16) (sp_cm2rvs s)"
  using assms by (simp_all add: node_ok_def nr_ok_defs)

section \<open>Safe runs\<close>

text \<open>A run that returns a result whose state, picked by \<open>p\<close>, has the invariant.\<close>

definition safe_by :: "('x \<Rightarrow> node) \<Rightarrow> 'x run \<Rightarrow> bool" where
  "safe_by p r \<longleftrightarrow> (\<exists>x. r = Some x \<and> node_ok (p x))"

abbreviation safe :: "node run \<Rightarrow> bool" where
  "safe \<equiv> safe_by (\<lambda>s. s)"

lemma safe_Some [safe_intros]: "node_ok (p x) \<Longrightarrow> safe_by p (Some x)"
  by (simp add: safe_by_def)

lemma safe_bind [safe_intros]:
  "safe_by p f \<Longrightarrow> (\<And>x. node_ok (p x) \<Longrightarrow> safe_by q (g x)) \<Longrightarrow> safe_by q (f \<bind> g)"
  by (auto simp: safe_by_def)

lemma safe_if [safe_intros]:
  "(b \<Longrightarrow> safe_by p x) \<Longrightarrow> (\<not> b \<Longrightarrow> safe_by p y) \<Longrightarrow> safe_by p (if b then x else y)"
  by simp

lemma safe_list [safe_intros]:
  "(xs = [] \<Longrightarrow> safe_by p a) \<Longrightarrow> (\<And>y ys. xs = y # ys \<Longrightarrow> safe_by p (f y ys)) \<Longrightarrow>
   safe_by p (case xs of [] \<Rightarrow> a | y # ys \<Rightarrow> f y ys)"
  by (cases xs) auto

lemma safe_option [safe_intros]:
  "(x = None \<Longrightarrow> safe_by p a) \<Longrightarrow> (\<And>y. x = Some y \<Longrightarrow> safe_by p (f y)) \<Longrightarrow>
   safe_by p (case x of None \<Rightarrow> a | Some y \<Rightarrow> f y)"
  by (cases x) auto

lemma safe_prod [safe_intros]:
  "(\<And>a b. x = (a, b) \<Longrightarrow> safe_by p (f a b)) \<Longrightarrow> safe_by p (case x of (a, b) \<Rightarrow> f a b)"
  by (cases x) auto

lemma safe_Let [safe_intros]: "safe_by p (f t) \<Longrightarrow> safe_by p (Let t f)"
  by simp

section \<open>Operations\<close>

lemma safe_newCMEntry [safe_intros]: "node_ok s \<Longrightarrow> safe (newCMEntry clk nid ip s)"
  using newCMEntry_spec [of s clk nid ip] node_okD [of s] by (auto simp: safe_by_def intro: node_ok_tables)

lemma safe_staticCMEntry [safe_intros]: "node_ok s \<Longrightarrow> safe (staticCMEntry nid ip s)"
  using staticCMEntry_spec [of s nid ip] node_okD [of s] by (auto simp: safe_by_def intro: node_ok_tables)

lemma safe_delCMEntry [safe_intros]: "node_ok s \<Longrightarrow> safe (delCMEntry nid s)"
  using delCMEntry_spec [of s nid] node_okD [of s] by (auto simp: safe_by_def intro: node_ok_tables)

lemma safe_getCMEntry [safe_intros]: "node_ok s \<Longrightarrow> safe_by (\<lambda>x. snd (snd x)) (getCMEntry clk nid s)"
  using getCMEntry_total [of s clk nid] node_okD [of s] by (auto simp: safe_by_def intro!: node_ok_tables)

lemma safe_updateCMconf [safe_intros]: "node_ok s \<Longrightarrow> safe (updateCMconf clk clk' s)"
  using updateCMconf_spec [of s clk clk'] node_okD [of s] by (auto simp: safe_by_def intro: node_ok_tables)

lemma safe_unqueue [safe_intros]: "node_ok s \<Longrightarrow> safe (unqueue nid s)"
  using rvsq.deq_spec [of s nid] node_okD [of s]
  by (fastforce simp: safe_by_def dest: unqueue_frame intro: node_ok_tables)

lemma safe_dht_unqueue [safe_intros]: "node_ok s \<Longrightarrow> safe (dht_unqueue nid s)"
  using dhtq.deq_spec [of s nid] node_okD [of s]
  by (fastforce simp: safe_by_def dest: dht_unqueue_frame intro: node_ok_tables)

lemma safe_newRTEntry [safe_intros]: "node_ok s \<Longrightarrow> safe (newRTEntry clk nid ip s)"
  using newRTEntry_spec [of s clk nid ip] node_okD [of s] by (auto simp: safe_by_def intro: node_ok_tables)

lemma safe_staticRTEntry [safe_intros]: "node_ok s \<Longrightarrow> safe (staticRTEntry nid ip s)"
  using staticRTEntry_spec [of s nid ip] node_okD [of s] by (auto simp: safe_by_def intro: node_ok_tables)

lemma safe_getRTEntry [safe_intros]: "node_ok s \<Longrightarrow> safe_by (\<lambda>x. snd (snd x)) (getRTEntry clk nid s)"
  using getRTEntry_spec [of s clk nid] node_okD [of s] by (auto simp: safe_by_def intro: node_ok_tables)

lemma safe_addRegistry [safe_intros]: "node_ok s \<Longrightarrow> safe (addRegistry nid ip s)"
  using addRegistry_spec [of s nid ip] node_okD [of s] by (auto simp: safe_by_def intro: node_ok_tables)

lemma safe_getRegistry [safe_intros]: "node_ok s \<Longrightarrow> safe_by (\<lambda>_. s) (getRegistry nid s)"
  using getRegistry_spec [of s nid] node_okD [of s] by (auto simp: safe_by_def)

lemma safe_addDHTEntry [safe_intros]: "node_ok s \<Longrightarrow> safe (addDHTEntry clk nid ip s)"
  using addDHTEntry_spec [of s clk nid ip] node_okD [of s] by (auto simp: safe_by_def intro: node_ok_tables)

lemma safe_getDHTEntry [safe_intros]: "node_ok s \<Longrightarrow> safe_by snd (getDHTEntry clk nid s)"
  using getDHTEntry_answer [of s clk nid] node_okD [of s] by (auto simp: safe_by_def intro: node_ok_tables)

lemma safe_newNMEntry [safe_intros]: "node_ok s \<Longrightarrow> safe (newNMEntry nid gw s)"
  using newNMEntry_ok [of s nid gw] node_okD [of s] by (auto simp: safe_by_def intro: node_ok_nm)

lemma safe_updateNM [safe_intros]: "node_ok s \<Longrightarrow> safe (updateNM s)"
  using updateNM_spec [of s] node_okD [of s] by (auto simp: safe_by_def intro: node_ok_nm)

section \<open>Threads the environment cannot kill\<close>

lemma node_ok_send [simp]: "node_ok (nr_sendto peer data s) = node_ok s"
  by (simp add: nr_sendto_def)

lemma safe_core_route [safe_intros]: "node_ok s \<Longrightarrow> safe_by snd (core_route clk clk' nh s)"
  unfolding core_route_def by (rule safe_intros | simp)+

lemma node_ok_core_send: "node_ok (snd r) \<Longrightarrow> node_ok (core_send data r)"
  by (cases r) (auto simp: core_send_def split: option.split)

lemma safe_nr_output: "node_ok s \<Longrightarrow> safe (thread_nr_output clk s)"
  unfolding thread_nr_output_def by (rule safe_intros | simp)+

lemma safe_gw_choose [safe_intros]: "node_ok (snd (snd r)) \<Longrightarrow> safe_by snd (gw_choose clk nh r)"
  unfolding gw_choose_def by (cases r, simp) (rule impI conjI safe_intros | simp)+

lemma safe_nr_output_gw: "node_ok s \<Longrightarrow> safe (thread_nr_output_gw clk clk' s)"
  unfolding thread_nr_output_gw_def by (rule safe_intros | simp)+

lemma safe_core_choose [safe_intros]: "node_ok (snd (snd r)) \<Longrightarrow> safe_by snd (core_choose clk clk' nh r)"
  unfolding core_choose_def by (cases r, simp) (rule impI conjI safe_intros | simp)+

lemma safe_nr_output_core: "node_ok s \<Longrightarrow> safe (thread_nr_output_core clk clk1 clk2 s)"
  unfolding thread_nr_output_core_def by (rule safe_intros | simp add: node_ok_core_send)+

lemma safe_nr_input: "node_ok s \<Longrightarrow> safe (thread_nr_input clk src d s)"
  unfolding thread_nr_input_def by (rule safe_intros | simp)+

lemma safe_nr_input_gw: "node_ok s \<Longrightarrow> safe (thread_nr_input_gw clk src d s)"
  unfolding thread_nr_input_gw_def by (rule safe_intros | simp)+

lemma safe_gw_listener: "node_ok s \<Longrightarrow> safe (thread_gw_listener clk s)"
  unfolding thread_gw_listener_def by (rule safe_intros | simp)+

lemma safe_gw_core_listener: "node_ok s \<Longrightarrow> safe (thread_gw_core_listener ifaddr clk s)"
  unfolding thread_gw_core_listener_def by (rule safe_intros | simp)+

lemma node_ok_gw_talk [simp]: "node_ok (gw_talk ifaddr d s) = node_ok s"
  by (simp add: gw_talk_def Let_def)

lemma safe_gw_talker: "node_ok s \<Longrightarrow> safe (thread_gw_talker ifaddr s)"
  unfolding thread_gw_talker_def by (rule safe_intros | simp)+

lemma safe_control:
  "node_ok s \<Longrightarrow> safe (thread_control clk s)" "node_ok s \<Longrightarrow> safe (thread_control_rvs clk s)"
  "node_ok s \<Longrightarrow> safe (thread_control_gw clk s)" "node_ok s \<Longrightarrow> safe (thread_control_gw_core clk s)"
  unfolding control_defs by (rule safe_intros | simp)+

lemma node_ok_ph [simp]:
  "node_ok (ph_read d s) = node_ok s" "node_ok (ph_write d nh s) = node_ok s"
  "node_ok (ph_from_msg d s) = node_ok s" "node_ok (ph_from_gwt d s) = node_ok s"
  by (simp_all add: ph_read_def ph_write_def ph_from_msg_def ph_from_gwt_def Let_def)

lemma safe_getNMEntry32 [safe_intros]: "node_ok s \<Longrightarrow> safe_by (\<lambda>_. s) (getNMEntry32 nid32 s)"
  using node_okD [of s] by (auto simp: safe_by_def getNMEntry32_def nm_ok_def nm_tables_ok_def table_simps)

lemma safe_ph_from_filter [safe_intros]: "node_ok s \<Longrightarrow> safe (ph_from_filter d s)"
  unfolding ph_from_filter_def by (rule safe_intros | simp)+

lemma safe_ph_output: "node_ok s \<Longrightarrow> safe (thread_ph_output s)"
  unfolding thread_ph_output_def by (rule safe_intros | simp)+

lemma safe_rvs_update: "node_ok s \<Longrightarrow> safe (thread_rvs_update ifaddr s)"
  unfolding thread_rvs_update_def by (rule safe_intros | simp)+

lemma safe_rvs_proxy:
  "node_ok s \<Longrightarrow> safe (thread_rvs_proxy_send s)" "node_ok s \<Longrightarrow> safe (thread_rvs_proxy_recv d s)"
  "node_ok s \<Longrightarrow> safe (thread_rvs2gw s)"
  unfolding thread_rvs_proxy_send_def thread_rvs_proxy_recv_def thread_rvs2gw_def by (rule safe_intros | simp)+

text \<open>Requests to the rendez-vous thread are 16 bytes, so its read stays inside the variable.\<close>

lemma safe_rvs_get: "node_ok s \<Longrightarrow> safe (thread_rvs_get s)"
proof (cases "sp_cm2rvs s")
  case Nil
  then show "node_ok s \<Longrightarrow> safe (thread_rvs_get s)" by (simp add: thread_rvs_get_def safe_by_def)
next
  case (Cons d ds)
  assume ok: "node_ok s"
  then have "length d = 16" "list_all (\<lambda>d. length d = 16) ds" using Cons by (auto simp: node_ok_def)
  then show "safe (thread_rvs_get s)"
    using Cons ok node_ok_tables(8) [OF ok] by (simp add: thread_rvs_get_def safe_by_def Let_def)
qed

lemma node_ok_redirect_all [simp]: "node_ok (redirect_all ifaddr m ns s) = node_ok s"
  by (induction ns arbitrary: m s) (simp_all add: Let_def)

lemma safe_mobility: "node_ok s \<Longrightarrow> safe (thread_mobility ifaddr clk clk1 clk2 newaddr s)"
  unfolding thread_mobility_def by (rule safe_intros | simp add: rvs_update_spec)+

section \<open>Threads the environment can kill\<close>

text \<open>A run whose result, if there is one, has the invariant.\<close>

definition kept_by :: "('x \<Rightarrow> node) \<Rightarrow> 'x run \<Rightarrow> bool" where
  "kept_by p r \<longleftrightarrow> (\<forall>x. r = Some x \<longrightarrow> node_ok (p x))"

named_theorems kept_intros "an operation keeps the invariant when it returns"

lemma kept_safe: "safe_by p r \<Longrightarrow> kept_by p r"
  by (auto simp: safe_by_def kept_by_def)

lemma kept_None [kept_intros]: "kept_by p None"
  by (simp add: kept_by_def)

lemma kept_Some [kept_intros]: "node_ok (p x) \<Longrightarrow> kept_by p (Some x)"
  by (simp add: kept_by_def)

lemma kept_bind [kept_intros]:
  "kept_by p f \<Longrightarrow> (\<And>x. node_ok (p x) \<Longrightarrow> kept_by q (g x)) \<Longrightarrow> kept_by q (f \<bind> g)"
  by (auto simp: kept_by_def bind_eq_Some_conv)

lemma kept_pure: "(\<And>x. kept_by q (g x)) \<Longrightarrow> kept_by q (f \<bind> g)"
  by (auto simp: kept_by_def bind_eq_Some_conv)

lemma kept_if [kept_intros]:
  "(b \<Longrightarrow> kept_by p x) \<Longrightarrow> (\<not> b \<Longrightarrow> kept_by p y) \<Longrightarrow> kept_by p (if b then x else y)"
  by simp

lemma kept_list [kept_intros]:
  "(xs = [] \<Longrightarrow> kept_by p a) \<Longrightarrow> (\<And>y ys. xs = y # ys \<Longrightarrow> kept_by p (f y ys)) \<Longrightarrow>
   kept_by p (case xs of [] \<Rightarrow> a | y # ys \<Rightarrow> f y ys)"
  by (cases xs) auto

lemma kept_option [kept_intros]:
  "(x = None \<Longrightarrow> kept_by p a) \<Longrightarrow> (\<And>y. x = Some y \<Longrightarrow> kept_by p (f y)) \<Longrightarrow>
   kept_by p (case x of None \<Rightarrow> a | Some y \<Rightarrow> f y)"
  by (cases x) auto

lemma kept_prod [kept_intros]:
  "(\<And>a b. x = (a, b) \<Longrightarrow> kept_by p (f a b)) \<Longrightarrow> kept_by p (case x of (a, b) \<Rightarrow> f a b)"
  by (cases x) auto

lemma kept_Let [kept_intros]: "kept_by p (f t) \<Longrightarrow> kept_by p (Let t f)"
  by simp

lemma kept_nidfilter: "node_ok s \<Longrightarrow> kept_by (\<lambda>s. s) (thread_nidfilter ip s)"
  unfolding thread_nidfilter_def by (rule kept_intros | simp)+

lemma kept_ph_deliver: "node_ok s \<Longrightarrow> kept_by (\<lambda>s. s) (ph_deliver raw_ok d s)"
  by (auto simp: ph_deliver_def raw_sendto_def kept_by_def Let_def split: option.splits if_splits)

lemma kept_ph_input: "node_ok s \<Longrightarrow> kept_by (\<lambda>s. s) (thread_ph_input raw_ok s)"
  unfolding thread_ph_input_def
  by (rule kept_intros kept_safe [OF safe_newNMEntry] kept_ph_deliver | simp)+

lemma kept_dhcp: "node_ok s \<Longrightarrow> kept_by (\<lambda>s. s) (thread_dhcp d s)"
proof -
  have conf: "kept_by (\<lambda>s. s) (set_conf_dhcp str s)" if "node_ok s" for str s
    unfolding set_conf_dhcp_def
    by (rule kept_intros kept_safe [OF safe_updateNM] | simp add: that updatePH_def update_dns_server_address_def)+
  show "node_ok s \<Longrightarrow> kept_by (\<lambda>s. s) (thread_dhcp d s)"
    unfolding thread_dhcp_def
    by (rule kept_if kept_Let kept_None kept_pure conf | simp)+
qed

lemma kept_dht_get: "node_ok s \<Longrightarrow> kept_by snd (thread_dht_get server clk s)"
  unfolding thread_dht_get_def
  by (rule kept_list kept_option kept_Let kept_if kept_Some kept_bind [OF kept_safe [OF safe_dht_unqueue]]
      kept_bind [OF kept_safe [OF safe_addDHTEntry]] kept_pure | simp)+

lemma kept_dns_learn: "node_ok s \<Longrightarrow> kept_by snd (dns_learn nids s)"
proof -
  assume ok: "node_ok s"
  obtain a b where ab: "get_nids nids = (a, b)" by (cases "get_nids nids")
  show ?thesis
  proof (cases "inet_pton6 a = None \<or> inet_pton6 b = None")
    case True
    then show ?thesis using ok ab by (auto simp: dns_learn_def kept_by_def split: option.splits)
  next
    case False
    then obtain nid gw where "inet_pton6 a = Some nid" "inet_pton6 b = Some gw" by auto
    from dns_learn_spec [OF node_okD(1) [OF ok] ab this] show ?thesis
      using ok by (auto simp: kept_by_def intro: node_ok_nm)
  qed
qed

lemma kept_newFQDNTEntry:
  assumes "node_ok s" "fqdn_ok (fqdnTable s)"
  shows "kept_by snd (newFQDNTEntry f p s)"
  using assms by (auto simp: kept_by_def newFQDNTEntry_def table_simps intro!: node_ok_tables)

lemma kept_dns_known: "node_ok s \<Longrightarrow> kept_by snd (dns_known client nids ty s)"
  unfolding dns_known_def
  by (rule kept_bind [OF kept_dns_learn] kept_prod kept_option kept_Some kept_pure | simp add: dns_reply_def)+

lemma kept_dns_ask:
  "node_ok s \<Longrightarrow> fqdn_ok (fqdnTable s) \<Longrightarrow> kept_by snd (dns_ask server client rc f ty s)"
  unfolding dns_ask_def
  by (rule kept_bind [OF kept_newFQDNTEntry] kept_bind [OF kept_dns_learn] kept_prod kept_option kept_Some kept_if
      kept_Let kept_pure | simp add: dns_reply_def)+

lemma kept_dnshandler:
  assumes "node_ok s" "Dnshandler \<in> set (threads s)"
  shows "kept_by snd (thread_dnshandler server client d s)"
proof -
  have "fqdn_ok (fqdnTable s)" using assms by (simp add: node_ok_def)
  with assms(1) show ?thesis unfolding thread_dnshandler_def
    by - (rule kept_dns_known kept_dns_ask kept_prod kept_option kept_pure kept_Let kept_list | simp)+
qed

section \<open>Reachable states\<close>

lemma node_ok_stop: "node_ok s \<Longrightarrow> node_ok (s\<lparr>threads := filter P (threads s)\<rparr>)"
  by (simp add: node_ok_defs)

lemma safe_step: "safe r \<Longrightarrow> r = Some s' \<Longrightarrow> node_ok s'"
  by (auto simp: safe_by_def)

lemma kept_step: "kept_by p r \<Longrightarrow> r = Some x \<Longrightarrow> node_ok (p x)"
  by (auto simp: kept_by_def)

lemma safe_not_None: "safe r \<Longrightarrow> r \<noteq> None"
  by (auto simp: safe_by_def)

lemmas safe_threads = safe_nr_output safe_nr_output_gw safe_nr_output_core safe_nr_input safe_nr_input_gw
  safe_gw_listener safe_gw_core_listener safe_gw_talker safe_control safe_ph_output safe_rvs_update
  safe_rvs_proxy safe_rvs_get safe_mobility

lemma nidd_step_ok:
  assumes "nidd_step s s'" "node_ok s"
  shows "node_ok s'"
  using assms
proof (induction rule: nidd_step.induct)
  case (filter s ip s')
  then show ?case using kept_step [OF kept_nidfilter] by blast
next
  case (ph_input s raw_ok s')
  then show ?case using kept_step [OF kept_ph_input] by blast
next
  case (dhcp s d s')
  then show ?case using kept_step [OF kept_dhcp] by blast
next
  case (dht_get s server clk go s')
  then show ?case using kept_step [OF kept_dht_get] node_ok_stop by fastforce
next
  case (dht_update s connected nid coreIP)
  then show ?case using node_ok_stop by fastforce
next
  case (dns s dns_server client d go s')
  then show ?case using kept_step [OF kept_dnshandler] node_ok_stop by fastforce
qed (blast intro: safe_threads [THEN safe_step])+

lemma nidd_reach_ok: "nidd_reach s s' \<Longrightarrow> node_ok s \<Longrightarrow> node_ok s'"
  by (induction rule: nidd_reach.induct) (auto intro: nidd_step_ok)

section \<open>Start-up\<close>

lemma node_ok_start:
  "node_ok s \<Longrightarrow> node_ok (thr_start thr (s\<lparr>threads := threads s @ [thr]\<rparr>))"
  by (cases thr) (simp_all add: thr_start_def node_ok_defs ph_output_start_def rvs_update_start_def
      rvs_get_start_def init_dhtable_def init_fqdn_table_def nidt.ok_construct fqdnt.ok_construct)

lemma thr_start_frame [simp]:
  "threads (thr_start thr s) = threads s" "lib_counter (thr_start thr s) = lib_counter s"
  "cf_dns (thr_start thr s) = cf_dns s" "cf_dht (thr_start thr s) = cf_dht s"
  "cf_dhcp (thr_start thr s) = cf_dhcp s" "cf_type (thr_start thr s) = cf_type s" "cf_primaryIface (thr_start thr s) = cf_primaryIface s"
  by (cases thr, simp_all add: thr_start_def ph_output_start_def rvs_update_start_def rvs_get_start_def
      init_dhtable_def init_fqdn_table_def)+

definition thr_names :: "thr_spec list \<Rightarrow> thr list" where
  "thr_names ts = map (\<lambda>(lib, func, thr). thr) ts"

lemma start_threads_ok:
  assumes "node_ok s" "list_all (\<lambda>(lib, func, thr). libs lib func) ts" "lib_counter s + length ts \<le> LIB_DB_SIZE"
  shows "\<exists>s'. start_threads libs ts s = Some s' \<and> node_ok s' \<and> lib_counter s' = lib_counter s + length ts \<and>
    threads s' = threads s @ thr_names ts \<and> cf_dns s' = cf_dns s \<and> cf_dhcp s' = cf_dhcp s"
  using assms
proof (induction ts arbitrary: s)
  case Nil
  then show ?case by (simp add: thr_names_def)
next
  case (Cons t ts)
  obtain lib func thr where t: "t = (lib, func, thr)" by (cases t)
  let ?s = "s\<lparr>lib_counter := lib_counter s + 1\<rparr>"
  let ?s1 = "thr_start thr (?s\<lparr>threads := threads s @ [thr]\<rparr>)"
  have "node_ok ?s1" using node_ok_start [of ?s thr] Cons.prems(1) by simp
  then obtain s' where "start_threads libs ts ?s1 = Some s'" "node_ok s'"
      "lib_counter s' = lib_counter ?s1 + length ts" "threads s' = threads ?s1 @ thr_names ts"
      "cf_dns s' = cf_dns ?s1" "cf_dhcp s' = cf_dhcp ?s1"
    using Cons.IH [of ?s1] Cons.prems by auto
  then show ?case using Cons.prems by (simp add: t open_lib_def thr_names_def)
qed

text \<open>The command line of the DHCP client never fits.\<close>

lemma run_dhcpcd_overflow: "get_dhcp s \<noteq> 0 \<Longrightarrow> run_dhcpcd s = None"
  by (simp add: run_dhcpcd_def dhcpcd_command_def)

text \<open>
  A process before \<open>main\<close>: no thread, no library, no pending request, and the file-scope variable
  \<open>nid32dns\<close> of the identity mapper at zero. The tables are not constrained.
\<close>

definition fresh :: "node \<Rightarrow> bool" where
  "fresh s \<longleftrightarrow> nm_nid32dns s = 0 \<and> sp_cm2rvs s = [] \<and> threads s = [] \<and> lib_counter s = 0"

lemma get_data_more:
  assumes "get_data content ns c = Some c'"
  shows "conf.more c' = conf.more c"
proof (rule get_data_keeps [where P = "\<lambda>x. conf.more x = conf.more c", OF _ _ _ assms refl])
  fix pt
  let ?P = "\<lambda>x. conf.more x = conf.more c"
  show "run_keeps ?P (get_data_node content pt)" unfolding get_data_node_def
    by (intro run_keeps_intros on_tag_keeps)
      (simp_all add: run_keeps_def setNID32_eq update_dns_server_address_def Let_def)
  show "run_keeps ?P (get_data_core content pt)" unfolding get_data_core_def
    by (intro run_keeps_intros on_tag_keeps) (simp_all add: run_keeps_def)
  show "run_keeps ?P (get_data_iface content pt)" unfolding get_data_iface_def
    by (intro run_keeps_intros on_tag_keeps) (simp_all add: run_keeps_def set_iface_def)
qed

lemma read_config_fresh:
  assumes "read_config content doc s = Some c" "fresh s"
  shows "fresh c"
proof -
  have "conf.more c = conf.more s"
    using assms(1) by (auto simp: read_config_def get_data_more split: option.splits)
  then show ?thesis using assms(2) by (cases c; cases s) (simp add: fresh_def)
qed

lemma nidd_tables_ok:
  assumes "fresh s"
  shows "\<exists>s'. nidd_tables j32 j jgw s = Some s' \<and> node_ok s' \<and> threads s' = [] \<and> lib_counter s' = 0 \<and>
    cf_type s' = cf_type s \<and> cf_dhcp s' = cf_dhcp s \<and> cf_dht s' = cf_dht s \<and> cf_dns s' = cf_dns s"
proof -
  have "nm_nid32dns s = 0" using assms by (simp add: fresh_def)
  from init_nid_mapper_spec [OF this] obtain t t32 where
    "init_nid_mapper j32 j jgw s = Some (s\<lparr>nidTable := t, nid32Table := t32\<rparr>)"
    "nm_ok (s\<lparr>nidTable := t, nid32Table := t32\<rparr>)" by blast
  then show ?thesis using assms
    by (auto simp: nidd_tables_def fresh_def node_ok_defs init_registry_table_def init_dhtable_def
        init_dht_queue_table_def init_rvs_queue_table_def init_rtable_def init_conn_mapper_def
        nidt.ok_construct lockt_construct)
qed

text \<open>A node set up from configuration \<open>c\<close>, with no thread yet; \<open>started c ts s\<close> when \<open>ts\<close> run.\<close>

definition started :: "node \<Rightarrow> thr list \<Rightarrow> node \<Rightarrow> bool" where
  "started c ts s \<longleftrightarrow> node_ok s \<and> threads s = ts \<and> lib_counter s = length ts \<and>
     cf_type s = cf_type c \<and> cf_dhcp s = cf_dhcp c \<and> cf_dht s = cf_dht c \<and> cf_dns s = cf_dns c"

definition starts :: "node \<Rightarrow> thr list \<Rightarrow> node run \<Rightarrow> bool" where
  "starts c ts r \<longleftrightarrow> (\<exists>s. r = Some s \<and> started c ts s)"

lemma starts_bind:
  "starts c rs f \<Longrightarrow> (\<And>s. started c rs s \<Longrightarrow> starts c ts (g s)) \<Longrightarrow> starts c ts (f \<bind> g)"
  by (auto simp: starts_def)

lemma starts_ops:
  assumes "started c ts s"
  shows "starts c ts (newNMEntry nid gw s)" "starts c ts (staticCMEntry nid ip s)"
    "starts c ts (staticRTEntry nid ip s)"
proof -
  have ok: "node_ok s" using assms by (simp add: started_def)
  show "starts c ts (newNMEntry nid gw s)"
    using newNMEntry_ok [of s nid gw] node_okD [OF ok] node_ok_nm [OF ok] assms by (auto simp: starts_def started_def)
  show "starts c ts (staticCMEntry nid ip s)"
    using staticCMEntry_spec [of s nid ip] node_okD [OF ok] node_ok_tables(1) [OF ok] assms
    by (auto simp: starts_def started_def)
  show "starts c ts (staticRTEntry nid ip s)"
    using staticRTEntry_spec [of s nid ip] node_okD [OF ok] node_ok_tables(2) [OF ok] assms
    by (auto simp: starts_def started_def)
qed

lemma starts_threads:
  assumes "started c rs s" "\<And>lib func. libs lib func" "length rs + length ts \<le> LIB_DB_SIZE"
  shows "starts c (rs @ thr_names ts) (start_threads libs ts s)"
  using assms
proof (induction ts arbitrary: rs s)
  case Nil
  then show ?case by (simp add: thr_names_def starts_def)
next
  case (Cons t ts)
  obtain lib func thr where t: "t = (lib, func, thr)" by (cases t)
  let ?s1 = "thr_start thr (s\<lparr>lib_counter := lib_counter s + 1, threads := threads s @ [thr]\<rparr>)"
  have "started c (rs @ [thr]) ?s1"
    using node_ok_start [of "s\<lparr>lib_counter := lib_counter s + 1\<rparr>" thr] Cons.prems(1) by (simp add: started_def)
  from Cons.IH [OF this Cons.prems(2)] Cons.prems
  show ?case by (simp add: t open_lib_def thr_names_def started_def)
qed

lemma starts_dhcpcd: "started c ts s \<Longrightarrow> cf_dhcp c = 0 \<Longrightarrow> starts c ts (run_dhcpcd s)"
  by (simp add: starts_def started_def run_dhcpcd_def)

text \<open>The threads of each kind of node.\<close>

definition type_threads :: "node \<Rightarrow> thr list" where
  "type_threads s =
     (let dns = if cf_dns s = 0 then [] else [Dnshandler] in
      if cf_type s = NODE then [Dhcp, Nidfilter, Ph_output, Ph_input, Nr_output, Nr_input, Rvs_update, Rvs_get,
        Mobility_thread, Control_node] @ dns
      else if cf_type s = RVS then [Nidfilter, Ph_output, Ph_input, Nr_output, Nr_input, Rvs_proxy_recv,
        Rvs_proxy_send, Control_rvs, Rvs_update, Rvs2gw] @ dns
      else if cf_type s = GATEWAY then [Dhcp, Nidfilter, Ph_output, Ph_input, Nr_output_gw, Nr_input_gw,
        Mobility_thread, Rvs_update, Control_gw, Gw_talker, Gw_listener] @ dns
      else if cf_type s = CORE then [Nidfilter, Ph_output, Ph_input, Nr_output_core, Nr_input_gw, Control_gw_core,
        Gw_core_listener] @ (if cf_dht s = 0 then [] else [Dht_update, Dht_get]) @ dns
      else [])"

lemma starts_list:
  assumes "started c rs s" "\<And>lib func. libs lib func" "length rs + length ts \<le> LIB_DB_SIZE"
    "rs @ thr_names ts = ts'"
  shows "starts c ts' (start_threads libs ts s)"
  using starts_threads [OF assms(1-3)] assms(4) by simp

lemma thr_names_simps:
  "thr_names [] = []" "thr_names ((lib, func, thr) # ts) = thr # thr_names ts"
  "thr_names (ts @ ts') = thr_names ts @ thr_names ts'"
  by (simp_all add: thr_names_def)

lemmas starts_defs = thr_names_simps type_threads_def dns_thread_def started_def

lemma starts_dhcp:
  assumes "started c [] s" "\<And>lib func. libs lib func"
  shows "starts c [Dhcp] (start_threads libs [(''libdhcp.so'', ''thread_dhcp'', Dhcp)] s)"
  by (rule starts_list [OF assms]) (simp_all add: thr_names_simps)

lemma starts_node:
  assumes "started c [] s" "\<And>lib func. libs lib func" "cf_dhcp c = 0" "cf_type c = NODE"
  shows "starts c (type_threads c) (start_node libs s)"
  unfolding start_node_def
  apply (rule starts_bind starts_ops starts_dhcp starts_dhcpcd assms | assumption)+
   apply (rule starts_list, assumption, rule assms)
  using assms(3,4) by (simp_all add: starts_defs)

lemma starts_rvs:
  assumes "started c [] s" "\<And>lib func. libs lib func" "cf_type c = RVS"
  shows "starts c (type_threads c) (start_rvs libs s)"
  unfolding start_rvs_def
  apply (rule starts_bind starts_ops assms | assumption)+
   apply (rule starts_list, assumption, rule assms)
  using assms(3) by (simp_all add: starts_defs)

lemma starts_gateway:
  assumes "started c [] s" "\<And>lib func. libs lib func" "cf_dhcp c = 0" "cf_type c = GATEWAY"
  shows "starts c (type_threads c) (start_gateway libs s)"
  unfolding start_gateway_def
  apply (rule starts_bind starts_ops starts_dhcp starts_dhcpcd assms | assumption)+
   apply (rule starts_list, assumption, rule assms)
  using assms(3,4) by (simp_all add: starts_defs)

lemma starts_core:
  assumes "started c [] s" "\<And>lib func. libs lib func" "cf_type c = CORE"
  shows "starts c (type_threads c) (start_core libs s)"
  unfolding start_core_def
  apply (rule starts_bind starts_ops assms | assumption)+
   apply (rule starts_list, assumption, rule assms)
  using assms(3) by (simp_all add: starts_defs)

lemma starts_type:
  assumes s: "started c [] s" and libs: "\<And>lib func. libs lib func"
    and dhcp: "cf_dhcp c = 0 \<or> cf_type c \<noteq> NODE \<and> cf_type c \<noteq> GATEWAY"
  shows "starts c (type_threads c) (start_type libs s)"
proof -
  have ty: "cf_type s = cf_type c" using s by (simp add: started_def)
  have other: "starts c (type_threads c) (Some s)"
    if "cf_type c \<notin> {NODE, RVS, GATEWAY, CORE}"
    using that s by (simp add: starts_def type_threads_def)
  show ?thesis using dhcp other unfolding start_type_def getType_def ty
    by (auto intro: starts_node [OF s libs] starts_rvs [OF s libs] starts_gateway [OF s libs] starts_core [OF s libs])
qed

text \<open>Start-up as a whole.\<close>

lemma nidd_main_starts:
  assumes "fresh s" "read_config content doc s = Some c" "\<And>lib func. libs lib func"
    "cf_dhcp c = 0 \<or> cf_type c \<noteq> NODE \<and> cf_type c \<noteq> GATEWAY"
  shows "starts c (type_threads c) (nidd_main libs content doc j32 j jgw s)"
proof -
  obtain s1 where s1: "nidd_tables j32 j jgw c = Some s1" "started c [] s1"
    using nidd_tables_ok [OF read_config_fresh [OF assms(2,1)], of j32 j jgw] by (auto simp: started_def)
  show ?thesis using starts_type [OF s1(2) assms(3,4)] s1 assms(2) by (simp add: nidd_main_def)
qed

lemma length_type_threads: "length (type_threads c) \<le> LIB_DB_SIZE"
  by (simp add: type_threads_def Let_def)

text \<open>With the DHCP client asked for, no mobile node and no gateway comes up.\<close>

lemma bind_None: "(\<And>x. f = Some x \<Longrightarrow> g x = None) \<Longrightarrow> f \<bind> g = None"
  by (cases f) auto

lemma started_dhcpcd_None: "started c ts s \<Longrightarrow> cf_dhcp c \<noteq> 0 \<Longrightarrow> run_dhcpcd s = None"
  by (rule run_dhcpcd_overflow) (simp add: started_def)

lemma starts_then_None:
  "starts c ts f \<Longrightarrow> (\<And>s. started c ts s \<Longrightarrow> g s = None) \<Longrightarrow> f \<bind> g = None"
  by (auto simp: starts_def)

lemma bind_None_left: "f = None \<Longrightarrow> f \<bind> g = None"
  by simp

lemma start_dhcp_None:
  assumes "started c [] s" "\<And>lib func. libs lib func" "cf_dhcp c \<noteq> 0" "cf_type c = NODE \<or> cf_type c = GATEWAY"
  shows "start_type libs s = None"
proof -
  have ty: "cf_type s = cf_type c" using assms(1) by (simp add: started_def)
  have "start_node libs s = None" unfolding start_node_def
    by (rule starts_then_None starts_ops starts_dhcp assms bind_None_left started_dhcpcd_None | assumption)+
  moreover have "start_gateway libs s = None" unfolding start_gateway_def
    by (rule starts_then_None starts_ops starts_dhcp assms bind_None_left started_dhcpcd_None | assumption)+
  ultimately show ?thesis using assms(4) by (auto simp: start_type_def ty)
qed

lemma nidd_main_dhcp_None:
  assumes "fresh s" "read_config content doc s = Some c" "\<And>lib func. libs lib func" "cf_dhcp c \<noteq> 0"
    "cf_type c = NODE \<or> cf_type c = GATEWAY"
  shows "nidd_main libs content doc j32 j jgw s = None"
proof -
  obtain s1 where s1: "nidd_tables j32 j jgw c = Some s1" "started c [] s1"
    using nidd_tables_ok [OF read_config_fresh [OF assms(2,1)], of j32 j jgw] by (auto simp: started_def)
  show ?thesis using start_dhcp_None [OF s1(2) assms(3-5)] s1(1) assms(2) by (simp add: nidd_main_def)
qed

text \<open>Whenever start-up returns, the tables are sound.\<close>

lemma kept_start_threads: "node_ok s \<Longrightarrow> kept_by (\<lambda>s. s) (start_threads libs ts s)"
proof (induction ts arbitrary: s)
  case Nil
  then show ?case by (simp add: kept_by_def)
next
  case (Cons t ts)
  obtain lib func thr where t: "t = (lib, func, thr)" by (cases t)
  have "node_ok (thr_start thr (s\<lparr>lib_counter := lib_counter s + 1, threads := threads s @ [thr]\<rparr>))"
    using node_ok_start [of "s\<lparr>lib_counter := lib_counter s + 1\<rparr>" thr] Cons.prems by simp
  from Cons.IH [OF this] show ?case by (auto simp: t open_lib_def kept_by_def)
qed

lemma kept_run_dhcpcd: "node_ok s \<Longrightarrow> kept_by (\<lambda>s. s) (run_dhcpcd s)"
  by (simp add: run_dhcpcd_def kept_by_def)

lemmas kept_start = kept_bind [OF kept_safe [OF safe_newNMEntry]] kept_bind [OF kept_safe [OF safe_staticCMEntry]]
  kept_bind [OF kept_safe [OF safe_staticRTEntry]] kept_bind [OF kept_start_threads] kept_bind [OF kept_run_dhcpcd]
  kept_start_threads

lemma kept_start_type: "node_ok s \<Longrightarrow> kept_by (\<lambda>s. s) (start_type libs s)"
  unfolding start_type_def start_node_def start_rvs_def start_gateway_def start_core_def
  by (rule kept_if kept_Some kept_start | assumption)+

lemma nidd_main_kept:
  assumes "fresh s" "nidd_main libs content doc j32 j jgw s = Some s'"
  shows "node_ok s'"
proof -
  obtain c s1 where c: "read_config content doc s = Some c" "nidd_tables j32 j jgw c = Some s1"
      "start_type libs s1 = Some s'" using assms(2) by (auto simp: nidd_main_def bind_eq_Some_conv)
  have "node_ok s1" using nidd_tables_ok [OF read_config_fresh [OF c(1) assms(1)], of j32 j jgw] c(2) by auto
  then show ?thesis using kept_step [OF kept_start_type c(3)] by simp
qed

text \<open>The memory of a process before \<open>main\<close>: everything is zero and the pointers to the tables are null.\<close>

definition null_table :: "('k, 'd) hash_table" where
  "null_table = \<lparr>ht_size = 0, ht_table = []\<rparr>"

definition zero_header :: NID_header where
  "zero_header = \<lparr>h_type = 0, h_srcNID = 0, h_destNID = 0, h_srcNIDgw = 0, h_destNIDgw = 0\<rparr>"

definition boot :: node where
  "boot = \<lparr>
     cf_type = 0, cf_gatewayPort = 0, cf_dhtPort = 0, cf_rvsTimeout = 0, cf_dhcp = 0, cf_dht = 0, cf_dns = 0,
     cf_mobility = 0, cf_primaryIface = [], cf_nid = 0, cf_nidgw = 0, cf_nidrvs = 0, cf_nidcore = 0,
     cf_nidcorehome = 0, cf_niddns = 0, cf_niddht = 0, cf_nid32 = 0, cf_gatewayIP = 0, cf_rvsIP = 0,
     cf_dhtIP = 0, cf_ip = 0, server_address = [],
     queue_table = null_table, dht_queue_table = null_table,
     connmap = null_table, cm_nidgw = 0, cm_nidrvs = 0, cm_gatewayIP = 0, cm_rvsIP = 0, sp_cm2rvs = [],
     nidTable = null_table, nid32Table = null_table, nm_niddns = 0, nm_nid32dns = 0,
     rtable = null_table, rt_nidgw = 0, rt_gatewayIP = 0,
     registry_table = null_table, sp_co2gwl = [], sp_gwl2gwt = [], sp_rvs2gwt = [], sp_gwt2ph = [],
     gwl_nmsg = zero_msg, gwt_nmsg = zero_msg,
     dhtable = null_table, sp_dht = [], dg_nid = 0, dg_nid32 = 0, dg_aux = replicate 46 0,
     sp_ph2nr = [], sp_nr2ph = [], sp_nr = [], nro_buf = replicate MAXBUFLEN 0, nri_buf = replicate MAXBUFLEN 0,
     net_out = [],
     sp_nf2ph = [], sp_rvs2ph = [], sp_mo2ph = [], sp_ph2co = [], ph_nidcore = 0, pho_nh = zero_header,
     pho_pt = replicate ph_size 0, phi_buf = replicate MAXBUFLEN 0, raw_out = [],
     sp_co2rvs = [], rvs_out = [], rps_nmsg = zero_msg, rpr_rvs_msg = zero_msg, rvsu_nmsg = zero_msg,
     rvsg_nmsg = zero_msg, rvs2gw_nmsg = zero_msg,
     co_nmsg = zero_msg, mo_count = 0,
     fqdnTable = null_table, dns_buffer = replicate BUFFER_LENGTH 0, dns_ansAns = replicate 256 0, dns_out = [],
     lib_counter = 0, threads = []\<rparr>"

lemma boot_fresh: "fresh boot"
  by (simp add: fresh_def boot_def)

text \<open>The same process with its tables constructed, as a running node has them.\<close>

definition node0 :: node where
  "node0 = boot\<lparr>queue_table := construct_hash_table True 10, dht_queue_table := construct_hash_table True 10,
     connmap := construct_hash_table True 20, nidTable := construct_hash_table True 10,
     nid32Table := construct_hash_table32 True 10, rtable := construct_hash_table True 30,
     registry_table := construct_hash_table True 30, dhtable := construct_hash_table True 30,
     fqdnTable := construct_fqdn_hash_table True 100\<rparr>"

lemma node0_fields:
  "queue_table node0 = construct_hash_table True 10" "dht_queue_table node0 = construct_hash_table True 10"
  "connmap node0 = construct_hash_table True 20" "nidTable node0 = construct_hash_table True 10"
  "nid32Table node0 = construct_hash_table32 True 10" "rtable node0 = construct_hash_table True 30"
  "registry_table node0 = construct_hash_table True 30" "dhtable node0 = construct_hash_table True 30"
  "fqdnTable node0 = construct_fqdn_hash_table True 100"
  by (simp_all add: node0_def)

lemma node0_ok: "node_ok node0"
  by (auto simp: node_ok_defs node0_fields nidt.ok_construct nid32t.ok_construct fqdnt.ok_construct lockt_construct
      nidt.view_construct nid32t.view_construct) (simp_all add: node0_def boot_def linked_def)

end
