(* ===== verification/Network.thy ===== *)
theory Network
  imports Daemon_Safety
begin

text \<open>
  Several nodes and the rendez-vous server together: the way of a packet and of a control message
  through the threads of one node and over the network to the next. Each composition is the
  iterations of the threads that hand the datagram on, in the order the socket pairs impose; the
  network between two nodes is the pair of locator and datagram the sending socket collects and the
  receiving thread is given.

  Shown: what one node puts on the network for a packet or a message of its own, what a gateway
  does with a packet it relays, and what the receiving node does with it, with the state each leaves
  behind. The end-to-end properties are compositions of these.
\<close>

section \<open>Ways through a node\<close>

text \<open>From a packet or message waiting in the packet handler's queues to the network.\<close>

definition originate :: "clock \<Rightarrow> node \<Rightarrow> node run" where
  "originate clk s = thread_ph_output s \<bind> thread_nr_output clk"

text \<open>From the network to the application or the control thread.\<close>

definition arrive :: "(byte \<Rightarrow> byte list \<Rightarrow> bool) \<Rightarrow> clock \<Rightarrow> NID32 \<Rightarrow> byte list \<Rightarrow> node \<Rightarrow> node run" where
  "arrive raw_ok clk src d s = thread_nr_input clk src d s \<bind> thread_ph_input raw_ok"

text \<open>Through a gateway.\<close>

definition relay :: "clock \<Rightarrow> clock \<Rightarrow> clock \<Rightarrow> NID32 \<Rightarrow> byte list \<Rightarrow> node \<Rightarrow> node run" where
  "relay clk clk1 clk2 src d s = thread_nr_input_gw clk src d s \<bind> thread_nr_output_gw clk1 clk2"

text \<open>A request at the node of the rendez-vous service, to its server, and the answer back.\<close>

definition rvs_round :: "clock \<Rightarrow> time \<Rightarrow> node \<Rightarrow> rvs_state \<Rightarrow> (node \<times> rvs_state) run" where
  "rvs_round clk now r v = do {
     r \<leftarrow> thread_control_rvs clk r;
     r \<leftarrow> thread_rvs_proxy_send r;
     (reply, v) \<leftarrow> rvs_main now (last (rvs_out r)) v;
     r \<leftarrow> thread_rvs_proxy_recv reply r;
     Some (r, v)
   }"

section \<open>Sending\<close>

lemma ph_from_filter_frame:
  assumes "ph_from_filter d s = Some s'"
  shows "\<exists>pt nh q. s' = s\<lparr>pho_pt := pt, pho_nh := nh, sp_ph2nr := q\<rparr>"
proof (cases "getNMEntry32 (ip_daddr (pho_pt (ph_read d s))) (ph_read d s)")
  case None
  then show ?thesis using assms by (simp add: ph_from_filter_def)
next
  case (Some e)
  show ?thesis
  proof (cases e)
    case None
    then have "s' = s\<lparr>pho_pt := pho_pt s', pho_nh := pho_nh s, sp_ph2nr := sp_ph2nr s\<rparr>"
      using Some assms by (auto simp: ph_from_filter_def ph_read_def)
    then show ?thesis by blast
  next
    case (Some e')
    then have "s' = s\<lparr>pho_pt := pho_pt s', pho_nh := pho_nh s', sp_ph2nr := sp_ph2nr s'\<rparr>"
      using \<open>getNMEntry32 _ _ = Some e\<close> assms by (auto simp: ph_from_filter_def ph_read_def ph_write_def)
    then show ?thesis by blast
  qed
qed

text \<open>The last step of every way out: the one datagram in the queue goes to its locator.\<close>

definition same_in :: "node \<Rightarrow> node \<Rightarrow> bool" where
  "same_in s s' \<longleftrightarrow> sp_nr2ph s' = sp_nr2ph s \<and> sp_ph2co s' = sp_ph2co s \<and> cf_nid s' = cf_nid s \<and>
     cf_nidrvs s' = cf_nidrvs s \<and> raw_out s' = raw_out s"

lemma send_one:
  assumes "cm_ok s" "sp_ph2nr s = [encode_header h @ p]" "length p \<le> ph_size"
  shows "\<exists>s'. thread_nr_output clk s = Some s' \<and>
    net_out s' = net_out s @ [(cm_locator clk (h_destNID h) s, encode_header h @ p)] \<and> same_in s s'"
proof -
  have "decode_header (encode_header h @ p) = h" by (simp add: codec_simps)
  then show ?thesis using thread_nr_output_spec [OF assms(1,2), of clk] assms(3) by (auto simp: same_in_def)
qed

lemma originate_data:
  assumes ok: "node_ok s" and p: "sp_nf2ph s = p # ds" "sp_ph2nr s = []" "20 \<le> length p" "length p \<le> ph_size"
    and dest: "nm_pair s (ip_daddr p) = Some (nid, gw)"
  shows "\<exists>s'. originate clk s = Some s' \<and> node_ok s' \<and>
    net_out s' = net_out s @ [(cm_locator clk nid s, encode_header (data_header s (nid, gw)) @ p)]"
proof -
  let ?s = "s\<lparr>sp_nf2ph := ds\<rparr>"
  have "nid32_ok (nid32Table ?s)" using ok by (simp add: node_ok_defs)
  then obtain s1 where s1: "ph_from_filter p ?s = Some s1"
      "sp_ph2nr s1 = [encode_header (data_header s (nid, gw)) @ p]"
    using ph_from_filter_spec [of ?s p] p dest by (auto simp: nm_pair_def data_header_def)
  obtain pt nh q where fr: "s1 = ?s\<lparr>pho_pt := pt, pho_nh := nh, sp_ph2nr := q\<rparr>"
    using ph_from_filter_frame [OF s1(1)] by blast
  have run: "thread_ph_output s = Some s1" using p s1 by (simp add: thread_ph_output_def)
  have ok1: "node_ok s1" using safe_step [OF safe_ph_output [OF ok] run] .
  obtain s2 where s2: "thread_nr_output clk s1 = Some s2"
      "net_out s2 = net_out s1 @ [(cm_locator clk nid s1, encode_header (data_header s (nid, gw)) @ p)]"
    using send_one [OF _ s1(2) p(4), of clk] node_okD [OF ok1] by (auto simp: data_header_def)
  moreover have "node_ok s2" using safe_step [OF safe_nr_output [OF ok1] s2(1)] .
  ultimately show ?thesis using run fr by (auto simp: originate_def cm_locator_def)
qed

text \<open>The header of a message of the rendez-vous or the mobility thread.\<close>

definition own_header :: "node \<Rightarrow> NID_msg \<Rightarrow> NID_header" where
  "own_header s m = (pho_nh s)\<lparr>h_type := m_type m, h_srcNID := m_srcNID m, h_destNID := m_destNID m\<rparr>"

lemma ph_from_msg_frame:
  "\<exists>pt nh q. ph_from_msg d s = s\<lparr>pho_pt := pt, pho_nh := nh, sp_ph2nr := q\<rparr>"
  by (simp add: ph_from_msg_def ph_read_def ph_write_def Let_def) blast

lemma originate_msg:
  assumes ok: "node_ok s" and p: "sp_nf2ph s = []" "sp_rvs2ph s = encode_msg m # ds" "sp_ph2nr s = []"
  shows "\<exists>s'. originate clk s = Some s' \<and> node_ok s' \<and>
    net_out s' = net_out s @ [(cm_locator clk (m_destNID m) s, encode_header (own_header s m) @ encode_msg m)] \<and>
    same_in s s'"
proof -
  let ?s = "s\<lparr>sp_rvs2ph := ds\<rparr>"
  let ?s1 = "ph_from_msg (encode_msg m) ?s"
  obtain pt nh q where fr: "?s1 = ?s\<lparr>pho_pt := pt, pho_nh := nh, sp_ph2nr := q\<rparr>"
    using ph_from_msg_frame by blast
  have run: "thread_ph_output s = Some ?s1" using p by (simp add: thread_ph_output_def)
  have ok1: "node_ok ?s1" using safe_step [OF safe_ph_output [OF ok] run] .
  have q1: "sp_ph2nr ?s1 = [encode_header (own_header s m) @ encode_msg m]"
    using p(3) by (simp add: ph_from_msg_spec own_header_def)
  obtain s2 where s2: "thread_nr_output clk ?s1 = Some s2"
      "net_out s2 = net_out ?s1 @ [(cm_locator clk (m_destNID m) ?s1, encode_header (own_header s m) @ encode_msg m)]"
      "same_in ?s1 s2"
    using send_one [OF _ q1, of clk] node_okD [OF ok1] by (auto simp: own_header_def)
  moreover have "node_ok s2" using safe_step [OF safe_nr_output [OF ok1] s2(1)] .
  ultimately show ?thesis using run fr by (auto simp: originate_def cm_locator_def same_in_def)
qed

section \<open>Relaying\<close>

lemma relay_packet:
  assumes ok: "node_ok g" and d: "nh_len \<le> length d" "length d \<le> MAXBUFLEN" "h_destNID (decode_header d) \<noteq> cf_nid g"
    and q: "sp_ph2nr g = []" "sp_nr g = []"
  shows "\<exists>g'. relay clk clk1 clk2 src d g = Some g' \<and> node_ok g' \<and>
    net_out g' = net_out g @ [(rt_locator clk2 (h_destNID (decode_header d)) g, d)]"
proof -
  let ?g = "g\<lparr>nri_buf := nr_read d (nri_buf g), sp_nr := [d]\<rparr>"
  have run: "thread_nr_input_gw clk src d g = Some ?g"
    using thread_nr_input_gw_spec [of g d clk src] node_okD [OF ok] d q by auto
  have ok1: "node_ok ?g" using safe_step [OF safe_nr_input_gw [OF ok] run] .
  obtain t where t: "thread_nr_output_gw clk1 clk2 ?g = Some (?g\<lparr>rtable := t, sp_nr := [], nro_buf := nr_read d (nro_buf ?g),
      net_out := net_out g @ [(rt_locator clk2 (h_destNID (decode_header d)) ?g, d)]\<rparr>)" "nid_ok t"
    using thread_nr_output_gw_route [of ?g d "[]" clk1 clk2] node_okD [OF ok] d q by auto
  moreover have "node_ok (?g\<lparr>rtable := t, sp_nr := [], nro_buf := nr_read d (nro_buf ?g),
      net_out := net_out g @ [(rt_locator clk2 (h_destNID (decode_header d)) ?g, d)]\<rparr>)"
    using safe_step [OF safe_nr_output_gw [OF ok1] t(1)] .
  ultimately show ?thesis using run
    by (auto simp: relay_def rt_locator_def cong: option.case_cong)
qed

section \<open>Receiving\<close>

text \<open>The state in which an own packet reaches the packet handler, and what was learnt on the way.\<close>

lemma arrive_own:
  assumes ok: "node_ok s" and d: "length p \<le> ph_size" "h_destNID h = cf_nid s" and q: "sp_nr2ph s = []"
  shows "\<exists>t buf. let s1 = s\<lparr>connmap := t, nri_buf := buf, sp_nr2ph := [encode_header h @ p]\<rparr> in
    thread_nr_input clk src (encode_header h @ p) s = Some s1 \<and> node_ok s1 \<and> decode_header buf = h \<and>
    nid_view t = learn (tv_sec (clk 0)) (h_srcNID h) src (conns s)"
proof -
  let ?d = "encode_header h @ p"
  have dec: "decode_header ?d = h" by (simp add: codec_simps)
  obtain t where t: "thread_nr_input clk src ?d s = Some (s\<lparr>connmap := t, nri_buf := nr_read ?d (nri_buf s),
      sp_nr2ph := [?d]\<rparr>)" "nid_view t = learn (tv_sec (clk 0)) (h_srcNID h) src (conns s)"
    using thread_nr_input_spec [of s ?d clk src] node_okD [OF ok] d q dec by auto
  then show ?thesis using safe_step [OF safe_nr_input [OF ok] t(1)]
    by - (rule exI [of _ t], rule exI [of _ "nr_read ?d (nri_buf s)"], simp add: codec_simps)
qed

text \<open>What a node has learnt from a packet with header \<open>h\<close> that came from \<open>src\<close>.\<close>

definition learnt_from :: "clock \<Rightarrow> NID_header \<Rightarrow> NID32 \<Rightarrow> node \<Rightarrow> node \<Rightarrow> bool" where
  "learnt_from clk h src s s' \<longleftrightarrow> node_ok s' \<and> cf_nid s' = cf_nid s \<and>
     conns s' = learn (tv_sec (clk 0)) (h_srcNID h) src (conns s) \<and>
     nm_gw s' = (nm_gw s)(h_srcNID h := Some (h_srcNIDgw h)) \<and>
     nm_pair s' = (nm_pair s)(nid2nid32 (h_srcNID h) := Some (h_srcNID h, h_srcNIDgw h))"

lemma arrive_data:
  assumes ok: "node_ok s" and d: "length p \<le> ph_size" "h_destNID h = cf_nid s" and q: "sp_nr2ph s = []"
    and ty: "h_type h = DATA" "10 \<le> length p" "ip_proto_known p" and raw: "raw_ok (ip_protocol p) p"
  shows "\<exists>s'. arrive raw_ok clk src (encode_header h @ p) s = Some s' \<and> learnt_from clk h src s s' \<and>
    raw_out s' = raw_out s @ [(ip_protocol p, p)] \<and> sp_nr2ph s' = [] \<and>
    decode_header (nri_buf s') = h \<and> decode_header (phi_buf s') = h \<and> ip_proto_known (drop nh_len (phi_buf s'))"
proof -
  obtain t buf where s1: "thread_nr_input clk src (encode_header h @ p) s
        = Some (s\<lparr>connmap := t, nri_buf := buf, sp_nr2ph := [encode_header h @ p]\<rparr>)"
      "node_ok (s\<lparr>connmap := t, nri_buf := buf, sp_nr2ph := [encode_header h @ p]\<rparr>)"
      "nid_view t = learn (tv_sec (clk 0)) (h_srcNID h) src (conns s)" "decode_header buf = h"
    using arrive_own [OF ok d q, of clk src] by (auto simp: Let_def)
  let ?s = "s\<lparr>connmap := t, nri_buf := buf, sp_nr2ph := [encode_header h @ p]\<rparr>"
  have "sp_nr2ph ?s = (encode_header h @ p) # []" by simp
  from thread_ph_input_data [OF node_okD(1) [OF s1(2)] this d(1) ty, of raw_ok] raw
  obtain u u32 where u: "thread_ph_input raw_ok ?s
      = Some ((ph_learnt h p [] u u32 ?s)\<lparr>raw_out := raw_out ?s @ [(ip_protocol p, p)]\<rparr>)"
    "ph_learns h ?s ((ph_learnt h p [] u u32 ?s)\<lparr>raw_out := raw_out ?s @ [(ip_protocol p, p)]\<rparr>)"
    by (auto simp: Let_def)
  have "node_ok ((ph_learnt h p [] u u32 ?s)\<lparr>raw_out := raw_out ?s @ [(ip_protocol p, p)]\<rparr>)"
    using kept_step [OF kept_ph_input [OF s1(2)] u(1)] .
  moreover have "decode_header (dgram_read MAXBUFLEN (encode_header h @ p) (phi_buf s)) = h"
      "ip_proto_known (drop nh_len (dgram_read MAXBUFLEN (encode_header h @ p) (phi_buf s)))"
    using phi_read [OF d(1), of h "phi_buf s"] ty by (simp_all add: ip_proto_known_def)
  ultimately show ?thesis using s1(1,3,4) u
    by (simp add: arrive_def learnt_from_def ph_learns_def ph_learnt_def nm_gw_def nm_pair_def)
qed

text \<open>The queues and settings the way in does not touch.\<close>

definition same_out :: "node \<Rightarrow> node \<Rightarrow> bool" where
  "same_out s s' \<longleftrightarrow> sp_nf2ph s' = sp_nf2ph s \<and> sp_rvs2ph s' = sp_rvs2ph s \<and> sp_ph2nr s' = sp_ph2nr s \<and>
     sp_co2rvs s' = sp_co2rvs s \<and> sp_rvs2gwt s' = sp_rvs2gwt s \<and> rvs_locks s' = rvs_locks s \<and> cf_nidgw s' = cf_nidgw s"

lemma arrive_msg:
  assumes ok: "node_ok s" and d: "length p \<le> ph_size" "h_destNID h = cf_nid s" and q: "sp_nr2ph s = []"
    and ty: "h_type h \<noteq> DATA" "control_type (h_type h)"
  shows "\<exists>s'. arrive raw_ok clk src (encode_header h @ p) s = Some s' \<and> learnt_from clk h src s s' \<and>
    sp_ph2co s' = sp_ph2co s @ [p] \<and> same_out s s'"
proof -
  obtain t buf where s1: "thread_nr_input clk src (encode_header h @ p) s
        = Some (s\<lparr>connmap := t, nri_buf := buf, sp_nr2ph := [encode_header h @ p]\<rparr>)"
      "node_ok (s\<lparr>connmap := t, nri_buf := buf, sp_nr2ph := [encode_header h @ p]\<rparr>)"
      "nid_view t = learn (tv_sec (clk 0)) (h_srcNID h) src (conns s)"
    using arrive_own [OF ok d q, of clk src] by (auto simp: Let_def)
  let ?s = "s\<lparr>connmap := t, nri_buf := buf, sp_nr2ph := [encode_header h @ p]\<rparr>"
  have "sp_nr2ph ?s = (encode_header h @ p) # []" by simp
  from thread_ph_input_control [OF node_okD(1) [OF s1(2)] this d(1) ty(1), of raw_ok] ty(2)
  obtain u u32 where u: "thread_ph_input raw_ok ?s
      = Some ((ph_learnt h p [] u u32 ?s)\<lparr>sp_ph2co := sp_ph2co ?s @ [p]\<rparr>)"
    "ph_learns h ?s ((ph_learnt h p [] u u32 ?s)\<lparr>sp_ph2co := sp_ph2co ?s @ [p]\<rparr>)"
    by (auto simp: Let_def)
  have "node_ok ((ph_learnt h p [] u u32 ?s)\<lparr>sp_ph2co := sp_ph2co ?s @ [p]\<rparr>)"
    using kept_step [OF kept_ph_input [OF s1(2)] u(1)] .
  then show ?thesis using s1(1,3) u
    by (simp add: arrive_def learnt_from_def ph_learns_def ph_learnt_def nm_gw_def nm_pair_def same_out_def)
qed

section \<open>The rendez-vous service\<close>

lemma rvs_round_spec:
  assumes ok: "node_ok r" "rvs_ok v" and q: "sp_ph2co r = encode_msg m # ds" "sp_co2rvs r = []"
    and ty: "m_type m = RVS_UPDATE \<or> m_type m = RVS_GET"
  shows "\<exists>r' v'. rvs_round clk now r v = Some (r', v') \<and> node_ok r' \<and> rvs_ok v' \<and>
    rvs_map v' = rvs_next now m (rvs_map v) \<and> sp_nf2ph r' = sp_nf2ph r \<and> sp_ph2nr r' = sp_ph2nr r \<and>
    conns r' = conns r \<and> cf_nid r' = cf_nid r \<and> cf_nidgw r' = cf_nidgw r \<and>
    sp_rvs2ph r' = sp_rvs2ph r @ [encode_msg (swap_ends (rvs_reply now m (rvs_map v)))] \<and>
    sp_rvs2gwt r' = sp_rvs2gwt r @
      (if m_type m = RVS_UPDATE then [encode_msg (swap_ends (rvs_reply now m (rvs_map v)))] else [])"
proof -
  let ?r1 = "r\<lparr>sp_ph2co := ds, co_nmsg := m, sp_co2rvs := [encode_msg m]\<rparr>"
  let ?r2 = "?r1\<lparr>sp_co2rvs := [], rps_nmsg := m, rvs_out := rvs_out r @ [encode_msg m]\<rparr>"
  let ?m = "rvs_reply now m (rvs_map v)"
  have r1: "thread_control_rvs clk r = Some ?r1" using control_rvs_forward [OF q(1) ty] q(2) by simp
  have r2: "thread_rvs_proxy_send ?r1 = Some ?r2" by (subst thread_rvs_proxy_send_spec) simp_all
  obtain v' where v': "rvs_main now (encode_msg m) v = Some (encode_msg ?m, v')" "rvs_ok v'"
      "rvs_map v' = rvs_next now m (rvs_map v)" using rvs_main_spec [OF ok(2)] by blast
  have ack: "m_type ?m = RVS_ACK \<longleftrightarrow> m_type m = RVS_UPDATE" using ty by (auto simp: rvs_reply_def)
  have "node_ok ?r2" using ok(1) by simp
  then show ?thesis using r1 r2 v' ack
    by (simp add: rvs_round_def thread_rvs_proxy_recv_spec) 
qed

section \<open>Registration at the gateways\<close>

definition gw_register :: "ifaddr \<Rightarrow> clock \<Rightarrow> node \<Rightarrow> node run" where
  "gw_register ifaddr clk g = do {
     g \<leftarrow> thread_control_gw clk g;
     g \<leftarrow> thread_gw_listener clk g;
     thread_gw_talker ifaddr g
   }"

definition core_register :: "ifaddr \<Rightarrow> clock \<Rightarrow> node \<Rightarrow> node run" where
  "core_register ifaddr clk c = thread_control_gw_core clk c \<bind> thread_gw_core_listener ifaddr clk"

text \<open>The message a gateway passes up to its core gateway.\<close>

definition passed_up :: "ifaddr \<Rightarrow> node \<Rightarrow> NID_msg \<Rightarrow> NID_msg" where
  "passed_up ifaddr g m = m\<lparr>m_destNID := cf_nidgw g, m_ip := ifaddr (cf_primaryIface g)\<rparr>"

lemma gw_register_spec:
  assumes ok: "node_ok g" and q: "sp_ph2co g = encode_msg m # ds" "sp_co2gwl g = []" "sp_rvs2gwt g = []" "sp_gwl2gwt g = []"
    and ty: "m_type m = REGISTRY"
  shows "\<exists>g'. gw_register ifaddr clk g = Some g' \<and> node_ok g' \<and>
    routes g' = learn (tv_sec (clk 0)) (m_nid m) (m_ip m) (routes g) \<and>
    sp_gwt2ph g' = sp_gwt2ph g @ [encode_msg (passed_up ifaddr g m)]"
proof -
  let ?g1 = "g\<lparr>sp_ph2co := ds, co_nmsg := m, sp_co2gwl := [encode_msg m]\<rparr>"
  have g1: "thread_control_gw clk g = Some ?g1" using control_gw_forward(1) [OF q(1) ty] q(2) by simp
  have ok1: "node_ok ?g1" using ok by simp
  obtain t where g2: "thread_gw_listener clk ?g1 = Some (?g1\<lparr>rtable := t, sp_co2gwl := [], gwl_nmsg := m,
      sp_gwl2gwt := [encode_msg m]\<rparr>)" (is "_ = Some ?g2") "nid_view t = learn (tv_sec (clk 0)) (m_nid m) (m_ip m) (routes g)"
    using thread_gw_listener_spec [of ?g1 m "[]" clk] node_okD [OF ok1] q(4) by auto
  have ok2: "node_ok ?g2" using safe_step [OF safe_gw_listener [OF ok1] g2(1)] .
  have "m\<lparr>m_type := REGISTRY, m_destNID := cf_nidgw g, m_ip := ifaddr (cf_primaryIface g)\<rparr> = passed_up ifaddr g m"
    using ty by (cases m) (simp add: passed_up_def)
  then obtain g3 where g3: "thread_gw_talker ifaddr ?g2 = Some g3" "rtable g3 = t"
      "sp_gwt2ph g3 = sp_gwt2ph g @ [encode_msg (passed_up ifaddr g m)]"
    using thread_gw_talker_spec [of ?g2 m "[]" ifaddr] q(3) by auto
  moreover have "node_ok g3" using safe_step [OF safe_gw_talker [OF ok2] g3(1)] .
  ultimately show ?thesis using g1 g2 by (auto simp: gw_register_def)
qed

lemma core_register_spec:
  assumes ok: "node_ok c" and q: "sp_ph2co c = encode_msg m # ds" "sp_co2gwl c = []" and ty: "m_type m = REGISTRY"
  shows "\<exists>c'. core_register ifaddr clk c = Some c' \<and> node_ok c' \<and>
    routes c' = learn (tv_sec (clk 0)) (m_nid m) (m_ip m) (routes c) \<and>
    (if m_srcNIDgw m = cf_nid c then sp_gwt2ph c' = sp_gwt2ph c \<and> registry c' = set_static (m_nid m) 0 (registry c)
     else registry c' = registry c \<and> sp_gwt2ph c' = sp_gwt2ph c @ [encode_msg (redirect_core_msg ifaddr c m)])"
proof -
  let ?c1 = "c\<lparr>sp_ph2co := ds, co_nmsg := m, sp_co2gwl := [encode_msg m]\<rparr>"
  have c1: "thread_control_gw_core clk c = Some ?c1" using control_gw_forward(2) [OF q(1) ty] q(2) by simp
  have ok1: "node_ok ?c1" using ok by simp
  obtain t r where c2: "thread_gw_core_listener ifaddr clk ?c1 = Some
      (if m_srcNIDgw m = cf_nid ?c1
       then ?c1\<lparr>rtable := t, registry_table := r, sp_co2gwl := [], gwl_nmsg := m\<rparr>
       else ?c1\<lparr>rtable := t, sp_co2gwl := [], gwl_nmsg := redirect_core_msg ifaddr ?c1 m,
              sp_gwt2ph := sp_gwt2ph ?c1 @ [encode_msg (redirect_core_msg ifaddr ?c1 m)]\<rparr>)"
      "nid_view t = learn (tv_sec (clk 0)) (m_nid m) (m_ip m) (routes c)"
      "nid_view r = set_static (m_nid m) 0 (registry c)"
    using thread_gw_core_listener_spec [of ?c1 m "[]" ifaddr clk] node_okD [OF ok1] by auto
  have red: "redirect_core_msg ifaddr ?c1 m = redirect_core_msg ifaddr c m" by (simp add: redirect_core_msg_def)
  show ?thesis
  proof (cases "m_srcNIDgw m = cf_nid c")
    case True
    then show ?thesis using c1 c2 red safe_step [OF safe_gw_core_listener [OF ok1] c2(1)]
      by (simp add: core_register_def)
  next
    case False
    then show ?thesis using c1 c2 red safe_step [OF safe_gw_core_listener [OF ok1] c2(1)]
      by (simp add: core_register_def)
  qed
qed

text \<open>A learnt entry is what a lookup answers while it is fresh, unless the identity has a static one.\<close>

lemma rt_locator_learnt:
  assumes "routes g' = learn now nid ip (routes g)" "ip \<noteq> 0" "tv_sec (clk 0) < now + GATEWAY_TIMEOUT"
    "\<forall>ce. routes g nid = Some ce \<longrightarrow> \<not> is_static ce"
  shows "rt_locator clk nid g' = ip"
  using assms
  by (cases "routes g nid") (auto simp: rt_locator_def route_hit_def route_live_def learn_def)

lemma learn_dynamic:
  "\<forall>ce. m nid = Some ce \<longrightarrow> \<not> is_static ce \<Longrightarrow> learn now nid ip m = m(nid := Some \<lparr>ce_ip = ip, ce_tstamp = now\<rparr>)"
  by (auto simp: learn_def split: option.split)

end
