(* ===== verification/DHCP_Client.thy ===== *)
theory DHCP_Client
  imports DHT
begin

text \<open>
  The DHCP client \<open>src/src/dhcpcd-1.3.22-pl4\<close>, which the project changed so that it hands its
  answer to the daemon: \<open>parseDhcpMsgRecv\<close> of \<open>client.c\<close>, that is the walk over the options of a
  received message, the text written to the daemon's socket on an acknowledgement, and the values filled
  in for options the server left out. The rest of the client is third-party code around it.

  Memory: an option's value is the list of the bytes allocated for it, \<open>None\<close> the null pointer. Reading or
  copying past an allocation, or through a null pointer, has no meaning and gives \<open>None\<close>. The
  options stand in the receive buffer, so the bytes behind them are those of the rest of the buffer.

  Shown: the walk ends within the receive buffer whatever the bytes, and keeps every value as long as its
  length says; it reads back the options a server wrote; the text for the daemon fits its allocation;
  an acknowledgement without a root path ends the client.
\<close>

section \<open>Options\<close>

record dhcp_options =
  do_num :: byte
  do_len :: "byte \<Rightarrow> byte"
  do_val :: "byte \<Rightarrow> byte list option"

record dhcp_state =
  dc_opts :: dhcp_options
  dc_yiaddr :: NID32
  dc_out :: "byte list list"

abbreviation padOption :: byte where "padOption \<equiv> 0"
abbreviation subnetMask :: byte where "subnetMask \<equiv> 1"
abbreviation dnsOption :: byte where "dnsOption \<equiv> 6"
abbreviation rootPath :: byte where "rootPath \<equiv> 17"
abbreviation broadcastAddr :: byte where "broadcastAddr \<equiv> 28"
abbreviation dhcpIPaddrLeaseTime :: byte where "dhcpIPaddrLeaseTime \<equiv> 51"
abbreviation dhcpMessageType :: byte where "dhcpMessageType \<equiv> 53"
abbreviation dhcpServerIdentifier :: byte where "dhcpServerIdentifier \<equiv> 54"
abbreviation dhcpT1value :: byte where "dhcpT1value \<equiv> 58"
abbreviation dhcpT2value :: byte where "dhcpT2value \<equiv> 59"
abbreviation endOption :: byte where "endOption \<equiv> 255"
abbreviation DHCP_ACK :: byte where "DHCP_ACK \<equiv> 5"

text \<open>\<open>malloc\<close> of a value where there was none: the pointer is set, the length too, and the counter goes up.\<close>

definition opt_new :: "byte \<Rightarrow> byte \<Rightarrow> byte list \<Rightarrow> dhcp_options \<Rightarrow> dhcp_options" where
  "opt_new c l v opts = opts\<lparr>do_val := (do_val opts)(c \<mapsto> v), do_len := (do_len opts)(c := l), do_num := do_num opts + 1\<rparr>"

text \<open>\<open>memset(val, 0, len)\<close> before the walk, for the two timers.\<close>

definition opt_zero :: "byte \<Rightarrow> dhcp_options \<Rightarrow> dhcp_options run" where
  "opt_zero c opts =
     (case do_val opts c of
        Some v \<Rightarrow>
          if 0 < do_len opts c then
            (if unat (do_len opts c) \<le> length v
             then Some (opts\<lparr>do_val := (do_val opts)(c \<mapsto> overlay (replicate (unat (do_len opts c)) 0) v)\<rparr>)
             else None)
          else Some opts
      | None \<Rightarrow> Some opts)"

text \<open>One option with a value: copied over the old value when that has the same length, else into a new one.\<close>

definition opt_put :: "byte \<Rightarrow> byte list \<Rightarrow> dhcp_options \<Rightarrow> dhcp_options run" where
  "opt_put c data opts =
     (let l = of_nat (length data) in
      if do_len opts c = l then
        (case do_val opts c of
           Some v \<Rightarrow> if length data \<le> length v then Some (opts\<lparr>do_val := (do_val opts)(c \<mapsto> overlay data v)\<rparr>) else None
         | None \<Rightarrow> None)
      else Some (opts\<lparr>do_len := (do_len opts)(c := l), do_num := (if do_val opts c = None then do_num opts + 1 else do_num opts),
             do_val := (do_val opts)(c \<mapsto> data @ [0])\<rparr>))"

text \<open>
  The walk: \<open>n\<close> bytes are left before the end of the options, \<open>bs\<close> are the bytes from the current
  position to the end of the receive buffer.
\<close>

function parse_options :: "nat \<Rightarrow> byte list \<Rightarrow> dhcp_options \<Rightarrow> dhcp_options run" where
  "parse_options n bs opts =
     (if n = 0 then Some opts
      else case bs of
        [] \<Rightarrow> None
      | c # bs \<Rightarrow>
          if c = endOption then Some opts
          else if c = padOption then parse_options (n - 1) bs opts
          else (case bs of
              [] \<Rightarrow> None
            | l # bs \<Rightarrow> do {
                opts \<leftarrow> (if l \<noteq> 0
                         then (if unat l \<le> length bs then opt_put c (take (unat l) bs) opts else None)
                         else Some opts);
                parse_options (n - (unat l + 2)) (drop (unat l) bs) opts
              }))"
  by pat_completeness auto
termination by (relation "measure fst") auto

declare parse_options.simps [simp del]

section \<open>The message to the daemon\<close>

text \<open>A C string read through a pointer: its allocation must hold a zero.\<close>

definition c_string :: "byte list option \<Rightarrow> string run" where
  "c_string v = (case v of Some bs \<Rightarrow> if 0 \<in> set bs then Some (cstring bs) else None | None \<Rightarrow> None)"

definition byte_at :: "byte list option \<Rightarrow> byte run" where
  "byte_at v = (case v of Some (b # _) \<Rightarrow> Some b | _ \<Rightarrow> None)"

text \<open>Four bytes read or copied from a value.\<close>

definition word_at :: "byte list option \<Rightarrow> u32 run" where
  "word_at v = (case v of Some bs \<Rightarrow> if 4 \<le> length bs then Some (be_word (take 4 bs)) else None | None \<Rightarrow> None)"

abbreviation INET_ADDRSTRLEN :: nat where "INET_ADDRSTRLEN \<equiv> 16"

text \<open>
  On an acknowledgement the root path, the address and a bar are put together in a zeroed allocation,
  which is written whole to the socket \<open>/tmp/dhcp2nidd\<close>; a text that does not fit has no meaning.
\<close>

definition notify_nidd :: "'a dhcp_state_scheme \<Rightarrow> 'a dhcp_state_scheme run" where
  "notify_nidd s = do {
     t \<leftarrow> byte_at (do_val (dc_opts s) dhcpMessageType);
     if t = DHCP_ACK then do {
       path \<leftarrow> c_string (do_val (dc_opts s) rootPath);
       let size = length path + INET_ADDRSTRLEN + 1;
       let str = path @ inet_ntop4 (dc_yiaddr s) @ ''|'';
       if length str < size
       then Some (s\<lparr>dc_out := dc_out s @ [bytes_of str @ replicate (size - length str) 0]\<rparr>) else None
     }
     else Some s
   }"

section \<open>Values the server left out\<close>

definition default_opt :: "byte \<Rightarrow> u32 run \<Rightarrow> dhcp_options \<Rightarrow> dhcp_options run" where
  "default_opt c v opts =
     (if do_val opts c \<noteq> None then Some opts
      else map_option (\<lambda>w. opt_new c 4 (be_bytes 4 w) opts) v)"

definition class_mask :: "NID32 \<Rightarrow> u32" where
  "class_mask a =
     (if a AND 0x80000000 = 0 then 0xFF000000
      else if a AND 0xC0000000 = 0x80000000 then 0xFFFF0000
      else if a AND 0xE0000000 = 0xC0000000 then 0xFFFFFF00
      else 0xFFFFFFFF)"

text \<open>
  The lease time and the two timers: a value of four bytes that is zero is overwritten, a value of another
  length or none is replaced (and the counter goes up).
\<close>

definition timer_opt :: "byte \<Rightarrow> u32 run \<Rightarrow> dhcp_options \<Rightarrow> dhcp_options run" where
  "timer_opt c v opts =
     (if do_val opts c \<noteq> None \<and> do_len opts c = 4 then do {
        old \<leftarrow> word_at (do_val opts c);
        if old = 0 then do {
          w \<leftarrow> v;
          Some (opts\<lparr>do_val := (do_val opts)(c \<mapsto> overlay (be_bytes 4 w) (the (do_val opts c)))\<rparr>)
        }
        else Some opts
      }
      else map_option (\<lambda>w. opt_new c 4 (be_bytes 4 w) opts) v)"

text \<open>\<open>0.5 * t\<close> and \<open>0.875 * t\<close> of a 32-bit \<open>t\<close> are exact in a \<open>double\<close>; the conversion cuts off.\<close>

definition t1_of :: "u32 \<Rightarrow> u32" where "t1_of t = of_nat (unat t div 2)"
definition t2_of :: "u32 \<Rightarrow> u32" where "t2_of t = of_nat (7 * unat t div 8)"

definition fill_options :: "u32 \<Rightarrow> u32 \<Rightarrow> NID32 \<Rightarrow> dhcp_options \<Rightarrow> dhcp_options run" where
  "fill_options lease ip_src yiaddr opts = do {
     opts \<leftarrow> default_opt dhcpServerIdentifier (Some ip_src) opts;
     opts \<leftarrow> default_opt dnsOption (word_at (do_val opts dhcpServerIdentifier)) opts;
     opts \<leftarrow> default_opt subnetMask (Some (class_mask yiaddr)) opts;
     opts \<leftarrow> default_opt broadcastAddr (map_option (\<lambda>m. yiaddr OR NOT m) (word_at (do_val opts subnetMask))) opts;
     opts \<leftarrow> timer_opt dhcpIPaddrLeaseTime (Some lease) opts;
     opts \<leftarrow> timer_opt dhcpT1value (map_option t1_of (word_at (do_val opts dhcpIPaddrLeaseTime))) opts;
     timer_opt dhcpT2value (map_option t2_of (word_at (do_val opts dhcpIPaddrLeaseTime))) opts
   }"

text \<open>
  \<open>parseDhcpMsgRecv\<close>: \<open>buf\<close> are the bytes from the option field, of 312 bytes, to the end of
  the receive buffer, \<open>yiaddr\<close> and \<open>ip_src\<close> fields of the message, \<open>ciaddr\<close> that of the last message sent, \<open>lease\<close>
  the lease time asked for. The result is the message type.
\<close>

definition parseDhcpMsgRecv ::
  "u32 \<Rightarrow> NID32 \<Rightarrow> NID32 \<Rightarrow> NID32 \<Rightarrow> byte list \<Rightarrow> 'a dhcp_state_scheme \<Rightarrow> (byte \<times> 'a dhcp_state_scheme) run" where
  "parseDhcpMsgRecv lease ciaddr ip_src yiaddr buf s = do {
     opts \<leftarrow> opt_zero dhcpT1value (dc_opts s);
     opts \<leftarrow> opt_zero dhcpT2value opts;
     opts \<leftarrow> parse_options (312 - 4) (drop 4 buf) opts;
     s \<leftarrow> notify_nidd (s\<lparr>dc_opts := opts, dc_yiaddr := yiaddr\<rparr>);
     let yiaddr = (if yiaddr = 0 then ciaddr else yiaddr);
     opts \<leftarrow> fill_options lease ip_src yiaddr (dc_opts s);
     t \<leftarrow> byte_at (do_val opts dhcpMessageType);
     Some (t, s\<lparr>dc_opts := opts, dc_yiaddr := yiaddr\<rparr>)
   }"

definition releaseDhcpOptions :: "dhcp_options \<Rightarrow> dhcp_options" where
  "releaseDhcpOptions opts = \<lparr>do_num = 0, do_len = (\<lambda>_. 0), do_val = (\<lambda>_. None)\<rparr>"

section \<open>The walk\<close>

text \<open>Every value is as long as its length says, and a length has a value.\<close>

definition opts_ok :: "dhcp_options \<Rightarrow> bool" where
  "opts_ok opts \<longleftrightarrow> (\<forall>c. (do_val opts c = None \<longrightarrow> do_len opts c = 0) \<and>
     (\<forall>v. do_val opts c = Some v \<longrightarrow> unat (do_len opts c) \<le> length v))"

text \<open>A value with its terminating zero, as the walk allocates them.\<close>

definition opt_text :: "dhcp_options \<Rightarrow> byte \<Rightarrow> bool" where
  "opt_text opts c \<longleftrightarrow> 
     (\<forall>v. do_val opts c = Some v \<longrightarrow> (\<exists>w. v = w @ [0] \<and> length w = unat (do_len opts c)))"

lemma opts_ok_release: "opts_ok (releaseDhcpOptions opts)" "opt_text (releaseDhcpOptions opts) c"
  by (simp_all add: opts_ok_def opt_text_def releaseDhcpOptions_def)

lemma byte_lt: "unat (b :: byte) < 256"
  using unsigned_less [of b, where 'a = nat] by simp

lemma unat_len: "length (data :: byte list) < 256 \<Longrightarrow> unat (of_nat (length data) :: byte) = length data"
  by (simp add: unat_of_nat)

lemma len_nz: "0 < length data \<Longrightarrow> length (data :: byte list) < 256 \<Longrightarrow> (of_nat (length data) :: byte) \<noteq> 0"
  by (metis unat_len unat_0 less_not_refl)

lemma opt_put_spec:
  assumes ok: "opts_ok opts" and d: "0 < length data" "length data < 256"
  shows "\<exists>opts'. opt_put c data opts = Some opts' \<and> opts_ok opts' \<and> do_len opts' c = of_nat (length data) \<and>
    (\<exists>z. do_val opts' c = Some (data @ z) \<and> (opt_text opts c \<longrightarrow> z = [0])) \<and>
    (\<forall>c'. c' \<noteq> c \<longrightarrow> do_len opts' c' = do_len opts c' \<and> do_val opts' c' = do_val opts c')"
proof (cases "do_len opts c = of_nat (length data)")
  case True
  with ok len_nz [OF d] obtain v where v: "do_val opts c = Some v" by (cases "do_val opts c") (auto simp: opts_ok_def)
  then have "unat (do_len opts c) \<le> length v" using ok by (simp add: opts_ok_def)
  with True have v: "do_val opts c = Some v" "length data \<le> length v" using v unat_len [OF d(2)] by simp_all
  have t: "opt_text opts c \<longrightarrow> drop (length data) v = [0]"
    using v True unat_len [OF d(2)] by (auto simp: opt_text_def)
  show ?thesis using True v t ok unat_len [OF d(2)]
    by (auto simp: opt_put_def overlay_def opts_ok_def Let_def)
next
  case False
  then show ?thesis using ok unat_len [OF d(2)]
    by (auto simp: opt_put_def opts_ok_def Let_def)
qed

lemma opt_zero_ok:
  assumes "opts_ok opts"
  shows "\<exists>opts'. opt_zero c opts = Some opts' \<and> opts_ok opts' \<and> do_len opts' = do_len opts \<and> do_num opts' = do_num opts \<and>
    (\<forall>c'. c' \<noteq> c \<longrightarrow> do_val opts' c' = do_val opts c') \<and> (do_val opts c = None \<longrightarrow> do_val opts' c = None) \<and>
    (\<forall>v. do_val opts' c = Some v \<longrightarrow> (\<exists>v0. do_val opts c = Some v0 \<and> length v = length v0))"
proof (cases "do_val opts c")
  case None
  then show ?thesis using assms by (simp add: opt_zero_def)
next
  case (Some v)
  then have "unat (do_len opts c) \<le> length v" using assms by (simp add: opts_ok_def)
  then show ?thesis using Some assms by (auto simp: opt_zero_def opts_ok_def overlay_def)
qed

text \<open>Whatever the bytes, the walk ends inside a buffer that goes on for 256 bytes behind the options.\<close>

lemma parse_options_safe:
  "opts_ok opts \<Longrightarrow> n + 256 \<le> length bs \<Longrightarrow> \<exists>opts'. parse_options n bs opts = Some opts' \<and> opts_ok opts'"
proof (induction n bs opts rule: parse_options.induct)
  case (1 n bs opts)
  show ?case
  proof (cases "n = 0")
    case True
    then show ?thesis using 1 by (simp add: parse_options.simps)
  next
    case False
    with "1.prems"(2) obtain c l bs' where bs: "bs = c # l # bs'" by (cases bs; cases "tl bs") auto
    consider (stop) "c = endOption" | (pad) "c = padOption" | (opt) "c \<noteq> endOption" "c \<noteq> padOption" by blast
    then show ?thesis
    proof cases
      case stop
      then show ?thesis using 1 bs by (simp add: parse_options.simps)
    next
      case pad
      then have "\<exists>opts'. parse_options (n - 1) (l # bs') opts = Some opts' \<and> opts_ok opts'"
        using "1.IH"(1) [OF False bs] "1.prems" bs False by simp
      then show ?thesis using pad False bs by (simp add: parse_options.simps [of n])
    next
      case opt
      have l: "unat l \<le> length bs'" using "1.prems"(2) False bs byte_lt [of l] by simp
      obtain o1 where o1: "(if l \<noteq> 0 then (if unat l \<le> length bs' then opt_put c (take (unat l) bs') opts else None)
          else Some opts) = Some o1" "opts_ok o1"
      proof (cases "l = 0")
        case True
        then show ?thesis using that "1.prems"(1) by simp
      next
        case nz: False
        have "0 < length (take (unat l) bs')" "length (take (unat l) bs') < 256"
          using l nz byte_lt [of l] by (auto simp: unat_gt_0)
        from opt_put_spec [OF "1.prems"(1) this, of c] show ?thesis using that l nz by auto
      qed
      have "\<exists>opts'. parse_options (n - (unat l + 2)) (drop (unat l) bs') o1 = Some opts' \<and> opts_ok opts'"
      proof (cases "n - (unat l + 2) = 0")
        case True
        then show ?thesis using o1(2) by (simp add: parse_options.simps)
      next
        case nz: False
        show ?thesis
          by (rule "1.IH"(2) [OF False bs opt refl o1]) (use "1.prems"(2) bs nz in auto)
      qed
      then show ?thesis using opt False bs o1(1) by (simp add: parse_options.simps [of n])
    qed
  qed
qed

text \<open>The options as a server writes them, and what the walk makes of them.\<close>

definition enc_options :: "(byte \<times> byte list) list \<Rightarrow> byte list" where
  "enc_options os = concat (map (\<lambda>(c, d). c # of_nat (length d) # d) os)"

definition plain_options :: "(byte \<times> byte list) list \<Rightarrow> bool" where
  "plain_options os \<longleftrightarrow> (\<forall>(c, d) \<in> set os. c \<noteq> padOption \<and> c \<noteq> endOption \<and> 0 < length d \<and> length d < 256)"

lemma parse_options_end: "0 < n \<Longrightarrow> parse_options n (endOption # rest) opts = Some opts"
  by (simp add: parse_options.simps)

lemma parse_options_item:
  assumes "c \<noteq> padOption" "c \<noteq> endOption" "0 < length d" "length d < 256" "0 < n"
  shows "parse_options n (c # of_nat (length d) # d @ rest) opts =
    opt_put c d opts \<bind> parse_options (n - (length d + 2)) rest"
  using assms len_nz [OF assms(3,4)] by (simp add: parse_options.simps [of n] unat_len)

lemma parse_options_encoded:
  assumes "opts_ok opts" "plain_options os" "length (enc_options os) < n"
  shows "\<exists>opts'. parse_options n (enc_options os @ endOption # rest) opts = Some opts' \<and> opts_ok opts' \<and>
    (\<forall>c. case map_of (rev os) c of
       Some d \<Rightarrow> do_len opts' c = of_nat (length d) \<and> (\<exists>z. do_val opts' c = Some (d @ z) \<and> (opt_text opts c \<longrightarrow> z = [0]))
     | None \<Rightarrow> do_len opts' c = do_len opts c \<and> do_val opts' c = do_val opts c)"
  using assms
proof (induction os arbitrary: opts n)
  case Nil
  then show ?case by (simp add: enc_options_def parse_options_end)
next
  case (Cons x os)
  obtain c d where x: "x = (c, d)" by (cases x)
  have c: "c \<noteq> padOption" "c \<noteq> endOption" "0 < length d" "length d < 256" and os: "plain_options os"
    using Cons.prems(2) by (auto simp: plain_options_def x)
  obtain o1 where o1: "opt_put c d opts = Some o1" "opts_ok o1" "do_len o1 c = of_nat (length d)"
      "\<exists>z. do_val o1 c = Some (d @ z) \<and> (opt_text opts c \<longrightarrow> z = [0])"
      "\<forall>c'. c' \<noteq> c \<longrightarrow> do_len o1 c' = do_len opts c' \<and> do_val o1 c' = do_val opts c'"
    using opt_put_spec [OF Cons.prems(1) c(3,4)] by blast
  have enc: "enc_options (x # os) = c # of_nat (length d) # d @ enc_options os" by (simp add: enc_options_def x)
  have n: "0 < n" "length (enc_options os) < n - (length d + 2)" using Cons.prems(3) enc by simp_all
  have text': "opt_text opts c' \<Longrightarrow> opt_text o1 c'" for c'
    using o1(3-5) unat_len [OF c(4)] by (cases "c' = c") (auto simp: opt_text_def)
  from Cons.IH [OF o1(2) os n(2)] obtain o2 where o2:
      "parse_options (n - (length d + 2)) (enc_options os @ endOption # rest) o1 = Some o2" "opts_ok o2"
      "\<And>c. case map_of (rev os) c of
       Some d \<Rightarrow> do_len o2 c = of_nat (length d) \<and> (\<exists>z. do_val o2 c = Some (d @ z) \<and> (opt_text o1 c \<longrightarrow> z = [0]))
     | None \<Rightarrow> do_len o2 c = do_len o1 c \<and> do_val o2 c = do_val o1 c" by blast
  have "case map_of (rev (x # os)) c' of
       Some d \<Rightarrow> do_len o2 c' = of_nat (length d) \<and> (\<exists>z. do_val o2 c' = Some (d @ z) \<and> (opt_text opts c' \<longrightarrow> z = [0]))
     | None \<Rightarrow> do_len o2 c' = do_len opts c' \<and> do_val o2 c' = do_val opts c'" for c'
    using o2(3) [of c'] o1(3-5) text' [of c'] by (auto simp: x map_add_def split: option.splits)
  then show ?case
    using o1(1) o2(1,2) parse_options_item [OF c n(1), of "enc_options os @ endOption # rest" opts] enc by auto
qed

abbreviation opt_last :: "(byte \<times> byte list) list \<Rightarrow> byte \<Rightarrow> byte list option" where
  "opt_last os c \<equiv> map_of (rev os) c"

text \<open>Into released options: every value is the last one written, with a zero behind it.\<close>

lemma parse_fresh:
  assumes "plain_options os" "length (enc_options os) < n"
  shows "\<exists>opts'. parse_options n (enc_options os @ endOption # rest) (releaseDhcpOptions opts) = Some opts' \<and> opts_ok opts' \<and>
    (\<forall>c. do_val opts' c = map_option (\<lambda>d. d @ [0]) (opt_last os c))"
proof -
  obtain o1 where o1: "parse_options n (enc_options os @ endOption # rest) (releaseDhcpOptions opts) = Some o1" "opts_ok o1"
      "\<And>c. case opt_last os c of
       Some d \<Rightarrow> do_len o1 c = of_nat (length d) \<and>
         (\<exists>z. do_val o1 c = Some (d @ z) \<and> (opt_text (releaseDhcpOptions opts) c \<longrightarrow> z = [0]))
     | None \<Rightarrow> do_len o1 c = do_len (releaseDhcpOptions opts) c \<and> do_val o1 c = do_val (releaseDhcpOptions opts) c"
    using parse_options_encoded [OF opts_ok_release(1) assms] by blast
  have "do_val o1 c = map_option (\<lambda>d. d @ [0]) (opt_last os c)" for c
    using o1(3) [of c] opts_ok_release(2) [of opts c] by (cases "opt_last os c") (auto simp: releaseDhcpOptions_def)
  then show ?thesis using o1(1,2) by blast
qed

section \<open>Filling in\<close>

text \<open>The values that are read as four bytes have at least four.\<close>

definition quads_ok :: "dhcp_options \<Rightarrow> bool" where
  "quads_ok opts \<longleftrightarrow> (\<forall>c \<in> {subnetMask, dhcpServerIdentifier}. \<forall>v. do_val opts c = Some v \<longrightarrow> 4 \<le> length v)"

lemma word_at_new [simp]: "word_at (Some (be_bytes 4 w @ z)) = Some w" "word_at (Some (be_bytes 4 w)) = Some w"
  by (simp_all add: word_at_def be_word_be_bytes)

lemma word_at_ok: "4 \<le> length v \<Longrightarrow> \<exists>w. word_at (Some v) = Some w"
  by (simp add: word_at_def)

text \<open>Filling in one value: it succeeds, keeps the others, and leaves at least four bytes.\<close>

lemma default_opt_spec:
  assumes "opts_ok opts" "do_val opts c = None \<longrightarrow> v = Some w"
  shows "\<exists>opts'. default_opt c v opts = Some opts' \<and> opts_ok opts' \<and>
    do_val opts' = (if do_val opts c = None then (do_val opts)(c \<mapsto> be_bytes 4 w) else do_val opts) \<and>
    (\<forall>c'. c' \<noteq> c \<longrightarrow> do_len opts' c' = do_len opts c')"
  using assms by (auto simp: default_opt_def opt_new_def opts_ok_def)

lemma timer_opt_spec:
  assumes "opts_ok opts"
  shows "\<exists>opts' w'. timer_opt c (Some w) opts = Some opts' \<and> opts_ok opts' \<and> word_at (do_val opts' c) = Some w' \<and>
    (\<forall>c'. c' \<noteq> c \<longrightarrow> do_val opts' c' = do_val opts c' \<and> do_len opts' c' = do_len opts c') \<and>
    (do_val opts c = None \<or> do_len opts c \<noteq> 4 \<longrightarrow> w' = w) \<and>
    (word_at (do_val opts c) = Some u \<and> do_len opts c = 4 \<and> u \<noteq> 0 \<longrightarrow> w' = u) \<and>
    (word_at (do_val opts c) = Some 0 \<and> do_len opts c = 4 \<longrightarrow> w' = w)"
proof (cases "do_val opts c \<noteq> None \<and> do_len opts c = 4")
  case False
  then show ?thesis using assms by (auto simp: timer_opt_def opt_new_def opts_ok_def)
next
  case True
  then obtain v where v: "do_val opts c = Some v" "do_len opts c = 4" by blast
  have l: "4 \<le> length v" using assms v by (auto simp: opts_ok_def dest: spec [of _ c])
  then obtain x where x: "word_at (Some v) = Some x" using word_at_ok by blast
  have ov: "overlay (be_bytes 4 w) v = be_bytes 4 w @ drop 4 v" by (simp add: overlay_def)
  show ?thesis
  proof (cases "x = 0")
    case True
    then show ?thesis using assms v x l ov by (auto simp: timer_opt_def opts_ok_def)
  next
    case False
    then show ?thesis using assms v x by (auto simp: timer_opt_def)
  qed
qed

text \<open>
  All of it: with a sound state it succeeds; the values the daemon is told and the message type stay; and
  timers nobody has set are a half and seven eighths of the lease time.
\<close>

lemma fill_options_spec:
  assumes ok: "opts_ok opts" "quads_ok opts"
  shows "\<exists>opts' t. fill_options lease ip_src yiaddr opts = Some opts' \<and> opts_ok opts' \<and> quads_ok opts' \<and>
    (\<forall>c. c \<notin> {dhcpServerIdentifier, dnsOption, subnetMask, broadcastAddr, dhcpIPaddrLeaseTime, dhcpT1value, dhcpT2value} \<longrightarrow>
       do_val opts' c = do_val opts c) \<and>
    word_at (do_val opts' dhcpIPaddrLeaseTime) = Some t \<and>
    (do_val opts dhcpT1value = None \<longrightarrow> word_at (do_val opts' dhcpT1value) = Some (t1_of t)) \<and>
    (do_val opts dhcpT2value = None \<longrightarrow> word_at (do_val opts' dhcpT2value) = Some (t2_of t))"
proof -
  obtain o1 where o1: "default_opt dhcpServerIdentifier (Some ip_src) opts = Some o1" "opts_ok o1"
      "do_val o1 = (if do_val opts dhcpServerIdentifier = None
         then (do_val opts)(dhcpServerIdentifier \<mapsto> be_bytes 4 ip_src) else do_val opts)"
    using default_opt_spec [OF ok(1), of dhcpServerIdentifier "Some ip_src" ip_src] by auto
  have "\<exists>w. word_at (do_val o1 dhcpServerIdentifier) = Some w"
    using o1(3) ok(2) word_at_ok by (auto simp: quads_ok_def)
  then obtain sid where sid: "word_at (do_val o1 dhcpServerIdentifier) = Some sid" by blast
  obtain o2 where o2: "default_opt dnsOption (Some sid) o1 = Some o2" "opts_ok o2"
      "do_val o2 = (if do_val o1 dnsOption = None then (do_val o1)(dnsOption \<mapsto> be_bytes 4 sid) else do_val o1)"
    using default_opt_spec [OF o1(2), of dnsOption "Some sid" sid] by auto
  obtain o3 where o3: "default_opt subnetMask (Some (class_mask yiaddr)) o2 = Some o3" "opts_ok o3"
      "do_val o3 = (if do_val o2 subnetMask = None
         then (do_val o2)(subnetMask \<mapsto> be_bytes 4 (class_mask yiaddr)) else do_val o2)"
    using default_opt_spec [OF o2(2), of subnetMask "Some (class_mask yiaddr)" "class_mask yiaddr"] by auto
  have q3: "quads_ok o3" using ok(2) o1(3) o2(3) o3(3) by (auto simp: quads_ok_def)
  then have "\<exists>w. word_at (do_val o3 subnetMask) = Some w"
    using o3(3) word_at_ok by (cases "do_val o2 subnetMask") (auto simp: quads_ok_def)
  then obtain m where m: "word_at (do_val o3 subnetMask) = Some m" by blast
  obtain o4 where o4: "default_opt broadcastAddr (Some (yiaddr OR NOT m)) o3 = Some o4" "opts_ok o4"
      "do_val o4 = (if do_val o3 broadcastAddr = None
         then (do_val o3)(broadcastAddr \<mapsto> be_bytes 4 (yiaddr OR NOT m)) else do_val o3)"
    using default_opt_spec [OF o3(2), of broadcastAddr "Some (yiaddr OR NOT m)" "yiaddr OR NOT m"] by auto
  obtain o5 t where o5: "timer_opt dhcpIPaddrLeaseTime (Some lease) o4 = Some o5" "opts_ok o5"
      "word_at (do_val o5 dhcpIPaddrLeaseTime) = Some t" "\<forall>c. c \<noteq> dhcpIPaddrLeaseTime \<longrightarrow> do_val o5 c = do_val o4 c"
    using timer_opt_spec [OF o4(2), of dhcpIPaddrLeaseTime lease] by blast
  obtain o6 t1 where o6: "timer_opt dhcpT1value (Some (t1_of t)) o5 = Some o6" "opts_ok o6"
      "word_at (do_val o6 dhcpT1value) = Some t1" "\<forall>c. c \<noteq> dhcpT1value \<longrightarrow> do_val o6 c = do_val o5 c"
      "do_val o5 dhcpT1value = None \<longrightarrow> t1 = t1_of t"
    using timer_opt_spec [OF o5(2), of dhcpT1value "t1_of t"] by blast
  obtain o7 t2 where o7: "timer_opt dhcpT2value (Some (t2_of t)) o6 = Some o7" "opts_ok o7"
      "word_at (do_val o7 dhcpT2value) = Some t2" "\<forall>c. c \<noteq> dhcpT2value \<longrightarrow> do_val o7 c = do_val o6 c"
      "do_val o6 dhcpT2value = None \<longrightarrow> t2 = t2_of t"
    using timer_opt_spec [OF o6(2), of dhcpT2value "t2_of t"] by blast
  have run: "fill_options lease ip_src yiaddr opts = Some o7"
    using o1(1) sid o2(1) o3(1) m o4(1) o5(1,3) o6(1,4) o7(1) by (simp add: fill_options_def)
  have same: "do_val o7 c = do_val opts c" if "c \<notin> {dhcpServerIdentifier, dnsOption, subnetMask, broadcastAddr,
      dhcpIPaddrLeaseTime, dhcpT1value, dhcpT2value}" for c
    using that o1(3) o2(3) o3(3) o4(3) o5(4) o6(4) o7(4) by auto
  have t12: "do_val o5 dhcpT1value = do_val opts dhcpT1value" "do_val o6 dhcpT2value = do_val opts dhcpT2value"
    using o1(3) o2(3) o3(3) o4(3) o5(4) o6(4) by auto
  have quads: "quads_ok o7" using q3 o4(3) o5(4) o6(4) o7(4) by (auto simp: quads_ok_def)
  show ?thesis
    by (rule exI [of _ o7], rule exI [of _ t])
      (use run o5(3) o6(3,4,5) o7 same t12 quads in auto)
qed

lemma fill_len:
  assumes "fill_options lease ip_src yiaddr opts = Some opts'"
    "c \<notin> {dhcpServerIdentifier, dnsOption, subnetMask, broadcastAddr, dhcpIPaddrLeaseTime, dhcpT1value, dhcpT2value}"
  shows "do_len opts' c = do_len opts c"
proof -
  have d: "default_opt c' v a = Some b \<Longrightarrow> c \<noteq> c' \<Longrightarrow> do_len b c = do_len a c" for c' v a b
    by (auto simp: default_opt_def opt_new_def split: if_splits)
  have t: "timer_opt c' v a = Some b \<Longrightarrow> c \<noteq> c' \<Longrightarrow> do_len b c = do_len a c" for c' v a b
    by (auto simp: timer_opt_def opt_new_def bind_eq_Some_conv split: if_splits)
  show ?thesis using assms unfolding fill_options_def bind_eq_Some_conv
    by (elim exE conjE) (auto dest!: d t)
qed

lemma timers_unat: "unat (t1_of t) = unat t div 2" "unat (t2_of t) = 7 * unat t div 8"
  using unsigned_less [of t, where 'a = nat] by (simp_all add: t1_of_def t2_of_def unat_of_nat)

lemma timers_ordered: "unat (t1_of t) \<le> unat (t2_of t)" "unat (t2_of t) \<le> unat t"
  by (simp_all add: timers_unat)

section \<open>Messages\<close>

text \<open>The bytes from the option field on: the cookie, the options, the end, and the rest of the receive buffer.\<close>

definition options_field :: "byte list \<Rightarrow> (byte \<times> byte list) list \<Rightarrow> byte list \<Rightarrow> byte list" where
  "options_field cookie os rest = cookie @ enc_options os @ endOption # rest"

text \<open>
  An acknowledgement with a root path: the daemon is written the path, the address and a bar; the
  result is the message type.
\<close>

lemma parse_walked:
  assumes ok: "opts_ok (dc_opts s)" "quads_ok (dc_opts s)" "opt_text (dc_opts s) rootPath"
    and os: "plain_options os" "length (enc_options os) < 308" "length cookie = 4"
    and quads: "\<forall>c \<in> {subnetMask, dhcpServerIdentifier}. \<forall>d. opt_last os c = Some d \<longrightarrow> 4 \<le> length d"
  shows "\<exists>o1. (do {opts \<leftarrow> opt_zero dhcpT1value (dc_opts s); opts \<leftarrow> opt_zero dhcpT2value opts;
       parse_options (312 - 4) (drop 4 (options_field cookie os rest)) opts}) = Some o1 \<and> opts_ok o1 \<and> quads_ok o1 \<and>
    (\<forall>c. c \<notin> {dhcpT1value, dhcpT2value} \<longrightarrow> (case opt_last os c of
       Some d \<Rightarrow> do_len o1 c = of_nat (length d) \<and>
         (\<exists>z. do_val o1 c = Some (d @ z) \<and> (opt_text (dc_opts s) c \<longrightarrow> z = [0]))
     | None \<Rightarrow> do_val o1 c = do_val (dc_opts s) c)) \<and>
    (\<forall>c \<in> {dhcpT1value, dhcpT2value}. opt_last os c = None \<and> do_val (dc_opts s) c = None \<longrightarrow> do_val o1 c = None)"
proof -
  obtain a where a: "opt_zero dhcpT1value (dc_opts s) = Some a" "opts_ok a" "do_len a = do_len (dc_opts s)"
      "\<forall>c. c \<noteq> dhcpT1value \<longrightarrow> do_val a c = do_val (dc_opts s) c"
      "do_val (dc_opts s) dhcpT1value = None \<longrightarrow> do_val a dhcpT1value = None"
    using opt_zero_ok [OF ok(1), of dhcpT1value] by (elim exE conjE) (rule that)
  obtain b where b: "opt_zero dhcpT2value a = Some b" "opts_ok b" "do_len b = do_len a"
      "\<forall>c. c \<noteq> dhcpT2value \<longrightarrow> do_val b c = do_val a c"
      "do_val a dhcpT2value = None \<longrightarrow> do_val b dhcpT2value = None"
    using opt_zero_ok [OF a(2), of dhcpT2value] by (elim exE conjE) (rule that)
  have n: "length (enc_options os) < 312 - 4" using os(2) by simp
  obtain o1 where o1: "parse_options (312 - 4) (enc_options os @ endOption # rest) b = Some o1" "opts_ok o1"
      "\<And>c. case opt_last os c of
       Some d \<Rightarrow> do_len o1 c = of_nat (length d) \<and> (\<exists>z. do_val o1 c = Some (d @ z) \<and> (opt_text b c \<longrightarrow> z = [0]))
     | None \<Rightarrow> do_len o1 c = do_len b c \<and> do_val o1 c = do_val b c"
    using parse_options_encoded [OF b(2) os(1) n, of rest] by blast
  have bt: "do_val b c = do_val (dc_opts s) c \<and> (opt_text (dc_opts s) c \<longrightarrow> opt_text b c)"
    if "c \<notin> {dhcpT1value, dhcpT2value}" for c
    using that a(3,4) b(3,4) by (simp add: opt_text_def)
  have vals: "\<forall>c. c \<notin> {dhcpT1value, dhcpT2value} \<longrightarrow> (case opt_last os c of
       Some d \<Rightarrow> do_len o1 c = of_nat (length d) \<and>
         (\<exists>z. do_val o1 c = Some (d @ z) \<and> (opt_text (dc_opts s) c \<longrightarrow> z = [0]))
     | None \<Rightarrow> do_val o1 c = do_val (dc_opts s) c)"
  proof (intro allI impI)
    fix c assume "c \<notin> {dhcpT1value, dhcpT2value}"
    from bt [OF this] o1(3) [of c] show "case opt_last os c of
       Some d \<Rightarrow> do_len o1 c = of_nat (length d) \<and>
         (\<exists>z. do_val o1 c = Some (d @ z) \<and> (opt_text (dc_opts s) c \<longrightarrow> z = [0]))
     | None \<Rightarrow> do_val o1 c = do_val (dc_opts s) c"
      by (cases "opt_last os c") auto
  qed
  have t: "\<forall>c \<in> {dhcpT1value, dhcpT2value}. opt_last os c = None \<and> do_val (dc_opts s) c = None \<longrightarrow> do_val o1 c = None"
    using o1(3) [of dhcpT1value] o1(3) [of dhcpT2value] a(4,5) b(4,5) by auto
  have "4 \<le> length v" if c: "c \<in> {subnetMask, dhcpServerIdentifier}" and v: "do_val o1 c = Some v" for c v
  proof (cases "opt_last os c")
    case None
    have n: "c \<notin> {dhcpT1value, dhcpT2value}" using c by auto
    from vals [rule_format, OF n] None v have "do_val (dc_opts s) c = Some v" by simp
    then show ?thesis using ok(2) c unfolding quads_ok_def by blast
  next
    case (Some d)
    have n: "c \<notin> {dhcpT1value, dhcpT2value}" using c by auto
    from vals [rule_format, OF n] Some obtain z where "do_val o1 c = Some (d @ z)" by auto
    moreover have "4 \<le> length d" using quads c Some by blast
    ultimately show ?thesis using v by simp
  qed
  then have "quads_ok o1" unfolding quads_ok_def by blast
  then show ?thesis using a(1) b(1) o1(1,2) vals t os(3) by (simp add: options_field_def)
qed

text \<open>The whole routine over such a message, as the steps behind the walk.\<close>

lemma parse_run:
  assumes "(do {opts \<leftarrow> opt_zero dhcpT1value (dc_opts s); opts \<leftarrow> opt_zero dhcpT2value opts;
       parse_options (312 - 4) (drop 4 buf) opts}) = Some o1"
  shows "parseDhcpMsgRecv lease ciaddr ip_src yiaddr buf s = do {
     s \<leftarrow> notify_nidd (s\<lparr>dc_opts := o1, dc_yiaddr := yiaddr\<rparr>);
     let yiaddr = (if yiaddr = 0 then ciaddr else yiaddr);
     opts \<leftarrow> fill_options lease ip_src yiaddr (dc_opts s);
     t \<leftarrow> byte_at (do_val opts dhcpMessageType);
     Some (t, s\<lparr>dc_opts := opts, dc_yiaddr := yiaddr\<rparr>)
   }"
  using assms by (auto simp: parseDhcpMsgRecv_def bind_eq_Some_conv)

lemma notify_ack:
  assumes "do_val (dc_opts s) dhcpMessageType = Some (DHCP_ACK # z)" "do_val (dc_opts s) rootPath = Some (bytes_of path @ [0])"
    "no_nul path"
  shows "\<exists>pad. notify_nidd s = Some (s\<lparr>dc_out := dc_out s @ [bytes_of (path @ inet_ntop4 (dc_yiaddr s) @ ''|'') @ pad]\<rparr>) \<and>
    pad \<noteq> [] \<and> (\<forall>b \<in> set pad. b = 0)"
proof -
  have len: "length (inet_ntop4 (dc_yiaddr s)) < INET_ADDRSTRLEN" by (rule length_inet_ntop4)
  have path: "c_string (Some (bytes_of path @ [0])) = Some path"
    using cstring_bytes_of [OF assms(3), of "[]"] by (simp add: c_string_def)
  show ?thesis using assms(1,2) path len
    by (intro exI [of _ "replicate (length path + INET_ADDRSTRLEN + 1 - length (path @ inet_ntop4 (dc_yiaddr s) @ ''|'')) 0"])
      (auto simp: notify_nidd_def byte_at_def Let_def)
qed

lemma parse_ack:
  assumes ok: "opts_ok (dc_opts s)" "quads_ok (dc_opts s)" "opt_text (dc_opts s) rootPath"
    and os: "plain_options os" "length (enc_options os) < 308" "length cookie = 4"
    and quads: "\<forall>c \<in> {subnetMask, dhcpServerIdentifier}. \<forall>d. opt_last os c = Some d \<longrightarrow> 4 \<le> length d"
    and ack: "opt_last os dhcpMessageType = Some [DHCP_ACK]" "opt_last os rootPath = Some (bytes_of path)" "no_nul path"
  shows "\<exists>s' pad. parseDhcpMsgRecv lease ciaddr ip_src yiaddr (options_field cookie os rest) s = Some (DHCP_ACK, s') \<and>
    dc_out s' = dc_out s @ [bytes_of (path @ inet_ntop4 yiaddr @ ''|'') @ pad] \<and> pad \<noteq> [] \<and> (\<forall>b \<in> set pad. b = 0) \<and>
    opts_ok (dc_opts s') \<and> quads_ok (dc_opts s') \<and> opt_text (dc_opts s') rootPath \<and>
    (\<exists>l. word_at (do_val (dc_opts s') dhcpIPaddrLeaseTime) = Some l \<and>
       (opt_last os dhcpT1value = None \<and> do_val (dc_opts s) dhcpT1value = None \<longrightarrow>
          word_at (do_val (dc_opts s') dhcpT1value) = Some (t1_of l)) \<and>
       (opt_last os dhcpT2value = None \<and> do_val (dc_opts s) dhcpT2value = None \<longrightarrow>
          word_at (do_val (dc_opts s') dhcpT2value) = Some (t2_of l)))"
proof -
  from parse_walked [OF ok os quads, of rest] obtain o1 where w: "(do {opts \<leftarrow> opt_zero dhcpT1value (dc_opts s);
        opts \<leftarrow> opt_zero dhcpT2value opts; parse_options (312 - 4) (drop 4 (options_field cookie os rest)) opts}) = Some o1"
      "opts_ok o1" "quads_ok o1"
      "\<And>c. c \<notin> {dhcpT1value, dhcpT2value} \<Longrightarrow> (case opt_last os c of
         Some d \<Rightarrow> do_len o1 c = of_nat (length d) \<and> (\<exists>z. do_val o1 c = Some (d @ z) \<and> (opt_text (dc_opts s) c \<longrightarrow> z = [0]))
       | None \<Rightarrow> do_val o1 c = do_val (dc_opts s) c)"
      "\<And>c. c \<in> {dhcpT1value, dhcpT2value} \<Longrightarrow> opt_last os c = None \<and> do_val (dc_opts s) c = None \<Longrightarrow> do_val o1 c = None"
    by blast
  obtain z where ty: "do_val o1 dhcpMessageType = Some (DHCP_ACK # z)" using w(4) [of dhcpMessageType] ack(1) by auto
  have rp: "do_val o1 rootPath = Some (bytes_of path @ [0])" "do_len o1 rootPath = of_nat (length (bytes_of path))"
    using w(4) [of rootPath] ack(2) ok(3) by auto
  let ?s1 = "s\<lparr>dc_opts := o1, dc_yiaddr := yiaddr\<rparr>"
  obtain pad where n: "notify_nidd ?s1 = Some (?s1\<lparr>dc_out := dc_out s @ [bytes_of (path @ inet_ntop4 yiaddr @ ''|'') @ pad]\<rparr>)"
      "pad \<noteq> []" "\<forall>b \<in> set pad. b = 0"
    using notify_ack [of ?s1 z path] ty rp(1) ack(3) by auto
  obtain o2 l where f: "fill_options lease ip_src (if yiaddr = 0 then ciaddr else yiaddr) o1 = Some o2" "opts_ok o2" "quads_ok o2"
      "do_val o2 dhcpMessageType = do_val o1 dhcpMessageType" "do_val o2 rootPath = do_val o1 rootPath"
      "word_at (do_val o2 dhcpIPaddrLeaseTime) = Some l"
      "do_val o1 dhcpT1value = None \<longrightarrow> word_at (do_val o2 dhcpT1value) = Some (t1_of l)"
      "do_val o1 dhcpT2value = None \<longrightarrow> word_at (do_val o2 dhcpT2value) = Some (t2_of l)"
    using fill_options_spec [OF w(2,3), of lease ip_src "if yiaddr = 0 then ciaddr else yiaddr"] by auto
  have "plain_options os \<Longrightarrow> opt_last os rootPath = Some d \<Longrightarrow> length d < 256" for d
    by (auto simp: plain_options_def dest!: map_of_SomeD)
  then have "length (bytes_of path) < 256" using os(1) ack(2) by blast
  moreover have "do_len o2 rootPath = do_len o1 rootPath" using fill_len [OF f(1)] by simp
  ultimately have "opt_text o2 rootPath" using f(5) rp by (simp add: opt_text_def unat_of_nat)
  then show ?thesis using n f ty w(5) [of dhcpT1value] w(5) [of dhcpT2value]
    by (simp add: parse_run [OF w(1)] byte_at_def Let_def)
qed

text \<open>Without a root path, now or kept from an earlier message, the text is read through a null pointer.\<close>

lemma parse_no_root_path:
  assumes ok: "opts_ok (dc_opts s)" "quads_ok (dc_opts s)" "do_val (dc_opts s) rootPath = None"
    and os: "plain_options os" "length (enc_options os) < 308" "length cookie = 4"
    and quads: "\<forall>c \<in> {subnetMask, dhcpServerIdentifier}. \<forall>d. opt_last os c = Some d \<longrightarrow> 4 \<le> length d"
    and ack: "opt_last os dhcpMessageType = Some [DHCP_ACK]" "opt_last os rootPath = None"
  shows "parseDhcpMsgRecv lease ciaddr ip_src yiaddr (options_field cookie os rest) s = None"
proof -
  have tx: "opt_text (dc_opts s) rootPath" using ok(3) by (simp add: opt_text_def)
  from parse_walked [OF ok(1,2) tx os quads, of rest] obtain o1 where w: "(do {opts \<leftarrow> opt_zero dhcpT1value (dc_opts s);
        opts \<leftarrow> opt_zero dhcpT2value opts; parse_options (312 - 4) (drop 4 (options_field cookie os rest)) opts}) = Some o1"
      "\<And>c. c \<notin> {dhcpT1value, dhcpT2value} \<Longrightarrow> (case opt_last os c of
         Some d \<Rightarrow> do_len o1 c = of_nat (length d) \<and> (\<exists>z. do_val o1 c = Some (d @ z) \<and> (opt_text (dc_opts s) c \<longrightarrow> z = [0]))
       | None \<Rightarrow> do_val o1 c = do_val (dc_opts s) c)" by blast
  obtain z where "do_val o1 dhcpMessageType = Some (DHCP_ACK # z)" using w(2) [of dhcpMessageType] ack(1) by auto
  moreover have "do_val o1 rootPath = None" using w(2) [of rootPath] ack(2) ok(3) by simp
  ultimately show ?thesis by (simp add: parse_run [OF w(1)] notify_nidd_def byte_at_def c_string_def)
qed

end
