(* ===== verification/DHCP_Packet.thy ===== *)
theory DHCP_Packet
  imports DHT
begin

text \<open>
  The packets of the DHCP client, \<open>src/src/dhcpcd-1.3.22-pl4/udpipgen.c\<close>: the Internet checksum, the
  headers \<open>udpipgen\<close> puts in front of a message and the test \<open>udpipchk\<close> makes of a received packet. The
  packet stands in a buffer, given as the bytes from the IP header to the buffer's end; reading or moving outside it has no
  meaning. The host reads 16-bit words little-endian; ports and addresses are their big-endian readings.

  Shown: a packet that was built passes the test and is left as it was, and a packet with one byte of its message
  changed does not.
\<close>

section \<open>The checksum\<close>

fun sum16 :: "byte list \<Rightarrow> nat" where
  "sum16 (a # b # bs) = unat a + 256 * unat b + sum16 bs"
| "sum16 [a] = unat a"
| "sum16 [] = 0"

definition fold16 :: "nat \<Rightarrow> nat" where
  "fold16 n = (let s = n div 65536 + n mod 65536 in (s + s div 65536) mod 65536)"

text \<open>The sum is a signed 32-bit \<open>int\<close>: up to 65536 bytes it cannot overflow.\<close>

definition in_cksum :: "byte list \<Rightarrow> nat \<Rightarrow> u16 run" where
  "in_cksum addr len =
     (if len \<le> length addr \<and> len \<le> 65536 then Some (NOT (of_nat (fold16 (sum16 (take len addr))))) else None)"

section \<open>Building and testing packets\<close>

abbreviation net16 :: "u16 \<Rightarrow> byte list" where "net16 w \<equiv> be_bytes 2 w"

text \<open>A 16-bit value of the host in memory.\<close>

definition host16 :: "u16 \<Rightarrow> byte list" where
  "host16 w = [of_nat (unat w mod 256), of_nat (unat w div 256)]"

abbreviation IPPROTO_UDP8 :: byte where "IPPROTO_UDP8 \<equiv> 17"
abbreviation IPDEFTTL :: byte where "IPDEFTTL \<equiv> 64"

text \<open>\<open>struct ipovly\<close>, \<open>struct udphdr\<close> and \<open>struct ip\<close> without options.\<close>

definition ipovly :: "u16 \<Rightarrow> NID32 \<Rightarrow> NID32 \<Rightarrow> byte list" where
  "ipovly len src dst = replicate 8 0 @ [0, IPPROTO_UDP8] @ net16 len @ nid32_bytes src @ nid32_bytes dst"

definition udphdr :: "u16 \<Rightarrow> u16 \<Rightarrow> u16 \<Rightarrow> u16 \<Rightarrow> byte list" where
  "udphdr sport dport ulen uh_sum = net16 sport @ net16 dport @ net16 ulen @ host16 uh_sum"

definition iphdr :: "u16 \<Rightarrow> u16 \<Rightarrow> u16 \<Rightarrow> NID32 \<Rightarrow> NID32 \<Rightarrow> byte list" where
  "iphdr len ipid ip_sum src dst = [69, 0] @ net16 len @ net16 ipid @ [0, 0, IPDEFTTL, IPPROTO_UDP8] @ host16 ip_sum @
     nid32_bytes src @ nid32_bytes dst"

definition udpipgen ::
  "byte list \<Rightarrow> NID32 \<Rightarrow> NID32 \<Rightarrow> u16 \<Rightarrow> u16 \<Rightarrow> u16 \<Rightarrow> u16 \<Rightarrow> (byte list \<times> u16) run" where
  "udpipgen udpip saddr daddr sport dport msglen ip_id = do {
     let msg = drop 28 udpip;
     uh_sum \<leftarrow> in_cksum (ipovly (msglen + 8) saddr daddr @ udphdr sport dport (msglen + 8) 0 @ msg) (unat msglen + 28);
     let uh_sum = (if uh_sum = 0 then 0xFFFF else uh_sum);
     ip_sum \<leftarrow> in_cksum (iphdr (msglen + 28) ip_id 0 saddr daddr) 20;
     Some (iphdr (msglen + 28) ip_id ip_sum saddr daddr @ udphdr sport dport (msglen + 8) uh_sum @ msg, ip_id + 1)
   }"

text \<open>Overwriting bytes from an offset on.\<close>

definition put_at :: "nat \<Rightarrow> byte list \<Rightarrow> byte list \<Rightarrow> byte list" where
  "put_at k bs buf = take k buf @ bs @ drop (k + length bs) buf"

text \<open>
  The header length counts words; less than five moves the header to before the buffer. With options, the
  first 20 bytes are moved over them, up to the UDP header. Without a UDP checksum nothing more is tested.
\<close>

definition udpipchk :: "byte list \<Rightarrow> (int \<times> byte list) run" where
  "udpipchk udpip =
     (if length udpip < 28 then None
      else do {
        let hl = 4 * (unat (udpip ! 0) mod 16);
        c \<leftarrow> in_cksum udpip hl;
        if c \<noteq> 0 then Some (- 1, udpip)
        else if hl < 20 \<or> length udpip < hl + 8 then None
        else do {
          let save_ip = take 20 udpip;
          let k = hl - 20;
          let buf = put_at k save_ip udpip;
          if take 2 (drop (k + 26) buf) = [0, 0] then Some (0, buf)
          else do {
            let ulen = take 2 (drop (k + 24) buf);
            let buf = put_at (k + 10) ulen (put_at k (replicate 9 0) buf);
            c \<leftarrow> in_cksum (drop k buf) (unat (be_word ulen :: u16) + 20);
            if c \<noteq> 0 then Some (- 2, buf) else Some (0, put_at 0 save_ip buf)
          }
        }
      })"

section \<open>The arithmetic of the checksum\<close>

lemma sum16_append: "even (length xs) \<Longrightarrow> sum16 (xs @ ys) = sum16 xs + sum16 ys"
  by (induction xs rule: sum16.induct) auto

lemma sum16_host16 [simp]: "sum16 (host16 w) = unat w"
proof -
  have "unat w < 65536" using unsigned_less [of w, where 'a = nat] by simp
  then have "unat (of_nat (unat w div 256) :: byte) = unat w div 256" by (simp add: unat_of_nat)
  then show ?thesis by (simp add: host16_def unat_of_nat)
qed

lemma sum16_bound: "sum16 bs \<le> 65535 * ((length bs + 1) div 2)"
proof (induction bs rule: sum16.induct)
  case (1 a b bs)
  have "unat a \<le> 255" "unat b \<le> 255"
    using unsigned_less [of a, where 'a = nat] unsigned_less [of b, where 'a = nat] by simp_all
  with 1 show ?case by simp
next
  case (2 a)
  have "unat a \<le> 255" using unsigned_less [of a, where 'a = nat] by simp
  then show ?case by simp
qed simp

text \<open>The folded sum is at most 65535, is the sum modulo 65535, and is 0 only for the sum 0.\<close>

lemma fold16_props:
  assumes "n < 65536 * 65535"
  shows "fold16 n \<le> 65535" "fold16 n mod 65535 = n mod 65535" "fold16 n = 0 \<longleftrightarrow> n = 0"
proof -
  define q r where "q = n div 65536" and "r = n mod 65536"
  have n: "n = 65536 * q + r" and qr: "q < 65535" "r < 65536"
    using assms by (simp_all add: q_def r_def less_mult_imp_div_less mult.commute)
  have f: "fold16 n = (q + r + (q + r) div 65536) mod 65536" by (simp add: fold16_def q_def r_def Let_def)
  have m: "n mod 65535 = (q + r) mod 65535"
  proof -
    have "n = (q + r) + 65535 * q" using n by simp
    then show ?thesis by (simp only: mod_mult_self2)
  qed
  have "fold16 n \<le> 65535 \<and> fold16 n mod 65535 = n mod 65535 \<and> (fold16 n = 0 \<longleftrightarrow> n = 0)"
  proof (cases "q + r < 65536")
    case True
    then show ?thesis using f n m by simp
  next
    case False
    define x where "x = q + r - 65536"
    with False have x: "q + r = 65536 + x" "x < 65535" using qr by simp_all
    have "(65536 + x) div 65536 = 1" using x(2) by (simp add: div_nat_eqI)
    then have "fold16 n = ((x + 1) + 65536 * 1) mod 65536" using f x(1) by simp
    then have "fold16 n = x + 1" using x(2) by (simp only: mod_mult_self2) simp
    moreover have "(65536 + x) mod 65535 = (x + 1) mod 65535"
    proof -
      have "65536 + x = (x + 1) + 65535 * 1" by simp
      then show ?thesis by (metis mod_mult_self2)
    qed
    moreover have "n \<noteq> 0" using n x(1) by auto
    ultimately show ?thesis using m x by simp
  qed
  then show "fold16 n \<le> 65535" "fold16 n mod 65535 = n mod 65535" "fold16 n = 0 \<longleftrightarrow> n = 0" by simp_all
qed

lemma fold16_full:
  assumes "n < 65536 * 65535"
  shows "fold16 n = 65535 \<longleftrightarrow> 0 < n \<and> n mod 65535 = 0"
proof
  assume "fold16 n = 65535"
  then show "0 < n \<and> n mod 65535 = 0" using fold16_props(2,3) [OF assms] by auto
next
  assume n: "0 < n \<and> n mod 65535 = 0"
  show "fold16 n = 65535"
  proof (rule ccontr)
    assume "fold16 n \<noteq> 65535"
    then have "fold16 n mod 65535 = fold16 n" using fold16_props(1) [OF assms] by simp
    then show False using n fold16_props(2,3) [OF assms] by simp
  qed
qed

text \<open>The checksum of bytes with sum \<open>S\<close>, and when it is zero.\<close>

lemma unat_cksum:
  assumes "S < 65536 * 65535"
  shows "unat (NOT (of_nat (fold16 S)) :: u16) = 65535 - fold16 S"
proof -
  have le: "fold16 S \<le> 65535" by (rule fold16_props(1) [OF assms])
  have "NOT (of_nat (fold16 S)) = (65535 - of_nat (fold16 S) :: u16)" by (simp add: not_eq_complement)
  also have "\<dots> = of_nat (65535 - fold16 S)" using le by (simp add: of_nat_diff)
  finally show ?thesis by (simp add: unat_of_nat)
qed

lemma in_cksum_Some:
  assumes "len \<le> length bs" "len \<le> 65536"
  shows "in_cksum bs len = Some (NOT (of_nat (fold16 (sum16 (take len bs)))))"
    "in_cksum bs len = Some 0 \<longleftrightarrow> 0 < sum16 (take len bs) \<and> sum16 (take len bs) mod 65535 = 0"
    "sum16 (take len bs) < 65536 * 65535"
proof -
  have "sum16 (take len bs) \<le> 65535 * ((len + 1) div 2)" using sum16_bound [of "take len bs"] assms(1) by simp
  also have "\<dots> \<le> 65535 * 32768" by (rule mult_le_mono2) (use assms(2) in simp)
  finally show lt: "sum16 (take len bs) < 65536 * 65535" by simp
  show run: "in_cksum bs len = Some (NOT (of_nat (fold16 (sum16 (take len bs)))))" using assms by (simp add: in_cksum_def)
  have "NOT (of_nat (fold16 (sum16 (take len bs)))) = (0 :: u16) \<longleftrightarrow> fold16 (sum16 (take len bs)) = 65535"
    using unat_cksum [OF lt] fold16_props(1) [OF lt] by (metis diff_is_0_eq le_antisym order_refl unat_eq_zero)
  then show "in_cksum bs len = Some 0 \<longleftrightarrow> 0 < sum16 (take len bs) \<and> sum16 (take len bs) mod 65535 = 0"
    using run fold16_full [OF lt] by simp
qed

text \<open>A sum completed by its own checksum, or by 65535 where that is zero.\<close>

lemma cksum_completes:
  assumes "S < 65536 * 65535"
  shows "(S + unat (NOT (of_nat (fold16 S)) :: u16)) mod 65535 = 0"
    "0 < S + unat (NOT (of_nat (fold16 S)) :: u16)"
proof -
  have u: "unat (NOT (of_nat (fold16 S)) :: u16) = 65535 - fold16 S" by (rule unat_cksum [OF assms])
  note f = fold16_props [OF assms]
  have "(S + (65535 - fold16 S)) mod 65535 = (fold16 S + (65535 - fold16 S)) mod 65535"
    using f(2) by (metis mod_add_left_eq)
  then show "(S + unat (NOT (of_nat (fold16 S)) :: u16)) mod 65535 = 0" using f(1) u by simp
  show "0 < S + unat (NOT (of_nat (fold16 S)) :: u16)" using f(3) u by (cases "S = 0") auto
qed

text \<open>One byte more or less never leaves the sum the same modulo 65535.\<close>

lemma sum16_update:
  assumes "i < length bs"
  shows "int (sum16 (bs[i := b])) = int (sum16 bs) + (if even i then 1 else 256) * (uint b - uint (bs ! i))"
  using assms
proof (induction bs arbitrary: i rule: sum16.induct)
  case (1 x y bs)
  consider "i = 0" | "i = 1" | j where "i = Suc (Suc j)" by (metis One_nat_def not0_implies_Suc)
  then show ?case
  proof cases
    case 1
    then show ?thesis by simp
  next
    case 2
    then show ?thesis by simp
  next
    case 3
    then show ?thesis using "1.IH" [of j] "1.prems" by simp
  qed
next
  case (2 x)
  then show ?case by simp
qed simp
section \<open>Built packets\<close>

lemma net16_bytes: "\<exists>a b. net16 w = [a, b]"
  by (simp add: be_bytes_def upt_rec)

lemma nid32_bytes4: "\<exists>a b c d. nid32_bytes w = [a, b, c, d]"
  by (simp add: be_bytes_def upt_rec)

lemma header_lengths [simp]: "length (host16 w) = 2" "length (iphdr len ipid c src dst) = 20" "length (udphdr sp dp ulen us) = 8"
  "length (ipovly ulen src dst) = 20"
  by (simp_all add: host16_def iphdr_def udphdr_def ipovly_def)

lemma sum16_iphdr: "sum16 (iphdr len ipid c src dst) = sum16 (iphdr len ipid 0 src dst) + unat c"
proof -
  obtain a b where n: "net16 len = [a, b]" using net16_bytes by blast
  obtain e f where m: "net16 ipid = [e, f]" using net16_bytes by blast
  show ?thesis by (simp add: iphdr_def n m sum16_append)
qed

lemma sum16_udp: "sum16 (ipovly ulen src dst @ udphdr sp dp ulen us @ msg)
    = sum16 (ipovly ulen src dst @ udphdr sp dp ulen 0 @ msg) + unat us"
  by (simp add: udphdr_def sum16_append ipovly_def)

text \<open>The test of a packet of that form: the header's checksum, then the checksum over the pseudo header.\<close>

lemma udpipchk_form:
  assumes c: "in_cksum (iphdr len ipid c src dst @ udphdr sp dp ulen us @ msg) 20 = Some 0" and us: "us \<noteq> 0"
  shows "udpipchk (iphdr len ipid c src dst @ udphdr sp dp ulen us @ msg) =
    (case in_cksum (ipovly ulen src dst @ udphdr sp dp ulen us @ msg) (unat ulen + 20) of
       None \<Rightarrow> None
     | Some x \<Rightarrow> if x \<noteq> 0 then Some (- 2, ipovly ulen src dst @ udphdr sp dp ulen us @ msg)
               else Some (0, iphdr len ipid c src dst @ udphdr sp dp ulen us @ msg))"
proof -
  obtain l1 l2 where l: "net16 len = [l1, l2]" using net16_bytes by blast
  obtain i1 i2 where i: "net16 ipid = [i1, i2]" using net16_bytes by blast
  obtain u1 u2 where u: "net16 ulen = [u1, u2]" using net16_bytes by blast
  obtain s1 s2 where s: "net16 sp = [s1, s2]" using net16_bytes by blast
  obtain d1 d2 where d: "net16 dp = [d1, d2]" using net16_bytes by blast
  obtain a1 a2 a3 a4 where a: "nid32_bytes src = [a1, a2, a3, a4]" using nid32_bytes4 by blast
  obtain b1 b2 b3 b4 where b: "nid32_bytes dst = [b1, b2, b3, b4]" using nid32_bytes4 by blast
  obtain c1 c2 where h: "host16 c = [c1, c2]" by (simp add: host16_def)
  obtain v1 v2 where v: "host16 us = [v1, v2]" by (simp add: host16_def)
  have nz: "\<not> (v1 = 0 \<and> v2 = 0)"
  proof
    assume "v1 = 0 \<and> v2 = 0"
    then have "unat us = 0" using sum16_host16 [of us] v by simp
    then show False using us by (simp add: unat_eq_zero)
  qed
  have uw: "(be_word [u1, u2] :: u16) = ulen" using be_word_be_bytes [of 2 ulen] u by simp
  have r: "replicate 9 (0 :: byte) = [0, 0, 0, 0, 0, 0, 0, 0, 0]" "replicate 8 (0 :: byte) = [0, 0, 0, 0, 0, 0, 0, 0]"
    by (simp_all add: numeral_eq_Suc)
  show ?thesis using c nz
    by (simp add: udpipchk_def iphdr_def udphdr_def ipovly_def l i u s d a b h v uw r put_at_def Let_def split: option.split)
qed

lemma udpipgen_built:
  assumes len: "28 + unat msglen \<le> length udpip" "unat msglen \<le> 65500"
  shows "\<exists>c us. udpipgen udpip src dst sp dp msglen ipid
      = Some (iphdr (msglen + 28) ipid c src dst @ udphdr sp dp (msglen + 8) us @ drop 28 udpip, ipid + 1) \<and> us \<noteq> 0 \<and>
    (\<forall>msg. in_cksum (iphdr (msglen + 28) ipid c src dst @ udphdr sp dp (msglen + 8) us @ msg) 20 = Some 0) \<and>
    in_cksum (ipovly (msglen + 8) src dst @ udphdr sp dp (msglen + 8) us @ drop 28 udpip) (unat msglen + 28) = Some 0"
proof -
  let ?msg = "drop 28 udpip" and ?n = "unat msglen + 28"
  let ?P = "\<lambda>us. ipovly (msglen + 8) src dst @ udphdr sp dp (msglen + 8) us @ ?msg"
  let ?I = "\<lambda>c. iphdr (msglen + 28) ipid c src dst"
  have lP: "?n \<le> length (?P us)" "?n \<le> 65536" for us using len by simp_all
  have tk: "take ?n (?P us) = ipovly (msglen + 8) src dst @ udphdr sp dp (msglen + 8) us @ take (unat msglen) ?msg" for us
    by simp
  define S where "S = sum16 (take ?n (?P 0))"
  have S: "S < 65536 * 65535" unfolding S_def by (rule in_cksum_Some(3) [OF lP])
  have sP: "sum16 (take ?n (?P us)) = S + unat us" for us unfolding S_def tk by (rule sum16_udp)
  define k where "k = (NOT (of_nat (fold16 S)) :: u16)"
  have k: "in_cksum (?P 0) ?n = Some k" using in_cksum_Some(1) [OF lP, of 0] by (simp add: k_def S_def)
  define us where "us = (if k = 0 then 0xFFFF else k)"
  have us: "us \<noteq> 0" by (simp add: us_def)
  have "0 < S + unat us \<and> (S + unat us) mod 65535 = 0"
    using cksum_completes [OF S] by (auto simp: us_def k_def [symmetric])
  then have P0: "in_cksum (?P us) ?n = Some 0" using in_cksum_Some(2) [OF lP, of us] sP [of us] by simp
  define T where "T = sum16 (?I 0)"
  have T: "T < 65536 * 65535" "in_cksum (?I 0) 20 = Some (NOT (of_nat (fold16 T)))"
    using in_cksum_Some(3) [of 20 "?I 0"] in_cksum_Some(1) [of 20 "?I 0"] by (simp_all add: T_def)
  let ?c = "NOT (of_nat (fold16 T)) :: u16"
  have I0: "in_cksum (?I ?c @ udphdr sp dp (msglen + 8) us @ msg) 20 = Some 0" for msg
    using in_cksum_Some(2) [of 20 "?I ?c @ udphdr sp dp (msglen + 8) us @ msg"] cksum_completes [OF T(1)]
    by (simp add: sum16_iphdr [of "msglen + 28" ipid ?c] T_def [symmetric])
  have "udpipgen udpip src dst sp dp msglen ipid = Some (?I ?c @ udphdr sp dp (msglen + 8) us @ ?msg, ipid + 1)"
    using k T(2) by (simp add: udpipgen_def us_def Let_def add.commute)
  then show ?thesis using us I0 P0 by blast
qed

text \<open>A built packet passes and is left as it was; with a byte of its message changed it does not pass.\<close>

lemma in_cksum_append: "len \<le> length bs \<Longrightarrow> in_cksum (bs @ rest) len = in_cksum bs len"
  by (simp add: in_cksum_def)

lemma udpipgen_append:
  assumes "28 + unat msglen \<le> length udpip"
  shows "udpipgen (udpip @ rest) src dst sp dp msglen ipid = map_option (\<lambda>(p, i). (p @ rest, i)) (udpipgen udpip src dst sp dp msglen ipid)"
proof -
  let ?b = "ipovly (msglen + 8) src dst @ udphdr sp dp (msglen + 8) 0 @ drop 28 udpip"
  have "drop 28 (udpip @ rest) = drop 28 udpip @ rest" using assms by simp
  moreover have "in_cksum (?b @ rest) (unat msglen + 28) = in_cksum ?b (unat msglen + 28)"
    by (rule in_cksum_append) (use assms in simp)
  ultimately show ?thesis
    by (cases "in_cksum ?b (unat msglen + 28)"; cases "in_cksum (iphdr (msglen + 28) ipid 0 src dst) 20")
      (simp_all add: udpipgen_def Let_def)
qed

text \<open>Whatever stands behind the message in the buffer.\<close>

lemma udpipchk_built:
  assumes "28 + unat msglen \<le> length udpip" "unat msglen \<le> 65500"
  shows "\<exists>h. length h = 28 \<and> take 4 (drop 12 h) = nid32_bytes src \<and> take 4 (drop 16 h) = nid32_bytes dst \<and>
    take 2 (drop 20 h) = net16 sp \<and> take 2 (drop 22 h) = net16 dp \<and> take 2 (drop 24 h) = net16 (msglen + 8) \<and>
    take 4 h = [69, 0] @ net16 (msglen + 28) \<and> h ! 9 = IPPROTO_UDP8 \<and>
    (\<forall>rest. udpipgen (udpip @ rest) src dst sp dp msglen ipid = Some (h @ drop 28 udpip @ rest, ipid + 1) \<and>
       udpipchk (h @ drop 28 udpip @ rest) = Some (0, h @ drop 28 udpip @ rest))"
proof -
  obtain c us where g: "udpipgen udpip src dst sp dp msglen ipid
      = Some (iphdr (msglen + 28) ipid c src dst @ udphdr sp dp (msglen + 8) us @ drop 28 udpip, ipid + 1)" "us \<noteq> 0"
      "\<forall>msg. in_cksum (iphdr (msglen + 28) ipid c src dst @ udphdr sp dp (msglen + 8) us @ msg) 20 = Some 0"
      "in_cksum (ipovly (msglen + 8) src dst @ udphdr sp dp (msglen + 8) us @ drop 28 udpip) (unat msglen + 28) = Some 0"
    using udpipgen_built [OF assms] by blast
  let ?h = "iphdr (msglen + 28) ipid c src dst @ udphdr sp dp (msglen + 8) us"
  have ul: "unat (msglen + 8) + 20 = unat msglen + 28" using assms(2) by (simp add: unat_word_ariths)
  have "udpipchk (?h @ drop 28 udpip @ rest) = Some (0, ?h @ drop 28 udpip @ rest)" for rest
  proof -
    let ?b = "ipovly (msglen + 8) src dst @ udphdr sp dp (msglen + 8) us @ drop 28 udpip"
    have "in_cksum (?b @ rest) (unat msglen + 28) = Some 0" using g(4) in_cksum_append [of "unat msglen + 28" ?b rest] assms(1) by simp
    then show ?thesis using udpipchk_form [OF spec [OF g(3), of "drop 28 udpip @ rest"] g(2)] unfolding ul by simp
  qed
  moreover have "take 4 (drop 12 ?h) = nid32_bytes src" "take 4 (drop 16 ?h) = nid32_bytes dst"
      "take 2 (drop 20 ?h) = net16 sp" "take 2 (drop 22 ?h) = net16 dp" "take 2 (drop 24 ?h) = net16 (msglen + 8)"
      "take 4 ?h = [69, 0] @ net16 (msglen + 28)" "?h ! 9 = IPPROTO_UDP8"
    by (simp_all add: iphdr_def udphdr_def nth_append)
  ultimately show ?thesis using g(1) udpipgen_append [OF assms(1), of _ src dst sp dp ipid]
    by (intro exI [of _ ?h]) simp
qed

lemma udpipchk_changed:
  assumes len: "28 + unat msglen \<le> length udpip" "unat msglen \<le> 65500"
    and gen: "udpipgen udpip src dst sp dp msglen ipid = Some (p, ipid')"
    and i: "28 \<le> i" "i < 28 + unat msglen" "x \<noteq> p ! i"
  shows "\<exists>buf. udpipchk (p[i := x]) = Some (- 2, buf)"
proof -
  let ?msg = "drop 28 udpip" and ?n = "unat msglen + 28"
  obtain c us where g: "p = iphdr (msglen + 28) ipid c src dst @ udphdr sp dp (msglen + 8) us @ ?msg" "us \<noteq> 0"
      "\<forall>msg. in_cksum (iphdr (msglen + 28) ipid c src dst @ udphdr sp dp (msglen + 8) us @ msg) 20 = Some 0"
      "in_cksum (ipovly (msglen + 8) src dst @ udphdr sp dp (msglen + 8) us @ ?msg) ?n = Some 0"
    using udpipgen_built [OF len, of src dst sp dp ipid] gen by auto
  define j where "j = i - 28"
  have j: "i = 28 + j" "j < unat msglen" "j < length ?msg" using i len by (simp_all add: j_def)
  let ?Q = "\<lambda>msg. ipovly (msglen + 8) src dst @ udphdr sp dp (msglen + 8) us @ msg"
  have p': "p[i := x] = iphdr (msglen + 28) ipid c src dst @ udphdr sp dp (msglen + 8) us @ ?msg[j := x]"
    by (simp add: g(1) j(1) list_update_append)
  have pi: "p ! i = take (unat msglen) ?msg ! j" using j by (simp add: g(1) nth_append)
  have ul: "unat (msglen + 8) + 20 = ?n" using len(2) by (simp add: unat_word_ariths)
  have L: "?n \<le> length (?Q msg)" "?n \<le> 65536" if "length msg = length ?msg" for msg using that len by simp_all
  have tk: "take ?n (?Q msg) = (ipovly (msglen + 8) src dst @ udphdr sp dp (msglen + 8) us) @ take (unat msglen) msg" for msg
    by simp
  define S where "S = sum16 (take ?n (?Q ?msg))"
  define S' where "S' = sum16 (take ?n (?Q (?msg[j := x])))"
  have m: "S mod 65535 = 0" using in_cksum_Some(2) [OF L [OF refl]] g(4) by (simp add: S_def)
  define u v :: int where "u = uint x" and "v = uint (take (unat msglen) ?msg ! j)"
  define w where "w = (if even j then 1 else 256) * (u - v)"
  have up: "int S' = int S + w"
    using sum16_update [of j "take (unat msglen) ?msg" x] j
    by (simp add: S_def S'_def tk sum16_append take_update_swap w_def u_def v_def)
  have "u \<noteq> v" using i(3) pi unfolding u_def v_def by (metis word_uint_eqI)
  moreover have "0 \<le> u" "u < 256" "0 \<le> v" "v < 256"
    using unsigned_less [of x, where 'a = int] unsigned_less [of "take (unat msglen) ?msg ! j", where 'a = int]
    by (simp_all add: u_def v_def)
  ultimately have w: "- 65535 < w" "w < 65535" "w \<noteq> 0" by (auto simp: w_def)
  have "S' mod 65535 \<noteq> 0"
  proof
    assume "S' mod 65535 = 0"
    then have "65535 dvd S'" by (rule mod_0_imp_dvd)
    then have "int 65535 dvd int S'" by (simp only: int_dvd_int_iff)
    moreover have "int 65535 dvd int S" unfolding int_dvd_int_iff by (rule mod_0_imp_dvd [OF m])
    ultimately have "int 65535 dvd w" using up by (metis add_diff_cancel_left' dvd_diff)
    then show False using dvd_imp_le_int [OF w(3)] w(1,2) by fastforce
  qed
  then obtain y where y: "in_cksum (?Q (?msg[j := x])) (unat (msglen + 8) + 20) = Some y" "y \<noteq> 0"
    using in_cksum_Some(1,2) [OF L [OF length_list_update [of ?msg j x]]] unfolding ul S'_def by auto
  have "udpipchk (p[i := x]) = Some (- 2, ?Q (?msg[j := x]))"
    unfolding p' by (subst udpipchk_form) (use g(2,3) y in \<open>simp_all\<close>)
  then show ?thesis by blast
qed

end
