(* ===== verification/Concrete_Nodes.thy ===== *)
theory Concrete_Nodes
  imports Network DHCP_Client DHCP_Packet
begin

text \<open>The states the properties are instantiated at.\<close>

text \<open>
  Small states the properties are applied at: a mobile node 9 with a packet for node 5, that node, a
  gateway 3, the node 7 of the rendez-vous service and its server.
\<close>

abbreviation noon :: clock where "noon \<equiv> \<lambda>_. \<lparr>tv_sec = 43200, tv_usec = 0\<rparr>"

definition pkt0 :: "byte list" where
  "pkt0 = [69, 0, 0, 20, 0, 0, 0, 0, 64, 17, 0, 0, 1, 0, 0, 9, 1, 0, 0, 5]"

definition host_a :: node where
  "host_a = node0\<lparr>cf_nid := 9, cf_nidrvs := 7, cf_nidgw := 3, pho_nh := zero_header\<lparr>h_srcNID := 9\<rparr>, sp_nf2ph := [pkt0],
     nid32Table := nid32_put 16777221 \<lparr>nm32_fqdn = [], nm32_nid = 5, nm32_nidgw = 3\<rparr> (nid32Table node0)\<rparr>"

definition host_b :: node where "host_b = node0\<lparr>cf_nid := 5, cf_nidrvs := 7\<rparr>"
definition gw_3 :: node where "gw_3 = node0\<lparr>cf_nid := 3, cf_nidgw := 4\<rparr>"
definition rvs_7 :: node where "rvs_7 = node0\<lparr>cf_nid := 7, cf_nidgw := 3\<rparr>"

definition server0 :: rvs_state where
  "server0 = init_rvs_table \<lparr>rvs_table = null_table, rvs_buf = replicate RVS_MAXBUFLEN 0\<rparr>"

text \<open>The server with the registration of node 9.\<close>

definition server9 :: rvs_state where
  "server9 = server0\<lparr>rvs_table := nid_put 9 \<lparr>ce_ip = 167772161, ce_tstamp = 43200\<rparr> (rvs_table server0)\<rparr>"

lemma server0_ok: "rvs_ok server0"
  by (simp add: rvs_ok_def server0_def init_rvs_table_def nidt.ok_construct)

lemma server9_ok: "rvs_ok server9" "rvs_map server9 9 = Some \<lparr>ce_ip = 167772161, ce_tstamp = 43200\<rparr>"
  using server0_ok by (simp_all add: server9_def rvs_ok_def nidt.ok_put nidt.view_put)

lemma pkt0_fields: "length pkt0 = 20" "ip_daddr pkt0 = 16777221" "ip_proto_known pkt0"
  by (simp_all add: pkt0_def ip_daddr_def nid32_at_def be_word_def ip_proto_known_def ip_protocol_def)

lemma node0_queues [simp]:
  "sp_ph2nr node0 = []" "sp_nr2ph node0 = []" "sp_nr node0 = []" "sp_nf2ph node0 = []" "sp_rvs2ph node0 = []"
  "sp_mo2ph node0 = []" "sp_gwt2ph node0 = []" "sp_ph2co node0 = []" "sp_co2rvs node0 = []" "sp_rvs2gwt node0 = []"
  "sp_co2gwl node0 = []" "sp_gwl2gwt node0 = []" "sp_cm2rvs node0 = []" "sp_dht node0 = []"
  by (simp_all add: node0_def boot_def)

lemma node0_views [simp]:
  "nid_view (connmap node0) = (\<lambda>_. None)" "nid_view (rtable node0) = (\<lambda>_. None)"
  "nid_view (registry_table node0) = (\<lambda>_. None)" "nid_view (dhtable node0) = (\<lambda>_. None)"
  "nid_view (nidTable node0) = (\<lambda>_. None)" "nid32_view (nid32Table node0) = (\<lambda>_. None)"
  "fqdn_view (fqdnTable node0) = (\<lambda>_. None)" "rvs_locks node0 = (\<lambda>_. None)" "dht_locks node0 = (\<lambda>_. None)"
  by (simp_all add: node0_fields nidt.view_construct nid32t.view_construct fqdnt.view_construct lockt_construct)

lemma nodes_ok [simp]: "node_ok host_a" "node_ok host_b" "node_ok gw_3" "node_ok rvs_7"
proof -
  have "nid32_ok (nid32_put 16777221 \<lparr>nm32_fqdn = [], nm32_nid = 5, nm32_nidgw = 3\<rparr> (nid32Table node0))"
    using node0_ok by (simp add: nid32t.ok_put node_ok_defs)
  then show "node_ok host_a" using node0_ok
    by (auto simp: host_a_def node_ok_defs linked_def)
qed (use node0_ok in \<open>simp_all add: host_b_def gw_3_def rvs_7_def\<close>)

text \<open>A node that knows the names with the one label \<open>a\<close> and \<open>b\<close>, and queries for them.\<close>

definition query_for :: "byte \<Rightarrow> byte list" where
  "query_for b = replicate 12 0 @ [1, b, 0, 0, 1, 0, 1]"

definition asker :: node where
  "asker = node0\<lparr>threads := [Dnshandler],
     fqdnTable := fqdn_put [1, 98] Ptr_ansAns (fqdn_put [1, 97] Ptr_ansAns (fqdnTable node0)),
     dns_ansAns := bytes_of ''::5'' @ replicate 37 0 @ bytes_of ''::3'' @ replicate 213 0\<rparr>"

lemma asker_nids: "get_nids (dns_ansAns asker) = (''::5'', ''::3'')"
  by (simp add: asker_def get_nids_def bytes_of_def cstring_def of_char_def char_of_eq_iff take_bit_eq_mod)

lemma asker_ids: "\<exists>n. inet_pton6 ''::5'' = Some n" "\<exists>n. inet_pton6 ''::3'' = Some n"
  by (simp_all add: inet_pton6_def pton6_finish_def hex_digit_value_def of_char_def is_dec_def)

lemma asker_query:
  assumes "c \<noteq> 0"
  shows "\<exists>b. modify_dns_query (dgram_read BUFFER_LENGTH (query_for c) (dns_buffer asker)) = Some (b, [1, c], 1) \<and>
       dns_name b = Some [1, c]"
proof -
  let ?b = "query_for c @ replicate 493 0"
  have b: "dgram_read BUFFER_LENGTH (query_for c) (dns_buffer asker) = ?b"
    by (simp add: asker_def node0_def boot_def query_for_def dgram_read_def overlay_def)
  have n: "dns_name ?b = Some [1, c]" using assms by (simp add: dns_name_def query_for_def)
  have q: "rd16 15 ?b = Some 1" by (simp add: rd16_def rd_def query_for_def be_word_def)
  have w: "wr 15 (be16 16) ?b = Some (replicate 12 0 @ [1, c, 0] @ be16 16 @ [0, 1] @ replicate 493 0)"
    by (simp add: wr_def query_for_def)
  show ?thesis using assms by (simp add: modify_dns_query_def b n q w) (simp add: dns_name_def)
qed

lemma asker_ok: "node_ok asker" "Dnshandler \<in> set (threads asker)" "length (dns_buffer asker) = BUFFER_LENGTH"
  "fqdn_view (fqdnTable asker) [1, 97] = Some Ptr_ansAns" "fqdn_view (fqdnTable asker) [1, 98] = Some Ptr_ansAns"
proof -
  have t: "fqdn_ok (fqdnTable node0)" by (simp add: node0_fields fqdnt.ok_construct)
  then show "node_ok asker" using node0_ok by (simp add: asker_def node_ok_defs fqdnt.ok_put)
  show "fqdn_view (fqdnTable asker) [1, 97] = Some Ptr_ansAns" "fqdn_view (fqdnTable asker) [1, 98] = Some Ptr_ansAns"
    using t by (simp_all add: asker_def fqdnt.view_put fqdnt.ok_put)
qed (simp_all add: asker_def node0_def boot_def)

text \<open>The identity 3ffe::123, whose text is longer than most locators'.\<close>

abbreviation nid_123 :: NID where "nid_123 \<equiv> 85060207136517546210586590865283612963"

lemma nid_123_text: "inet_ntop6 nid_123 = ''3ffe::123''"
proof -
  have g: "nid_groups nid_123 = [16382, 0, 0, 0, 0, 0, 0, 291]"
    by (simp add: nid_groups_def upt_rec drop_bit_eq_div take_bit_eq_mod)
  have b: "ntop6_best 0 None None [16382, 0, 0, 0, 0, 0, 0, 291] = Some (1, 6)" by simp
  have e: "inet_ntop6 nid_123 = num_string 16 16382 @ ''::'' @ num_string 16 291"
    by (simp add: inet_ntop6_def g b)
  have c: "num_string 16 16382 = ''3ffe''" "num_string 16 291 = ''123''"
    by (simp_all add: num_string.simps digit_char_def char_of_eq_iff take_bit_eq_mod)
  show ?thesis by (simp add: e c)
qed

lemma locator_texts: "inet_ntop4 167772161 = ''10.0.0.1''" "inet_ntop4 167772172 = ''10.0.0.12''"
  "inet_pton4 ''10.0.0.13'' = Some 167772173"
proof -
  have w: "nid32_bytes 167772161 = [10, 0, 0, 1]" "nid32_bytes 167772172 = [10, 0, 0, 12]" by code_simp+
  have d: "num_string 10 10 = ''10''" "num_string 10 0 = ''0''" "num_string 10 (Suc 0) = ''1''" "num_string 10 12 = ''12''"
    by (simp_all add: num_string.simps digit_char_def char_of_eq_iff take_bit_eq_mod)
  show "inet_ntop4 167772161 = ''10.0.0.1''" "inet_ntop4 167772172 = ''10.0.0.12''"
    by (simp_all add: inet_ntop4_def w d)
  show "inet_pton4 ''10.0.0.13'' = Some 167772173" by code_simp
qed

text \<open>A DHCP client that has received nothing, and the options of an acknowledgement.\<close>

abbreviation ack_options :: "(byte \<times> byte list) list" where
  "ack_options \<equiv> [(53, [5]), (54, [10, 0, 0, 2]), (17, bytes_of ''3ffe::1|3ffe::2|10.0.0.2|3ffe::7|10.0.0.7|3ffe::5|'')]"

lemma ack_options_ok: "plain_options ack_options" "length (enc_options ack_options) < 308" "plain_options (take 2 ack_options)"
  by (simp_all add: plain_options_def enc_options_def bytes_of_def)

definition no_options :: dhcp_options where
  "no_options = \<lparr>do_num = 0, do_len = (\<lambda>_. 0), do_val = (\<lambda>_. None)\<rparr>"

definition client0 :: dhcp_state where
  "client0 = \<lparr>dc_opts = no_options, dc_yiaddr = 0, dc_out = []\<rparr>"

lemma client0_ok: "opts_ok (dc_opts client0)" "quads_ok (dc_opts client0)" "opt_text (dc_opts client0) c"
  "do_val (dc_opts client0) c = None"
  by (simp_all add: client0_def no_options_def opts_ok_def quads_ok_def opt_text_def)

end
