(* ===== verification/Component_Properties.thy ===== *)
theory Component_Properties
  imports Concrete_Nodes
begin

text \<open>
  The properties of the single components: tables, locks, wire formats, configuration, mappers, routing,
  packet handler, rendez-vous server, DHT and DNS, each with an instance at a concrete state.
\<close>

section \<open>Tables\<close>



text \<open>Running out of memory. An insertion that gets no memory for a new bucket answers null and leaves the
  table as it was; for a key that is in the table it needs none and replaces the data. A table whose
  construction got no memory has size 0, and every operation on it divides by zero.\<close>

theorem insert_without_memory:
  assumes "nid_ok t"
  shows "(\<exists>t'. hash_insert False nid d t = Some (nid_view t nid, t') \<and> nid_ok t' \<and>
      nid_view t' = (if nid_view t nid = None then nid_view t else (nid_view t)(nid := Some d))) \<and>
    hash_insert mem nid d (construct_hash_table False n) = None \<and>
    hash_lookup nid (construct_hash_table False n :: (NID, 'd) hash_table) = None \<and>
    hash_del nid (construct_hash_table False n :: (NID, 'd) hash_table) = None"
  using tbl_insert_view [OF assms, of False nid d]
  by (auto simp: hash_insert_def hash_lookup_def hash_del_def construct_hash_table_def tbl_construct_def
      tbl_insert_def tbl_lookup_def tbl_del_def tbl_slot_def)

theorem insert_without_memory_witness:
  "(\<exists>t'. hash_insert False 1 (7 :: nat) (nid_put 2 3 (construct_hash_table True 4)) = Some (None, t') \<and> nid_ok t' \<and>
      nid_view t' 2 = Some 3) \<and>
    hash_lookup 1 (construct_hash_table False 4 :: (NID, nat) hash_table) = None"
proof -
  have ok: "nid_ok (construct_hash_table True 4 :: (NID, nat) hash_table)" by (simp add: nidt.ok_construct)
  from insert_without_memory [OF nidt.ok_put [OF ok, of 2 3], of 1 7 True 4] show ?thesis
    using ok by (auto simp: nidt.view_put nidt.view_construct)
qed

text \<open>Enumeration of connections. The list the tables are enumerated into holds, behind what it held, exactly the
  identities with a live entry at the time, each once with its locator's text, and its count is its length.\<close>

theorem enumeration_exact:
  assumes "nid_ok t" "ll_ok ll"
  shows "let ll' = hash_enumerate (\<lambda>_. now) t ll; new = drop (length (ll_next ll)) (ll_next ll') in
    take (length (ll_next ll)) (ll_next ll') = ll_next ll \<and> ll_ok ll' \<and> distinct (map ln_nid new) \<and>
    (\<forall>nid. nid \<in> ln_nid ` set new \<longleftrightarrow> (\<exists>ce. nid_view t nid = Some ce \<and> ce_live now ce)) \<and>
    (\<forall>n. n \<in> set new \<longrightarrow> (\<exists>ce. nid_view t (ln_nid n) = Some ce \<and> ln_ip n = inet_ntop4 (ce_ip ce)))"
proof -
  let ?new = "map node_of (filter (\<lambda>p. ce_live now (b_data p)) (tbl_nodes t))"
  have keys: "map ln_nid ?new = map b_key (filter (\<lambda>p. ce_live now (b_data p)) (tbl_nodes t))"
    by (simp add: node_of_def)
  have "distinct (map ln_nid ?new)"
    unfolding keys by (rule distinct_map_filter [OF tbl_nodes_distinct [OF assms(1)]])
  moreover have "nid \<in> ln_nid ` set ?new \<longleftrightarrow> (\<exists>ce. nid_view t nid = Some ce \<and> ce_live now ce)" for nid
    using tbl_view_nodes [OF assms(1), of nid] by (force simp: node_of_def)
  moreover have "\<exists>ce. nid_view t (ln_nid n) = Some ce \<and> ln_ip n = inet_ntop4 (ce_ip ce)" if "n \<in> set ?new" for n
    using that tbl_nodes_view [OF assms(1)] by (auto simp: node_of_def)
  moreover have "ll_ok (hash_enumerate (\<lambda>_. now) t ll)"
    using assms(2) by (simp add: hash_enumerate_def)
  ultimately show ?thesis unfolding Let_def by (simp add: hash_enumerate_now)
qed

theorem enumeration_exact_witness:
  "let ll' = hash_enumerate (\<lambda>_. 100) (nid_put 5 \<lparr>ce_ip = 1, ce_tstamp = 0\<rparr> (construct_hash_table True 20)) init_ll;
     new = drop (length (ll_next init_ll)) (ll_next ll') in
    take (length (ll_next init_ll)) (ll_next ll') = ll_next init_ll \<and> ll_ok ll' \<and> distinct (map ln_nid new) \<and>
    (\<forall>nid. nid \<in> ln_nid ` set new \<longleftrightarrow> (\<exists>ce. nid_view (nid_put 5 \<lparr>ce_ip = 1, ce_tstamp = 0\<rparr>
       (construct_hash_table True 20)) nid = Some ce \<and> ce_live 100 ce)) \<and>
    (\<forall>n. n \<in> set new \<longrightarrow> (\<exists>ce. nid_view (nid_put 5 \<lparr>ce_ip = 1, ce_tstamp = 0\<rparr> (construct_hash_table True 20))
       (ln_nid n) = Some ce \<and> ln_ip n = inet_ntop4 (ce_ip ce)))"
  by (rule enumeration_exact) (simp_all add: nidt.ok_put nidt.ok_construct)

section \<open>Locks\<close>



text \<open>C40. A lock taken in the last 150 milliseconds of a second never expires: only the microseconds of the two
  times are compared, so whenever the query comes, it answers that the identity is queued.\<close>

theorem late_lock_never_expires:
  assumes "rvs_locks_ok s" "850000 \<le> tv_usec t0" "tv_usec now < 1000000"
  shows "\<exists>s'. queue t0 nid s = Some s' \<and> isQueued now nid s' = Some (True, s')"
proof -
  obtain s1 where s1: "queue t0 nid s = Some s1" using rvsq.enq_spec [OF assms(1)] by blast
  show ?thesis using s1 rvsq.never_expires [OF assms(1) s1 assms(2,3)] by blast
qed

theorem late_lock_never_expires_witness:
  "\<exists>s'. queue \<lparr>tv_sec = 5, tv_usec = 900000\<rparr> 9 node0 = Some s' \<and>
     isQueued \<lparr>tv_sec = 1000000, tv_usec = 999999\<rparr> 9 s' = Some (True, s')"
  by (rule late_lock_never_expires) (simp_all add: node0_fields lockt_construct)

section \<open>Wire formats\<close>


text \<open>C32. 32-bit identities. The 32-bit identity is the last 24 bits of the identity behind a byte 1; two identities
  have the same one exactly when they agree on those bits, and the configuration, the DNS handler and the mappers
  compute the same one.\<close>

theorem nid32_bits:
  "nid2nid32 a = 16777216 OR (ucast a AND 16777215) \<and> dns_nid32 a = nid2nid32 a \<and>
   cf_nid32 (setNID32 s) = nid2nid32 (cf_nid s) \<and>
   (nid2nid32 a = nid2nid32 b) = (ucast a AND 16777215 = (ucast b AND 16777215 :: NID32)) \<and>
   nid2nid32 1 = nid2nid32 (1 + 16777216)"
proof -
  have "nid2nid32 1 = nid2nid32 (1 + 16777216)" by (simp add: nid2nid32_bits)
  then show ?thesis
    using nid2nid32_bits [of a] nid2nid32_eq_iff [of a b] by (simp add: dns_nid32_eq_nid2nid32 setNID32_eq)
qed


section \<open>Configuration\<close>

text \<open>Reading the configuration. Whatever the document, when the configuration file is read the 32-bit identity
  is that of the identity and the address text of the DNS server that of its identity (or they are the initial ones), the
  interface name fits its buffer, and nothing but the configuration is touched.\<close>

theorem configuration_in_step:
  assumes "read_config content doc s = Some c" "conf_inv s"
  shows "conf_inv c \<and> conf.more c = conf.more s"
proof -
  obtain root where "get_data content root s = Some c"
    using assms(1) by (auto simp: read_config_def split: option.splits)
  then show ?thesis using get_data_conf_inv [OF _ assms(2)] get_data_more by blast
qed

theorem configuration_in_step_witness:
  "\<exists>c. read_config (\<lambda>_. Some ''eth0'') (Some [XmlNode True ''primaryIface'' []]) conf0 = Some c \<and>
    conf_inv c \<and> cf_primaryIface c = ''eth0''"
proof -
  have c: "read_config (\<lambda>_. Some ''eth0'') (Some [XmlNode True ''primaryIface'' []]) conf0
      = Some (conf0\<lparr>cf_primaryIface := ''eth0''\<rparr>)"
    by (simp add: read_config_def get_data_node_def get_data_core_def get_data_iface_def on_tag_def set_iface_def
        Let_def conf0_def)
  have "conf_inv conf0" by (simp add: conf_inv_def conf0_def)
  from configuration_in_step [OF c this] show ?thesis using c by auto
qed

section \<open>Connection mapper\<close>

text \<open>C12. What the connection mapper answers. For an identity with a usable entry (static, fresh, or younger than
  the lifetime) it answers the entry's locator, and asks the rendez-vous service once, taking the lock, when the
  entry is about to expire and no request is under way; otherwise it answers the gateway's locator, enters that
  for the identity, and asks.\<close>

theorem connection_answers:
  assumes "cm_ok s"
  shows "if cm_hit clk nid (conns s)
    then \<exists>q. getCMEntry clk nid s = Some (True, ce_ip (the (conns s nid)), s\<lparr>queue_table := q,
           sp_cm2rvs := sp_cm2rvs s @ (if cm_renews clk nid (conns s) (rvs_locks s) then [nid_bytes nid] else [])\<rparr>) \<and>
         lockt q = (if cm_renews clk nid (conns s) (rvs_locks s) then (rvs_locks s)(nid := Some (clk 3)) else rvs_locks s)
    else \<exists>t. getCMEntry clk nid s = Some (False, cm_gatewayIP s, s\<lparr>connmap := t,
           sp_cm2rvs := sp_cm2rvs s @ [nid_bytes nid]\<rparr>) \<and>
         nid_view t = (conns s)(nid := Some \<lparr>ce_ip = cm_gatewayIP s, ce_tstamp = miss_time clk nid (conns s)\<rparr>)"
proof (cases "cm_hit clk nid (conns s)")
  case True
  then obtain ce where "conns s nid = Some ce" "cm_usable clk ce" by (auto simp: cm_hit_def split: option.splits)
  from getCMEntry_hit [OF assms this] show ?thesis using True \<open>conns s nid = Some ce\<close> by auto
next
  case False
  from getCMEntry_no_hit [OF assms False] show ?thesis using False by auto
qed

theorem connection_answers_witness:
  "\<exists>t. getCMEntry noon 5 node0 = Some (False, cm_gatewayIP node0, node0\<lparr>connmap := t, sp_cm2rvs := [nid_bytes 5]\<rparr>) \<and>
    nid_view t 5 = Some \<lparr>ce_ip = cm_gatewayIP node0, ce_tstamp = 43200\<rparr>"
  using connection_answers [OF node_okD(3) [OF node0_ok], of noon 5]
  by (auto simp: cm_hit_def miss_time_def)

text \<open>C26. Static entries. An entry that was static stays as it is whatever locators are learnt for the
  identity, and is answered at any time without asking the rendez-vous service.\<close>

theorem static_entry_stays:
  assumes "cm_ok s" "conns s nid = Some \<lparr>ce_ip = ip, ce_tstamp = 0\<rparr>"
  shows "\<exists>s'. newCMEntry clk nid ip' s = Some s' \<and> conns s' = conns s \<and>
    (\<exists>q. getCMEntry clk' nid s' = Some (True, ip, s'\<lparr>queue_table := q\<rparr>))"
proof -
  have ok: "nid_ok (connmap s)" using assms(1) by (simp add: cm_ok_def)
  obtain t where t: "newCMEntry clk nid ip' s = Some (s\<lparr>connmap := t\<rparr>)" "nid_ok t"
      "nid_view t = learn (tv_sec (clk 0)) nid ip' (conns s)" using newCMEntry_spec [OF ok] by blast
  have same: "nid_view t = conns s" using t(3) assms(2) by (simp add: learn_def)
  let ?s = "s\<lparr>connmap := t\<rparr>"
  have "cm_ok ?s" using assms(1) t(2) by (simp add: cm_ok_def)
  moreover have "conns ?s nid = Some \<lparr>ce_ip = ip, ce_tstamp = 0\<rparr>" using same assms(2) by simp
  moreover have "cm_usable clk' \<lparr>ce_ip = ip, ce_tstamp = 0\<rparr>" by (simp add: cm_usable_def cm_fresh_def)
  moreover have "\<not> cm_renews clk' nid (conns ?s) (rvs_locks ?s)"
    using same assms(2) by (simp add: cm_renews_def cm_fresh_def)
  ultimately show ?thesis using getCMEntry_hit [of ?s nid _ clk'] t(1) same by fastforce
qed

theorem static_entry_stays_witness:
  "\<exists>s'. newCMEntry noon 7 99 (node0\<lparr>connmap := nid_put 7 \<lparr>ce_ip = 3, ce_tstamp = 0\<rparr> (connmap node0)\<rparr>) = Some s' \<and>
    (\<exists>q. getCMEntry noon 7 s' = Some (True, 3, s'\<lparr>queue_table := q\<rparr>))"
proof -
  let ?s = "node0\<lparr>connmap := nid_put 7 \<lparr>ce_ip = 3, ce_tstamp = 0\<rparr> (connmap node0)\<rparr>"
  have ok: "nid_ok (connmap node0)" using node_okD(6) [OF node0_ok] .
  have "cm_ok ?s" using node_okD(3) [OF node0_ok] by (simp add: cm_ok_def nidt.ok_put)
  moreover have "conns ?s 7 = Some \<lparr>ce_ip = 3, ce_tstamp = 0\<rparr>" using ok by (simp add: nidt.view_put)
  ultimately show ?thesis using static_entry_stays [of ?s 7 3 noon 99 noon] by blast
qed



section \<open>Identity mapper\<close>

text \<open>C25. The two tables of the identity mapper. After an identity is entered with its gateway, a lookup by the
  identity finds the gateway and a lookup by its 32-bit identity finds both; no other identity and no other 32-bit
  identity is affected; and the tables stay linked: whatever identity has a gateway is found under its 32-bit identity.\<close>

theorem mapper_lookup_after_insert:
  assumes "nm_ok s"
  shows "\<exists>s' e e32. newNMEntry nid gw s = Some s' \<and> nm_ok s' \<and>
    getNMEntry nid s' = Some (Some e) \<and> nm_nidgw e = gw \<and>
    getNMEntry32 (nid2nid32 nid) s' = Some (Some e32) \<and> nm32_nid e32 = nid \<and> nm32_nidgw e32 = gw \<and>
    nm_gw s' = (nm_gw s)(nid := Some gw) \<and> nm_pair s' = (nm_pair s)(nid2nid32 nid := Some (nid, gw))"
proof -
  obtain t t32 where t: "newNMEntry nid gw s = Some (s\<lparr>nidTable := t, nid32Table := t32\<rparr>)"
    "nm_ok (s\<lparr>nidTable := t, nid32Table := t32\<rparr>)"
    "nm_gw (s\<lparr>nidTable := t, nid32Table := t32\<rparr>) = (nm_gw s)(nid := Some gw)"
    "nm_pair (s\<lparr>nidTable := t, nid32Table := t32\<rparr>) = (nm_pair s)(nid2nid32 nid := Some (nid, gw))"
    using newNMEntry_ok [OF assms] by blast
  have ok: "nid_ok t" "nid32_ok t32" using t(2) by (simp_all add: nm_ok_def nm_tables_ok_def)
  obtain e where e: "nid_view t nid = Some e" "nm_nidgw e = gw"
    using fun_cong [OF t(3), of nid] by (auto simp: nm_gw_def)
  obtain e32 where e32: "nid32_view t32 (nid2nid32 nid) = Some e32" "nm32_nid e32 = nid" "nm32_nidgw e32 = gw"
    using fun_cong [OF t(4), of "nid2nid32 nid"] by (auto simp: nm_pair_def)
  show ?thesis using t ok e e32 by (auto simp: getNMEntry_def getNMEntry32_def table_simps)
qed

theorem mapper_lookup_after_insert_witness:
  "\<exists>s' e32. newNMEntry 5 3 node0 = Some s' \<and> getNMEntry32 (nid2nid32 5) s' = Some (Some e32) \<and> nm32_nid e32 = 5"
  using mapper_lookup_after_insert [OF node_okD(1) [OF node0_ok], of 5 3] by blast

text \<open>A new DNS server is entered and the old one stays. When the configuration names a new DNS server, the
  mapper enters its identity with the core gateway; the variable with the old server's identity is never set,
  so the old server's gateway entry is not removed.\<close>

theorem old_dns_server_stays:
  assumes "nm_ok s" "nm_niddns s = 0" "nm_gw s old = Some gw" "old \<noteq> 0" "old \<noteq> cf_niddns s"
  shows "\<exists>s'. updateNM s = Some s' \<and> nm_ok s' \<and> nm_gw s' (cf_niddns s) = Some (cf_nidcore s) \<and>
    nm_pair s' (nid2nid32 (cf_niddns s)) = Some (cf_niddns s, cf_nidcore s) \<and> nm_gw s' old = Some gw \<and>
    nm_niddns s' = 0"
  using updateNM_spec [OF assms(1)] assms(2-5) by auto

theorem old_dns_server_stays_witness:
  "\<exists>s s'. newNMEntry 8 3 (node0\<lparr>cf_niddns := 9, cf_nidcore := 4\<rparr>) = Some s \<and> updateNM s = Some s' \<and>
    nm_gw s' 9 = Some 4 \<and> nm_gw s' 8 = Some 3"
proof -
  let ?s0 = "node0\<lparr>cf_niddns := 9, cf_nidcore := 4\<rparr>"
  have "nm_ok ?s0" using node0_ok by (simp add: node_ok_def nm_ok_def nm_tables_ok_def nm_gw_def nm_pair_def)
  from newNMEntry_ok [OF this, of 8 3] obtain t t32 where s: "newNMEntry 8 3 ?s0 = Some (?s0\<lparr>nidTable := t, nid32Table := t32\<rparr>)"
      "nm_ok (?s0\<lparr>nidTable := t, nid32Table := t32\<rparr>)"
      "nm_gw (?s0\<lparr>nidTable := t, nid32Table := t32\<rparr>) = (nm_gw ?s0)(8 := Some 3)" by blast
  have "nm_niddns (?s0\<lparr>nidTable := t, nid32Table := t32\<rparr>) = 0" by (simp add: node0_def boot_def)
  with old_dns_server_stays [OF s(2) this, of 8 3] s show ?thesis by auto
qed

section \<open>Routing\<close>

text \<open>C24. A route is used while it is live. The routing table answers the locator of an entry that is static or
  younger than the gateways' timeout, unless the locator is 0, and otherwise the gateway's; an entry that is too
  old is deleted, and nothing else changes.\<close>

theorem route_lookup:
  assumes "nid_ok (rtable s)"
  shows "\<exists>t. getRTEntry clk nid s = Some (route_hit (tv_sec (clk 0)) nid (routes s) \<noteq> None, rt_locator clk nid s,
      s\<lparr>rtable := t\<rparr>) \<and>
    nid_view t = (case routes s nid of None \<Rightarrow> routes s
      | Some ce \<Rightarrow> if tv_sec (clk 0) < ce_tstamp ce + GATEWAY_TIMEOUT \<or> ce_tstamp ce = 0 then routes s
                   else (routes s)(nid := None))"
proof -
  obtain t where "getRTEntry clk nid s = Some (route_hit (tv_sec (clk 0)) nid (routes s) \<noteq> None, rt_locator clk nid s,
      s\<lparr>rtable := t\<rparr>)" "nid_view t = route_prune (tv_sec (clk 0)) nid (routes s)"
    using getRTEntry_spec [OF assms, of clk nid] unfolding rt_locator_def by blast
  then show ?thesis
    by - (rule exI [of _ t], cases "routes s nid", simp_all add: route_prune_def route_live_def)
qed

theorem route_lookup_witness:
  "\<exists>t. getRTEntry noon 5 (node0\<lparr>rtable := nid_put 5 \<lparr>ce_ip = 9, ce_tstamp = 43195\<rparr> (rtable node0)\<rparr>)
     = Some (True, 9, node0\<lparr>rtable := t\<rparr>)"
proof -
  have ok: "nid_ok (rtable node0)" using node_okD(7) [OF node0_ok] .
  let ?s = "node0\<lparr>rtable := nid_put 5 \<lparr>ce_ip = 9, ce_tstamp = 43195\<rparr> (rtable node0)\<rparr>"
  have "nid_ok (rtable ?s)" using ok by (simp add: nidt.ok_put)
  from route_lookup [OF this, of noon 5] show ?thesis
    using ok by (auto simp: nidt.view_put route_hit_def route_live_def rt_locator_def)
qed

text \<open>What arrives is what is meant for the node. A node takes a datagram whose header names it, learns where
  it came from, and hands it to its packet handler unchanged; any other datagram a mobile node drops and a gateway
  passes to its output, unchanged; and neither learns from those.\<close>

theorem input_sorts_packets:
  assumes "nid_ok (connmap s)" "nh_len \<le> length d" "length d \<le> MAXBUFLEN"
  shows "(\<exists>s'. thread_nr_input clk src d s = Some s' \<and>
      (if h_destNID (decode_header d) = cf_nid s
       then sp_nr2ph s' = sp_nr2ph s @ [d] \<and> conns s' = learn (tv_sec (clk 0)) (h_srcNID (decode_header d)) src (conns s)
       else sp_nr2ph s' = sp_nr2ph s \<and> conns s' = conns s)) \<and>
    (\<exists>s'. thread_nr_input_gw clk src d s = Some s' \<and>
      (if h_destNID (decode_header d) = cf_nid s
       then sp_nr2ph s' = sp_nr2ph s @ [d] \<and> sp_nr s' = sp_nr s \<and>
            conns s' = learn (tv_sec (clk 0)) (h_srcNID (decode_header d)) src (conns s)
       else sp_nr2ph s' = sp_nr2ph s \<and> sp_nr s' = sp_nr s @ [d] \<and> conns s' = conns s))"
  using thread_nr_input_spec [OF assms(1,2), of clk src] thread_nr_input_gw_spec [OF assms(1,2), of clk src] assms(3)
  by (cases "h_destNID (decode_header d) = cf_nid s") auto

theorem input_sorts_packets_witness:
  "\<exists>s'. thread_nr_input_gw noon 9 (encode_header (zero_header\<lparr>h_destNID := 5\<rparr>)) gw_3 = Some s' \<and>
    sp_nr s' = [encode_header (zero_header\<lparr>h_destNID := 5\<rparr>)] \<and> conns s' = conns gw_3"
  using input_sorts_packets [of gw_3 "encode_header (zero_header\<lparr>h_destNID := 5\<rparr>)" noon 9]
    node_okD(6) [OF nodes_ok(3)] decode_encode_header [of "zero_header\<lparr>h_destNID := 5\<rparr>" "[]"]
  by (auto simp: gw_3_def split: if_splits)

text \<open>C16. The choices of a core gateway. A packet it relays goes to the route for its destination if there is a
  live one, else to the locator registered for the destination, else to the locator the DHT gave for the
  destination's gateway; without any of them it is dropped. A packet of its own goes to its connection mapper's
  answer when that is an entry, and by the same choices otherwise.\<close>

theorem core_choices:
  assumes "nr_ok s" "nh_len \<le> length d" "length d \<le> MAXBUFLEN"
  shows "(sp_ph2nr s = [] \<and> sp_nr s = d # ds \<longrightarrow> (\<exists>s'. thread_nr_output_core clk clk1 clk2 s = Some s' \<and> sp_nr s' = ds \<and>
      net_out s' = net_out s @ (case core_locator clk1 (decode_header d) s of Some ip \<Rightarrow> [(ip, d)] | None \<Rightarrow> []))) \<and>
    (sp_ph2nr s = d # ds \<longrightarrow> (\<exists>s'. thread_nr_output_core clk clk1 clk2 s = Some s' \<and> sp_ph2nr s' = ds \<and>
      net_out s' = net_out s @ (case (if cm_hit clk (h_destNID (decode_header d)) (conns s)
        then Some (cm_locator clk (h_destNID (decode_header d)) s) else core_locator clk1 (decode_header d) s) of
        Some ip \<Rightarrow> [(ip, d)] | None \<Rightarrow> [])))"
  using thread_nr_output_core_route [OF assms(1) _ _ assms(2), of ds clk clk1 clk2]
    thread_nr_output_core_own [OF assms(1) _ assms(2), of ds clk clk1 clk2] assms(3)
  by (auto cong: option.case_cong)

theorem core_choices_witness:
  "\<exists>s'. thread_nr_output_core noon noon noon (node0\<lparr>sp_nr := [encode_header zero_header]\<rparr>) = Some s' \<and> sp_nr s' = [] \<and>
    net_out s' = net_out node0"
proof -
  let ?s = "node0\<lparr>sp_nr := [encode_header zero_header]\<rparr>"
  have "nr_ok ?s" using node_okD(2) [OF node0_ok] by (simp add: nr_ok_defs)
  from core_choices [OF this, of "encode_header zero_header" "[]" noon noon noon] show ?thesis
    by (auto simp: core_locator_def route_hit_def reg_hit_def)
qed

section \<open>Packet handler\<close>

text \<open>C36. An empty datagram kills a node. After a data packet was delivered, an empty datagram from anywhere is
  taken for that packet again, because the buffers still hold its header; the length of what is to be delivered is
  negative, the raw socket refuses it, and the process exits.\<close>

theorem empty_datagram_kills:
  assumes b: "node_ok b" "sp_nr2ph b = []" and p: "10 \<le> length p" "length p \<le> ph_size" "ip_proto_known p"
    and h: "h_type h = DATA" "h_destNID h = cf_nid b" and raw: "raw_ok (ip_protocol p) p"
  shows "\<exists>b'. arrive raw_ok clk src (encode_header h @ p) b = Some b' \<and> arrive raw_ok clk' src' [] b' = None"
proof -
  obtain b' where b': "arrive raw_ok clk src (encode_header h @ p) b = Some b'" "node_ok b'" "cf_nid b' = cf_nid b"
      "sp_nr2ph b' = []" "decode_header (nri_buf b') = h" "decode_header (phi_buf b') = h"
      "ip_proto_known (drop nh_len (phi_buf b'))"
    using arrive_data [of b p h raw_ok clk src, OF b(1) p(2) h(2) b(2) h(1) p(1,3) raw] by (auto simp: learnt_from_def)
  have nid_ok: "nid_ok (connmap b')" using node_okD(6) [OF b'(2)] .
  have r: "nr_read [] (nri_buf b') = nri_buf b'" by (simp add: nr_read_def dgram_read_def overlay_def)
  obtain t where t: "newCMEntry clk' (h_srcNID h) src' b' = Some (b'\<lparr>connmap := t\<rparr>)"
    using newCMEntry_spec [OF nid_ok] by blast
  have run: "thread_nr_input clk' src' [] b' = Some (b'\<lparr>connmap := t, sp_nr2ph := [[]]\<rparr>)"
    using b' h t by (simp add: thread_nr_input_def r nr_data_def Let_def)
  have "thread_ph_input raw_ok (b'\<lparr>connmap := t, sp_nr2ph := [[]]\<rparr>) = None"
    by (rule thread_ph_input_short [where d = "[]" and ds = "[]"]) (use b' h in simp_all)
  then show ?thesis using b'(1) run by (auto simp: arrive_def)
qed

theorem empty_datagram_kills_witness:
  "\<exists>b'. arrive (\<lambda>_ _. True) noon 9 (encode_header (zero_header\<lparr>h_destNID := 5\<rparr>) @ pkt0) host_b = Some b' \<and>
    arrive (\<lambda>_ _. True) noon 6 [] b' = None"
  by (rule empty_datagram_kills) (simp_all add: pkt0_fields host_b_def zero_header_def, use nodes_ok(2) in \<open>simp add: host_b_def\<close>)

text \<open>A gateway's data packets change their sender. After the packet handler has sent a registry message, the
  source identity of the message stays in the header buffer: the next data packet of an application leaves with the
  identity of the node that registered instead of the gateway's own.\<close>

theorem stale_source_identity:
  assumes s: "node_ok s" "sp_nf2ph s = []" "sp_rvs2ph s = []" "sp_mo2ph s = []" "sp_gwt2ph s = [encode_msg m]"
    and p: "20 \<le> length p" "length p \<le> ph_size" "nm_pair s (ip_daddr p) = Some (nid, gw)"
  shows "\<exists>s1 s2 d1 d2. thread_ph_output s = Some s1 \<and> thread_ph_output (s1\<lparr>sp_nf2ph := [p]\<rparr>) = Some s2 \<and>
    sp_ph2nr s2 = sp_ph2nr s @ [d1, d2] \<and> h_type (decode_header d2) = DATA \<and> h_destNID (decode_header d2) = nid \<and>
    h_srcNID (decode_header d2) = m_srcNID m"
proof -
  let ?s = "s\<lparr>sp_gwt2ph := []\<rparr>"
  let ?s1 = "ph_from_gwt (encode_msg m) ?s"
  have s1: "thread_ph_output s = Some ?s1" using s by (simp add: thread_ph_output_def)
  have ok1: "node_ok ?s1" using s(1) by simp
  have tab: "nid32Table ?s1 = nid32Table s" "sp_nf2ph ?s1 = []" "sp_rvs2ph ?s1 = []"
    using s by (simp_all add: ph_from_gwt_def ph_read_def ph_write_def Let_def)
  let ?h = "data_header ?s1 (nid, gw)"
  have pair: "nm_pair ?s1 (ip_daddr p) = Some (nid, gw)" using p(3) tab by (simp add: nm_pair_def)
  have "nid32_ok (nid32Table ?s1)" using node_okD(1) [OF ok1] by (simp add: nm_ok_def nm_tables_ok_def)
  then obtain s2 where s2: "ph_from_filter p ?s1 = Some s2" "sp_ph2nr s2 = sp_ph2nr ?s1 @ [encode_header ?h @ p]"
    using ph_from_filter_spec [of ?s1 p] p pair by auto
  have same: "?s1\<lparr>sp_nf2ph := [p], sp_nf2ph := []\<rparr> = ?s1" using tab by simp
  have run: "thread_ph_output (?s1\<lparr>sp_nf2ph := [p]\<rparr>) = Some s2"
    using s2(1) same by (simp add: thread_ph_output_def)
  have "h_srcNID ?h = m_srcNID m" by (simp add: data_header_def ph_from_gwt_spec)
  then show ?thesis using s1 run s2(2) by (auto simp: ph_from_gwt_spec codec_simps data_header_def)
qed

theorem stale_source_identity_witness:
  "\<exists>s1 s2 d1 d2. thread_ph_output (host_a\<lparr>sp_nf2ph := [], sp_gwt2ph := [encode_msg (zero_msg\<lparr>m_srcNID := 77\<rparr>)]\<rparr>) = Some s1 \<and>
    thread_ph_output (s1\<lparr>sp_nf2ph := [pkt0]\<rparr>) = Some s2 \<and> sp_ph2nr s2 = [d1, d2] \<and>
    h_type (decode_header d2) = DATA \<and> h_srcNID (decode_header d2) = 77"
proof -
  let ?s = "host_a\<lparr>sp_nf2ph := [], sp_gwt2ph := [encode_msg (zero_msg\<lparr>m_srcNID := 77\<rparr>)]\<rparr>"
  have ok: "node_ok ?s" using nodes_ok(1) by simp
  have q: "sp_nf2ph ?s = []" "sp_rvs2ph ?s = []" "sp_mo2ph ?s = []" "sp_ph2nr ?s = []"
    by (simp_all add: host_a_def)
  have "nm_pair ?s (ip_daddr pkt0) = Some (5, 3)"
    using node0_ok by (simp add: pkt0_fields host_a_def nm_pair_def nid32t.view_put node_ok_defs)
  from stale_source_identity [OF ok q(1-3) _ _ _ this, of "zero_msg\<lparr>m_srcNID := 77\<rparr>"] q(4)
  show ?thesis by (auto simp: pkt0_fields)
qed

text \<open>A relocate message never arrives. The control threads would delete the entry of an identity whose
  relocation is announced, but the packet handler does not know the message type and drops it.\<close>

theorem relocate_is_dropped:
  assumes "nm_ok s" "sp_nr2ph s = (encode_header h @ encode_msg m) # ds" "h_type h = RELOCATE" "m_type m = RELOCATE"
    and "cm_ok s'" "sp_ph2co s' = encode_msg m # es"
  shows "(\<exists>s1. thread_ph_input raw_ok s = Some s1 \<and> sp_ph2co s1 = sp_ph2co s \<and> conns s1 = conns s) \<and>
    (\<exists>s2. thread_control clk s' = Some s2 \<and> conns s2 = (conns s')(m_nid m := None))"
proof -
  have "length (encode_msg m) \<le> ph_size" by simp
  from thread_ph_input_control [OF assms(1,2) this, of raw_ok] assms(3)
  have "\<exists>s1. thread_ph_input raw_ok s = Some s1 \<and> sp_ph2co s1 = sp_ph2co s \<and> conns s1 = conns s"
    by (auto simp: Let_def control_type_def ph_learnt_def)
  moreover have "\<exists>s2. thread_control clk s' = Some s2 \<and> conns s2 = (conns s')(m_nid m := None)"
    using thread_control_spec [OF assms(5,6), of clk] assms(4) by (auto simp: control_conns_def)
  ultimately show ?thesis by blast
qed

theorem relocate_is_dropped_witness:
  "\<exists>s1. thread_ph_input (\<lambda>_ _. True) (node0\<lparr>sp_nr2ph := [encode_header (zero_header\<lparr>h_type := RELOCATE\<rparr>) @
      encode_msg (zero_msg\<lparr>m_type := RELOCATE\<rparr>)]\<rparr>) = Some s1 \<and> sp_ph2co s1 = []"
proof -
  let ?m = "zero_msg\<lparr>m_type := RELOCATE\<rparr>"
  let ?s = "node0\<lparr>sp_nr2ph := [encode_header (zero_header\<lparr>h_type := RELOCATE\<rparr>) @ encode_msg ?m]\<rparr>"
  have "nm_ok ?s" "cm_ok (node0\<lparr>sp_ph2co := [encode_msg ?m]\<rparr>)"
    using node_okD(1,3) [OF node0_ok] by (simp_all add: nm_ok_def nm_tables_ok_def nm_gw_def nm_pair_def cm_ok_def)
  from relocate_is_dropped [OF this(1) _ _ _ this(2), of "zero_header\<lparr>h_type := RELOCATE\<rparr>" ?m "[]" "[]"]
  show ?thesis by simp blast
qed

end
