(* ===== verification/Service_Properties.thy ===== *)
theory Service_Properties
  imports Concrete_Nodes
begin

text \<open>
  The properties of the services around the packet path: the rendez-vous server, the DHT client, the DNS
  proxy and the DHCP client, each with an instance at a concrete state.
\<close>

section \<open>The rendez-vous server\<close>

text \<open>C18. The memory of the rendez-vous server. A registration is acknowledged and answered to whoever asks for the
  identity for ten seconds; after that the answer is the locator 0 and the registration is gone. Registrations of
  other identities are untouched.\<close>

theorem rvs_memory:
  assumes "rvs_ok v" "m_type m = RVS_UPDATE" "m_type g = RVS_GET" "m_nid g = m_nid m"
  shows "\<exists>v1 v2. rvs_main t (encode_msg m) v = Some (encode_msg (m\<lparr>m_type := RVS_ACK\<rparr>), v1) \<and>
    rvs_main t' (encode_msg g) v1 = Some (encode_msg (g\<lparr>m_ip := (if t' < t + RVS_TIMEOUT then m_ip m else 0),
      m_type := RVS_RESPONSE\<rparr>), v2) \<and> rvs_ok v2 \<and>
    rvs_map v2 (m_nid m) = (if t' < t + RVS_TIMEOUT then Some \<lparr>ce_ip = m_ip m, ce_tstamp = t\<rparr> else None) \<and>
    (\<forall>nid. nid \<noteq> m_nid m \<longrightarrow> rvs_map v2 nid = rvs_map v nid)"
proof -
  obtain v1 where v1: "rvs_main t (encode_msg m) v = Some (encode_msg (m\<lparr>m_type := RVS_ACK\<rparr>), v1)" "rvs_ok v1"
      "rvs_map v1 = (rvs_map v)(m_nid m := Some \<lparr>ce_ip = m_ip m, ce_tstamp = t\<rparr>)"
    using rvs_main_spec [OF assms(1), of t m] assms(2) by (auto simp: rvs_reply_def rvs_next_def)
  show ?thesis
    using v1 rvs_main_spec [OF v1(2), of t' g] assms(3,4)
    by (auto simp: rvs_reply_def rvs_next_def rvs_answer_def rvs_fresh_def)
qed

theorem rvs_memory_witness:
  "\<exists>v1 v2. rvs_main 43200 (encode_msg (zero_msg\<lparr>m_type := RVS_UPDATE, m_nid := 9, m_ip := 167772161\<rparr>)) server0
      = Some (encode_msg (zero_msg\<lparr>m_type := RVS_ACK, m_nid := 9, m_ip := 167772161\<rparr>), v1) \<and>
    rvs_main 43210 (encode_msg (zero_msg\<lparr>m_type := RVS_GET, m_nid := 9\<rparr>)) v1
      = Some (encode_msg (zero_msg\<lparr>m_type := RVS_RESPONSE, m_nid := 9, m_ip := 0\<rparr>), v2) \<and> rvs_map v2 9 = None"
  using rvs_memory [OF server0_ok, of "zero_msg\<lparr>m_type := RVS_UPDATE, m_nid := 9, m_ip := 167772161\<rparr>"
      "zero_msg\<lparr>m_type := RVS_GET, m_nid := 9\<rparr>" 43200 43210] by (auto simp: zero_msg_def)

section \<open>The DHT\<close>

text \<open>C17. A published locator is found. What a core gateway publishes is stored under the key a resolver asks for; a
  resolver that is answered with it enters exactly the gateway's address for the gateway's identity and
  releases the lock on the request, provided its buffer holds a zero behind the text of the locator.\<close>

theorem dht_publish_resolve:
  assumes put: "thread_dht_update True (fst (dht_update_start ifaddr a)) (snd (dht_update_start ifaddr a)) = Some put"
    and b: "dht_ok b" "sp_dht b = nid_bytes (cf_nid a) # ds" "get (pa_key put) = Some (pa_value put # vs)"
    and buf: "length (inet_ntop4 (ifaddr (cf_primaryIface a))) < length (dg_aux b)"
      "dht_end_byte (cf_nid a) (length (inet_ntop4 (ifaddr (cf_primaryIface a)))) (dg_aux b) = 0"
  shows "\<exists>b'. thread_dht_get (Some get) clk b = Some (True, b') \<and> dht_ok b' \<and>
    dht_cache b' = (dht_cache b)(cf_nid a := Some \<lparr>ce_ip = ifaddr (cf_primaryIface a), ce_tstamp = tv_sec (clk 0)\<rparr>) \<and>
    dht_locks b' = (dht_locks b)(cf_nid a := None)"
proof -
  have "pa_key put = dht_key (inet_ntop6 (cf_nid a))" "pa_value put = bytes_of (inet_ntop4 (ifaddr (cf_primaryIface a)))"
    using put by (auto simp: thread_dht_update_def dht_update_start_def opendhtput_def nid2char_def nid322char_def get_locator_def
        getNID_def getPrimaryIface_def)
  then show ?thesis using thread_dht_get_spec [OF b(1,2) _ buf, of get vs clk] b(3) by simp
qed

theorem dht_publish_resolve_witness:
  "\<exists>put b'. thread_dht_update True (inet_ntop6 nid_123) (inet_ntop4 167772172) = Some put \<and>
    thread_dht_get (Some (\<lambda>k. Some [pa_value put])) noon (node0\<lparr>sp_dht := [nid_bytes nid_123]\<rparr>) = Some (True, b') \<and>
    dht_cache b' nid_123 = Some \<lparr>ce_ip = 167772172, ce_tstamp = 43200\<rparr>"
proof -
  let ?a = "node0\<lparr>cf_nid := nid_123\<rparr>" and ?b = "node0\<lparr>sp_dht := [nid_bytes nid_123]\<rparr>"
  let ?put = "opendhtput (inet_ntop6 nid_123) (inet_ntop4 167772172) DHT_TTL"
  have put: "thread_dht_update True (fst (dht_update_start (\<lambda>_. 167772172) ?a)) (snd (dht_update_start (\<lambda>_. 167772172) ?a))
      = Some ?put"
    by (simp add: thread_dht_update_def dht_update_start_def nid2char_def nid322char_def get_locator_def getNID_def)
  have b: "dht_ok ?b" "sp_dht ?b = nid_bytes (cf_nid ?a) # []" "length (dg_aux ?b) = 46"
    using node0_ok by (simp_all add: node_ok_defs dht_ok_def) (simp add: node0_def boot_def)
  have "length (inet_ntop4 167772172) = length (inet_ntop6 nid_123)"
    by (simp only: nid_123_text locator_texts) simp
  then have z: "dht_end_byte nid_123 (length (inet_ntop4 167772172)) (dg_aux ?b) = 0" by (simp only: dht_end_byte_same)
  have l: "length (inet_ntop4 167772172) < 46" by (simp add: locator_texts)
  from dht_publish_resolve [OF put b(1,2), of "\<lambda>k. Some [pa_value ?put]" "[]" noon] b(3) z l
  show ?thesis by (intro exI [of _ ?put]) (auto simp: thread_dht_update_def)
qed

text \<open>A published locator that is shorter than the identity's text is read with the rest of that text behind it:
  the resolver has written the identity into the buffer it copies the locator to, and the copy sets no end.
  So the locator 10.0.0.1 of the identity 3ffe::123 is entered as 10.0.0.13.\<close>

theorem dht_reads_remains:
  assumes "dht_ok b" "sp_dht b = nid_bytes nid # ds" "get (dht_key (inet_ntop6 nid)) = Some (bytes_of (inet_ntop4 ip) # vs)"
    "length (inet_ntop4 ip) \<le> length (inet_ntop6 nid)"
  shows "\<exists>b'. thread_dht_get (Some get) clk b = Some (True, b') \<and>
    dht_cache b' = (dht_cache b)(nid := Some \<lparr>ce_ip = pton4_into (inet_ntop4 ip @
      drop (length (inet_ntop4 ip)) (inet_ntop6 nid)) (dg_nid32 b), ce_tstamp = tv_sec (clk 0)\<rparr>)"
proof -
  have "length (inet_ntop4 ip) \<le> length (put_string (inet_ntop6 nid) (dg_aux b))"
    using assms(4) by (simp add: put_string_def overlay_def)
  from thread_dht_get_run [where get = get and ip = ip and clk = clk, OF assms(1-3) this] resolver_text [OF assms(4), of "dg_aux b"]
  show ?thesis by auto
qed

theorem dht_reads_remains_witness:
  "\<exists>b'. thread_dht_get (Some (\<lambda>k. Some [bytes_of (inet_ntop4 167772161)])) noon (node0\<lparr>sp_dht := [nid_bytes nid_123]\<rparr>)
      = Some (True, b') \<and> dht_cache b' nid_123 = Some \<lparr>ce_ip = 167772173, ce_tstamp = 43200\<rparr>"
proof -
  let ?b = "node0\<lparr>sp_dht := [nid_bytes nid_123]\<rparr>"
  have b: "dht_ok ?b" "sp_dht ?b = nid_bytes nid_123 # []" using node0_ok by (simp_all add: node_ok_defs dht_ok_def)
  have l: "length (inet_ntop4 167772161) \<le> length (inet_ntop6 nid_123)" by (simp only: nid_123_text locator_texts) simp
  have t: "pton4_into (inet_ntop4 167772161 @ drop (length (inet_ntop4 167772161)) (inet_ntop6 nid_123)) x = 167772173" for x
    by (simp only: nid_123_text locator_texts) (simp add: pton4_into_def locator_texts)
  from dht_reads_remains [OF b _ l, of "\<lambda>k. Some [bytes_of (inet_ntop4 167772161)]" "[]" noon] t
  show ?thesis by auto
qed

section \<open>The DNS proxy\<close>



section \<open>The DHCP client\<close>

text \<open>C23. The walk over the options of a received message stays inside the receive buffer and ends, whatever bytes the
  server sent, and leaves every value as long as its length says: 256 bytes behind the 312 of the option field are enough, and the
  buffer has them.\<close>

theorem option_walk_safe:
  assumes "opts_ok opts" "312 - 4 + 256 \<le> length bs"
  shows "\<exists>opts'. parse_options (312 - 4) bs opts = Some opts' \<and> opts_ok opts'"
  using parse_options_safe [OF assms] .

theorem option_walk_safe_witness:
  "\<exists>opts'. parse_options (312 - 4) (replicate 564 255) (releaseDhcpOptions no_options) = Some opts' \<and> opts_ok opts'"
  by (rule option_walk_safe) (simp_all add: opts_ok_release)

text \<open>The options read back. From a cleared table the walk over options as a server writes them gives every option
  the last value written for it, with a zero behind it, and every other option none.\<close>

theorem options_read_back:
  assumes "plain_options os" "length (enc_options os) < 312 - 4"
  shows "\<exists>opts'. parse_options (312 - 4) (enc_options os @ endOption # rest) (releaseDhcpOptions opts) = Some opts' \<and>
    (\<forall>c. do_val opts' c = map_option (\<lambda>d. d @ [0]) (opt_last os c))"
  using parse_fresh [OF assms, of rest opts] by blast

theorem options_read_back_witness:
  "\<exists>opts'. parse_options (312 - 4) (enc_options ack_options @ endOption # []) (releaseDhcpOptions no_options) = Some opts' \<and>
    do_val opts' 54 = Some [10, 0, 0, 2, 0] \<and> do_val opts' 6 = None"
  using options_read_back [OF ack_options_ok(1), of "[]" no_options] ack_options_ok(2) by auto

text \<open>C37. An acknowledgement without a root path, the option the project puts its addresses into, ends the DHCP client when
  none was kept from an earlier message: the text for the daemon is copied through a null pointer.\<close>

theorem ack_without_root_path:
  assumes "opts_ok (dc_opts s)" "quads_ok (dc_opts s)" "do_val (dc_opts s) rootPath = None"
    "plain_options os" "length (enc_options os) < 308" "length cookie = 4"
    "\<forall>c \<in> {subnetMask, dhcpServerIdentifier}. \<forall>d. opt_last os c = Some d \<longrightarrow> 4 \<le> length d"
    "opt_last os dhcpMessageType = Some [DHCP_ACK]" "opt_last os rootPath = None"
  shows "parseDhcpMsgRecv lease ciaddr ip_src yiaddr (options_field cookie os rest) s = None"
  by (rule parse_no_root_path [OF assms])

theorem ack_without_root_path_witness:
  "parseDhcpMsgRecv 3600 0 167772162 167772165 (options_field [99, 130, 83, 99] (take 2 ack_options) []) client0 = None"
  by (rule ack_without_root_path [OF client0_ok(1,2,4)]) (simp_all add: plain_options_def enc_options_def)

text \<open>The timers. When the server's acknowledgement sets no timers, the renewal and rebinding times are a half and seven
  eighths of the lease time in the message or asked for, and they come in that order.\<close>

theorem lease_timers:
  assumes ok: "opts_ok (dc_opts s)" "quads_ok (dc_opts s)" "opt_text (dc_opts s) rootPath"
    and os: "plain_options os" "length (enc_options os) < 308" "length cookie = 4"
    and quads: "\<forall>c \<in> {subnetMask, dhcpServerIdentifier}. \<forall>d. opt_last os c = Some d \<longrightarrow> 4 \<le> length d"
    and ack: "opt_last os dhcpMessageType = Some [DHCP_ACK]" "opt_last os rootPath = Some (bytes_of path)" "no_nul path"
    and no: "\<forall>c \<in> {dhcpT1value, dhcpT2value}. opt_last os c = None \<and> do_val (dc_opts s) c = None"
  shows "\<exists>s' l t1 t2. parseDhcpMsgRecv lease ciaddr ip_src yiaddr (options_field cookie os rest) s = Some (DHCP_ACK, s') \<and>
    word_at (do_val (dc_opts s') dhcpIPaddrLeaseTime) = Some l \<and> word_at (do_val (dc_opts s') dhcpT1value) = Some t1 \<and>
    word_at (do_val (dc_opts s') dhcpT2value) = Some t2 \<and> unat t1 = unat l div 2 \<and> unat t2 = 7 * unat l div 8 \<and>
    t1 \<le> t2 \<and> t2 \<le> l"
proof -
  obtain s' l where "parseDhcpMsgRecv lease ciaddr ip_src yiaddr (options_field cookie os rest) s = Some (DHCP_ACK, s')"
      "word_at (do_val (dc_opts s') dhcpIPaddrLeaseTime) = Some l"
      "word_at (do_val (dc_opts s') dhcpT1value) = Some (t1_of l)" "word_at (do_val (dc_opts s') dhcpT2value) = Some (t2_of l)"
    using parse_ack [OF ok os quads ack, of lease ciaddr ip_src yiaddr rest] no by blast
  then show ?thesis using timers_ordered [of l] timers_unat [of l] by (auto simp: word_le_nat_alt)
qed

theorem lease_timers_witness:
  "\<exists>s' l t1. parseDhcpMsgRecv 3600 0 167772162 167772165 (options_field [99, 130, 83, 99] ack_options []) client0
      = Some (DHCP_ACK, s') \<and> word_at (do_val (dc_opts s') dhcpIPaddrLeaseTime) = Some l \<and>
    word_at (do_val (dc_opts s') dhcpT1value) = Some t1 \<and> unat t1 = unat l div 2"
  using lease_timers [OF client0_ok(1,2,3) ack_options_ok(1,2), of "[99, 130, 83, 99]"
      "''3ffe::1|3ffe::2|10.0.0.2|3ffe::7|10.0.0.7|3ffe::5|''" 3600 0 167772162 167772165 "[]"]
  by (simp add: client0_ok no_nul_def) blast

text \<open>C19. Checksums. A packet the DHCP client builds around a message passes its own test, which leaves it as it was, keeps
  the message, and no longer passes once any byte of the message is changed.\<close>

theorem packet_checksums:
  assumes "28 + unat msglen \<le> length udpip" "unat msglen \<le> 65500"
  shows "\<exists>p. udpipgen udpip src dst sport dport msglen ipid = Some (p, ipid + 1) \<and> drop 28 p = drop 28 udpip \<and>
    udpipchk p = Some (0, p) \<and>
    (\<forall>i x. 28 \<le> i \<and> i < 28 + unat msglen \<and> x \<noteq> p ! i \<longrightarrow> (\<exists>buf. udpipchk (p[i := x]) = Some (- 2, buf)))"
proof -
  obtain h where h: "udpipgen udpip src dst sport dport msglen ipid = Some (h @ drop 28 udpip, ipid + 1)" "length h = 28"
      "udpipchk (h @ drop 28 udpip) = Some (0, h @ drop 28 udpip)"
    using udpipchk_built [OF assms, of src dst sport dport ipid] by (metis append_Nil2)
  show ?thesis
    by (rule exI [of _ "h @ drop 28 udpip"]) (use h udpipchk_changed [OF assms h(1)] in auto)
qed

theorem packet_checksums_witness:
  "\<exists>p. udpipgen (replicate 30 7) 0 4294967295 68 67 2 1 = Some (p, 2) \<and> udpipchk p = Some (0, p) \<and>
    (\<exists>buf. udpipchk (p[29 := 8]) = Some (- 2, buf))"
proof -
  obtain p where p: "udpipgen (replicate 30 7) 0 4294967295 68 67 2 1 = Some (p, 1 + 1)"
      "drop 28 p = drop 28 (replicate 30 (7 :: byte))" "udpipchk p = Some (0, p)"
      "\<forall>i x. 28 \<le> i \<and> i < 28 + unat (2 :: u16) \<and> x \<noteq> p ! i \<longrightarrow> (\<exists>buf. udpipchk (p[i := x]) = Some (- 2, buf))"
    using packet_checksums [of 2 "replicate 30 7" 0 4294967295 68 67 1] by auto
  have d: "drop 28 p = [7, 7]" using p(2) by (simp add: numeral_eq_Suc)
  then have "28 \<le> length p" by (metis drop_all list.distinct(1) nle_le)
  then have "p ! 29 = drop 28 p ! 1" by simp
  then have "p ! 29 = 7" using d by simp
  then have "\<exists>buf. udpipchk (p[29 := 8]) = Some (- 2, buf)" using p(4) [rule_format, of 29 8] by simp
  then show ?thesis using p(1,3) by simp
qed

end
