(* ===== verification/DHCP_Build.thy ===== *)
theory DHCP_Build
  imports DHCP_Client DHCP_Packet
begin

text \<open>
  The messages the DHCP client sends, \<open>src/src/dhcpcd-1.3.22-pl4/buildmsg.c\<close>, with the message's structure of
  \<open>client.h\<close> and the identifiers set up in \<open>client.c\<close>. Every builder clears the send buffer,
  fills the Ethernet header and the fields of the message, writes the options one behind the other, and calls \<open>udpipgen\<close>.
  Options that leave their field, or identifiers longer than their arrays, have no meaning.
  The command line's values are constant while the client runs and stand in the record \<open>dhcp_args\<close>.

  Shown: every message that is built has sound checksums and reads back, with the client's own reader, as the
  message it should be; the set-up of the identifiers keeps what the builders rely on.
\<close>

section \<open>State\<close>

record dhcp_args =
  da_BeRFC1541 :: bool
  da_BroadcastResp :: bool
  da_DoCheckSum :: bool
  da_SendSecondDiscover :: bool
  da_TestCase :: bool
  da_HostName :: "string option"
  da_ClassID :: "string option"
  da_ClientID :: "string option"
  da_LeaseTime :: u32
  da_ReplResolvConf :: bool
  da_ReplNISConf :: bool
  da_ReplNTPConf :: bool
  da_SetHostName :: bool
  da_SetDomainName :: bool
  da_SetDHCPDefaultRoutes :: bool
  da_default_router :: NID32
  da_Window :: nat
  da_IfNameExt :: string

text \<open>\<open>dhcpInterface\<close>: the lengths are \<open>int\<close>s, which no part of the client makes negative.\<close>

record dhcp_iface =
  di_version :: "byte list"
  di_ciaddr :: NID32
  di_siaddr :: NID32
  di_class_len :: nat
  di_client_len :: nat
  di_xid :: u32
  di_shaddr :: "byte list"
  di_class_id :: "byte list"
  di_client_id :: "byte list"

text \<open>
  \<open>dc_hw\<close> is \<open>ClientHwAddr\<close>, \<open>dc_inform\<close> is \<open>inform_ipaddr\<close>, \<open>dc_send\<close> and \<open>dc_recv\<close> are the whole \<open>UdpIpMsgSend\<close> and \<open>UdpIpMsgRecv\<close>,
  \<open>dc_off\<close> the place in the latter \<open>DhcpMsgRecv\<close> points to; \<open>dc_net\<close> are the frames written to the packet socket.
\<close>

record dhcp_client = dhcp_state +
  dc_iface :: dhcp_iface
  dc_hw :: "byte list"
  dc_token :: bool
  dc_inform :: NID32
  dc_ip_id :: u16
  dc_send :: "byte list"
  dc_recv :: "byte list"
  dc_off :: nat
  dc_net :: "byte list list"

record dhcpMessage =
  dm_op :: byte
  dm_htype :: byte
  dm_hlen :: byte
  dm_hops :: byte
  dm_xid :: u32
  dm_secs :: u16
  dm_flags :: u16
  dm_ciaddr :: NID32
  dm_yiaddr :: NID32
  dm_siaddr :: NID32
  dm_giaddr :: NID32
  dm_chaddr :: "byte list"
  dm_sname :: "byte list"
  dm_file :: "byte list"
  dm_options :: "byte list"

abbreviation ETH_ALEN :: nat where "ETH_ALEN \<equiv> 6"
abbreviation CLASS_ID_MAX_LEN :: nat where "CLASS_ID_MAX_LEN \<equiv> 48"
abbreviation CLIENT_ID_MAX_LEN :: nat where "CLIENT_ID_MAX_LEN \<equiv> 48"
abbreviation HOSTNAME_MAX_LEN :: nat where "HOSTNAME_MAX_LEN \<equiv> 64"
abbreviation IPPACKET_SIZE :: nat where "IPPACKET_SIZE \<equiv> 1500"
abbreviation dhcp_msg_len :: nat where "dhcp_msg_len \<equiv> 548"
abbreviation MAGIC_COOKIE :: u32 where "MAGIC_COOKIE \<equiv> 0x63825363"
abbreviation BROADCAST_FLAG :: u16 where "BROADCAST_FLAG \<equiv> 0x8000"
abbreviation DHCP_SERVER_PORT :: u16 where "DHCP_SERVER_PORT \<equiv> 67"
abbreviation DHCP_CLIENT_PORT :: u16 where "DHCP_CLIENT_PORT \<equiv> 68"
abbreviation DHCP_BOOTREQUEST :: byte where "DHCP_BOOTREQUEST \<equiv> 1"
abbreviation DHCP_BOOTREPLY :: byte where "DHCP_BOOTREPLY \<equiv> 2"
abbreviation DHCP_DISCOVER :: byte where "DHCP_DISCOVER \<equiv> 1"
abbreviation DHCP_OFFER :: byte where "DHCP_OFFER \<equiv> 2"
abbreviation DHCP_REQUEST :: byte where "DHCP_REQUEST \<equiv> 3"
abbreviation DHCP_DECLINE :: byte where "DHCP_DECLINE \<equiv> 4"
abbreviation DHCP_NAK :: byte where "DHCP_NAK \<equiv> 6"
abbreviation DHCP_RELEASE :: byte where "DHCP_RELEASE \<equiv> 7"
abbreviation DHCP_INFORM :: byte where "DHCP_INFORM \<equiv> 8"
abbreviation hostName :: byte where "hostName \<equiv> 12"
abbreviation dhcpRequestedIPaddr :: byte where "dhcpRequestedIPaddr \<equiv> 50"
abbreviation dhcpParamRequest :: byte where "dhcpParamRequest \<equiv> 55"
abbreviation dhcpMaxMsgSize :: byte where "dhcpMaxMsgSize \<equiv> 57"
abbreviation dhcpClassIdentifier :: byte where "dhcpClassIdentifier \<equiv> 60"
abbreviation dhcpClientIdentifier :: byte where "dhcpClientIdentifier \<equiv> 61"
abbreviation INADDR_BROADCAST :: NID32 where "INADDR_BROADCAST \<equiv> 0xFFFFFFFF"
abbreviation MAC_BCAST_ADDR :: "byte list" where "MAC_BCAST_ADDR \<equiv> replicate 6 0xFF"
abbreviation ETHERTYPE_IP :: u16 where "ETHERTYPE_IP \<equiv> 0x0800"

text \<open>The hardware types; a token ring's 800 is cut to a byte.\<close>

abbreviation ARPHRD_ETHER :: nat where "ARPHRD_ETHER \<equiv> 1"
abbreviation ARPHRD_IEEE802_TR :: nat where "ARPHRD_IEEE802_TR \<equiv> 800"

definition hw_type :: "'a dhcp_client_scheme \<Rightarrow> byte" where
  "hw_type s = of_nat (if dc_token s then ARPHRD_IEEE802_TR else ARPHRD_ETHER)"

section \<open>Layout of a message\<close>

text \<open>\<open>xid\<close> is a host integer that goes to the wire as it is in memory; the other numbers are in network order.\<close>

definition encode_dhcp :: "dhcpMessage \<Rightarrow> byte list" where
  "encode_dhcp m = [dm_op m, dm_htype m, dm_hlen m, dm_hops m] @ le32_bytes (dm_xid m) @ net16 (dm_secs m) @ net16 (dm_flags m) @
     nid32_bytes (dm_ciaddr m) @ nid32_bytes (dm_yiaddr m) @ nid32_bytes (dm_siaddr m) @ nid32_bytes (dm_giaddr m) @
     dm_chaddr m @ dm_sname m @ dm_file m @ dm_options m"

definition decode_dhcp :: "byte list \<Rightarrow> dhcpMessage" where
  "decode_dhcp b = \<lparr>dm_op = b ! 0, dm_htype = b ! 1, dm_hlen = b ! 2, dm_hops = b ! 3, dm_xid = le32_word (take 4 (drop 4 b)),
     dm_secs = be_word (take 2 (drop 8 b)), dm_flags = be_word (take 2 (drop 10 b)), dm_ciaddr = be_word (take 4 (drop 12 b)),
     dm_yiaddr = be_word (take 4 (drop 16 b)), dm_siaddr = be_word (take 4 (drop 20 b)), dm_giaddr = be_word (take 4 (drop 24 b)),
     dm_chaddr = take 16 (drop 28 b), dm_sname = take 64 (drop 44 b), dm_file = take 128 (drop 108 b),
     dm_options = take 312 (drop 236 b)\<rparr>"

definition dhcp_msg_ok :: "dhcpMessage \<Rightarrow> bool" where
  "dhcp_msg_ok m \<longleftrightarrow> length (dm_chaddr m) = 16 \<and> length (dm_sname m) = 64 \<and> length (dm_file m) = 128 \<and> length (dm_options m) = 312"

section \<open>The pieces of the builders\<close>

text \<open>A cleared message with the fields all builders fill in the same way.\<close>

definition new_msg :: "u32 \<Rightarrow> 'a dhcp_client_scheme \<Rightarrow> dhcpMessage" where
  "new_msg xid s = \<lparr>dm_op = DHCP_BOOTREQUEST, dm_htype = hw_type s, dm_hlen = of_nat ETH_ALEN, dm_hops = 0, dm_xid = xid,
     dm_secs = 0, dm_flags = 0, dm_ciaddr = 0, dm_yiaddr = 0, dm_siaddr = 0, dm_giaddr = 0,
     dm_chaddr = overlay (dc_hw s) (replicate 16 0), dm_sname = replicate 64 0, dm_file = replicate 128 0, dm_options = replicate 312 0\<rparr>"

text \<open>The seconds and the flag of the messages that wait for an answer.\<close>

definition waiting :: "dhcp_args \<Rightarrow> dhcpMessage \<Rightarrow> dhcpMessage" where
  "waiting a m = m\<lparr>dm_secs := 10, dm_flags := (if da_BroadcastResp a then BROADCAST_FLAG else 0)\<rparr>"

definition put_options :: "byte list \<Rightarrow> dhcpMessage \<Rightarrow> dhcpMessage run" where
  "put_options ops m =
     (let bs = be_bytes 4 MAGIC_COOKIE @ ops @ [endOption] in
      if length bs \<le> 312 then Some (m\<lparr>dm_options := overlay bs (dm_options m)\<rparr>) else None)"

definition type_option :: "byte \<Rightarrow> byte list" where
  "type_option t = [dhcpMessageType, 1, t]"

definition max_size_option :: "byte list" where
  "max_size_option = [dhcpMaxMsgSize, 2] @ net16 (of_nat dhcp_msg_len)"

definition quad_option :: "byte \<Rightarrow> u32 \<Rightarrow> byte list" where
  "quad_option c w = [c, 4] @ be_bytes 4 w"

definition param_request :: "byte list" where
  "param_request = [dhcpParamRequest, 14, subnetMask, 3, dnsOption, hostName, 15, rootPath, 23, broadcastAddr, 29, 31, 33, 40, 41, 42]"

text \<open>\<open>HostName_len\<close> counts the terminating zero.\<close>

definition host_option :: "dhcp_args \<Rightarrow> byte list" where
  "host_option a = (case da_HostName a of None \<Rightarrow> [] | Some h \<Rightarrow> [hostName, of_nat (length h + 1)] @ bytes_of h @ [0])"

definition class_option :: "dhcp_iface \<Rightarrow> byte list run" where
  "class_option i = (if di_class_len i \<le> length (di_class_id i)
     then Some ([dhcpClassIdentifier, of_nat (di_class_len i)] @ take (di_class_len i) (di_class_id i)) else None)"

definition client_option :: "dhcp_iface \<Rightarrow> byte list run" where
  "client_option i = (if di_client_len i \<le> length (di_client_id i) then Some (take (di_client_len i) (di_client_id i)) else None)"

definition request_tail :: "dhcp_args \<Rightarrow> dhcp_iface \<Rightarrow> byte list run" where
  "request_tail a i = do {
     class \<leftarrow> class_option i;
     client \<leftarrow> client_option i;
     Some (param_request @ host_option a @ class @ client)
   }"

text \<open>The finished send buffer: Ethernet header, packet, and the room for a token ring's header.\<close>

definition send_frame ::
  "byte list \<Rightarrow> NID32 \<Rightarrow> NID32 \<Rightarrow> dhcpMessage \<Rightarrow> 'a dhcp_client_scheme \<Rightarrow> 'a dhcp_client_scheme run" where
  "send_frame dhost saddr daddr m s = do {
     (udpip, ip_id) \<leftarrow> udpipgen (overlay (replicate 28 0 @ encode_dhcp m) (replicate IPPACKET_SIZE 0))
        saddr daddr DHCP_CLIENT_PORT DHCP_SERVER_PORT (of_nat dhcp_msg_len) (dc_ip_id s);
     Some (s\<lparr>dc_send := dhost @ dc_hw s @ net16 ETHERTYPE_IP @ udpip @ replicate 40 0, dc_ip_id := ip_id\<rparr>)
   }"

section \<open>The builders\<close>

definition buildDhcpDiscover :: "dhcp_args \<Rightarrow> u32 \<Rightarrow> 'a dhcp_client_scheme \<Rightarrow> 'a dhcp_client_scheme run" where
  "buildDhcpDiscover a xid s = do {
     let ciaddr = di_ciaddr (dc_iface s);
     let m = waiting a (new_msg xid s);
     let m = (if ciaddr \<noteq> 0 \<and> da_BeRFC1541 a then m\<lparr>dm_ciaddr := ciaddr\<rparr> else m);
     let requested = (if ciaddr \<noteq> 0 \<and> \<not> da_BeRFC1541 a then quad_option dhcpRequestedIPaddr ciaddr else []);
     tail \<leftarrow> request_tail a (dc_iface s);
     m \<leftarrow> put_options (type_option DHCP_DISCOVER @ max_size_option @ requested @
            quad_option dhcpIPaddrLeaseTime (da_LeaseTime a) @ tail) m;
     send_frame MAC_BCAST_ADDR 0 INADDR_BROADCAST m s
   }"

definition buildDhcpRequest :: "dhcp_args \<Rightarrow> u32 \<Rightarrow> 'a dhcp_client_scheme \<Rightarrow> 'a dhcp_client_scheme run" where
  "buildDhcpRequest a xid s = do {
     let ciaddr = di_ciaddr (dc_iface s);
     let m = waiting a (new_msg xid s);
     sid \<leftarrow> word_at (do_val (dc_opts s) dhcpServerIdentifier);
     let m = (if da_BeRFC1541 a then m\<lparr>dm_ciaddr := ciaddr\<rparr> else m);
     let requested = (if da_BeRFC1541 a then [] else quad_option dhcpRequestedIPaddr ciaddr);
     lease \<leftarrow> (if do_val (dc_opts s) dhcpIPaddrLeaseTime = None then Some []
        else map_option (quad_option dhcpIPaddrLeaseTime) (word_at (do_val (dc_opts s) dhcpIPaddrLeaseTime)));
     tail \<leftarrow> request_tail a (dc_iface s);
     m \<leftarrow> put_options (type_option DHCP_REQUEST @ max_size_option @ quad_option dhcpServerIdentifier sid @ requested @ lease @ tail) m;
     send_frame MAC_BCAST_ADDR 0 INADDR_BROADCAST m s
   }"

definition buildDhcpRenew :: "dhcp_args \<Rightarrow> u32 \<Rightarrow> 'a dhcp_client_scheme \<Rightarrow> 'a dhcp_client_scheme run" where
  "buildDhcpRenew a xid s = do {
     let ciaddr = di_ciaddr (dc_iface s);
     let m = (waiting a (new_msg xid s))\<lparr>dm_ciaddr := ciaddr\<rparr>;
     tail \<leftarrow> request_tail a (dc_iface s);
     m \<leftarrow> put_options (type_option DHCP_REQUEST @ max_size_option @ tail) m;
     send_frame (di_shaddr (dc_iface s)) ciaddr (di_siaddr (dc_iface s)) m s
   }"

definition buildDhcpRebind :: "dhcp_args \<Rightarrow> u32 \<Rightarrow> 'a dhcp_client_scheme \<Rightarrow> 'a dhcp_client_scheme run" where
  "buildDhcpRebind a xid s = do {
     let ciaddr = di_ciaddr (dc_iface s);
     let m = (waiting a (new_msg xid s))\<lparr>dm_ciaddr := ciaddr\<rparr>;
     lease \<leftarrow> (if do_val (dc_opts s) dhcpIPaddrLeaseTime = None then Some []
        else map_option (quad_option dhcpIPaddrLeaseTime) (word_at (do_val (dc_opts s) dhcpIPaddrLeaseTime)));
     tail \<leftarrow> request_tail a (dc_iface s);
     m \<leftarrow> put_options (type_option DHCP_REQUEST @ max_size_option @ lease @ tail) m;
     send_frame MAC_BCAST_ADDR ciaddr INADDR_BROADCAST m s
   }"

definition buildDhcpReboot :: "dhcp_args \<Rightarrow> u32 \<Rightarrow> 'a dhcp_client_scheme \<Rightarrow> 'a dhcp_client_scheme run" where
  "buildDhcpReboot a xid s = do {
     let ciaddr = di_ciaddr (dc_iface s);
     let m = waiting a (new_msg xid s);
     let m = (if da_BeRFC1541 a then m\<lparr>dm_ciaddr := ciaddr\<rparr> else m);
     let requested = (if da_BeRFC1541 a then [] else quad_option dhcpRequestedIPaddr ciaddr);
     tail \<leftarrow> request_tail a (dc_iface s);
     m \<leftarrow> put_options (type_option DHCP_REQUEST @ max_size_option @ requested @
            quad_option dhcpIPaddrLeaseTime (da_LeaseTime a) @ tail) m;
     send_frame MAC_BCAST_ADDR 0 INADDR_BROADCAST m s
   }"

definition buildDhcpRelease :: "dhcp_args \<Rightarrow> u32 \<Rightarrow> 'a dhcp_client_scheme \<Rightarrow> 'a dhcp_client_scheme run" where
  "buildDhcpRelease a xid s = do {
     let ciaddr = di_ciaddr (dc_iface s);
     sid \<leftarrow> word_at (do_val (dc_opts s) dhcpServerIdentifier);
     client \<leftarrow> client_option (dc_iface s);
     m \<leftarrow> put_options (type_option DHCP_RELEASE @ quad_option dhcpServerIdentifier sid @ client) ((new_msg xid s)\<lparr>dm_ciaddr := ciaddr\<rparr>);
     send_frame (di_shaddr (dc_iface s)) ciaddr (di_siaddr (dc_iface s)) m s
   }"

text \<open>Compiled only with \<open>ARPCHECK\<close>.\<close>

definition buildDhcpDecline :: "dhcp_args \<Rightarrow> u32 \<Rightarrow> 'a dhcp_client_scheme \<Rightarrow> 'a dhcp_client_scheme run" where
  "buildDhcpDecline a xid s = do {
     let ciaddr = di_ciaddr (dc_iface s);
     sid \<leftarrow> word_at (do_val (dc_opts s) dhcpServerIdentifier);
     let m = (if da_BeRFC1541 a then (new_msg xid s)\<lparr>dm_ciaddr := ciaddr\<rparr> else new_msg xid s);
     let requested = (if da_BeRFC1541 a then [] else quad_option dhcpRequestedIPaddr ciaddr);
     client \<leftarrow> client_option (dc_iface s);
     m \<leftarrow> put_options (type_option DHCP_DECLINE @ quad_option dhcpServerIdentifier sid @ requested @ client) m;
     send_frame (di_shaddr (dc_iface s)) 0 (di_siaddr (dc_iface s)) m s
   }"

definition buildDhcpInform :: "dhcp_args \<Rightarrow> u32 \<Rightarrow> 'a dhcp_client_scheme \<Rightarrow> 'a dhcp_client_scheme run" where
  "buildDhcpInform a xid s = do {
     let m = (waiting a (new_msg xid s))\<lparr>dm_ciaddr := dc_inform s\<rparr>;
     tail \<leftarrow> request_tail a (dc_iface s);
     m \<leftarrow> put_options (type_option DHCP_INFORM @ max_size_option @ tail) m;
     send_frame MAC_BCAST_ADDR 0 INADDR_BROADCAST m s
   }"

section \<open>Setting up the identifiers\<close>

text \<open>
  \<open>snprintf\<close> into the 48 bytes of the class identifier cuts the text off, but the length it answers is that of the whole
  text. The text comes from \<open>uname\<close> and is an argument.
\<close>

definition classIDsetup :: "string \<Rightarrow> dhcp_iface \<Rightarrow> dhcp_iface" where
  "classIDsetup uname i = i\<lparr>di_class_id := overlay (bytes_of (take (CLASS_ID_MAX_LEN - 1) uname) @ [0]) (di_class_id i),
     di_class_len := length uname\<rparr>"

text \<open>The client identifier is written as a whole option, code and length in front.\<close>

definition clientIDsetup :: "dhcp_args \<Rightarrow> 'a dhcp_client_scheme \<Rightarrow> dhcp_iface run" where
  "clientIDsetup a s =
     (let bs = (case da_ClientID a of
          Some c \<Rightarrow> [dhcpClientIdentifier, of_nat (length c + 1), 0] @ bytes_of c
        | None \<Rightarrow> [dhcpClientIdentifier, of_nat (ETH_ALEN + 1), hw_type s] @ dc_hw s);
          i = dc_iface s in
      if length bs \<le> length (di_client_id i)
      then Some (i\<lparr>di_client_id := overlay bs (di_client_id i), di_client_len := length bs\<rparr>) else None)"

definition classclientsetup :: "string \<Rightarrow> dhcp_args \<Rightarrow> 'a dhcp_client_scheme \<Rightarrow> 'a dhcp_client_scheme run" where
  "classclientsetup uname a s = do {
     i \<leftarrow> (case da_ClassID a of
        Some c \<Rightarrow> (if length c \<le> length (di_class_id (dc_iface s))
           then Some ((dc_iface s)\<lparr>di_class_id := overlay (bytes_of c) (di_class_id (dc_iface s)), di_class_len := length c\<rparr>) else None)
      | None \<Rightarrow> Some (classIDsetup uname (dc_iface s)));
     i \<leftarrow> clientIDsetup a (s\<lparr>dc_iface := i\<rparr>);
     Some (s\<lparr>dc_iface := i\<rparr>)
   }"

section \<open>What a reader makes of a message\<close>

lemma length_encode_dhcp [simp]: "dhcp_msg_ok m \<Longrightarrow> length (encode_dhcp m) = dhcp_msg_len"
  by (simp add: encode_dhcp_def dhcp_msg_ok_def)

lemma decode_encode_dhcp:
  assumes "dhcp_msg_ok m"
  shows "decode_dhcp (encode_dhcp m @ rest) = m"
  using assms le32_word_le32_bytes [of "dm_xid m"]
  by (simp add: decode_dhcp_def encode_dhcp_def dhcp_msg_ok_def be_word_be_bytes nth_append)

text \<open>
  The message of a packet of \<open>n\<close> bytes behind its headers, read as the client itself reads messages: test of the
  checksums, fields, walk over the options.
\<close>

definition read_packet :: "byte list \<Rightarrow> (dhcpMessage \<times> dhcp_options) run" where
  "read_packet p = do {
     (c, p) \<leftarrow> udpipchk p;
     if c = 0 then do {
       opts \<leftarrow> parse_options (312 - 4) (drop (28 + 236 + 4) p) \<lparr>do_num = 0, do_len = (\<lambda>_. 0), do_val = (\<lambda>_. None)\<rparr>;
       Some (decode_dhcp (drop 28 p), opts)
     } else None
   }"

section \<open>Options as lists\<close>

lemma enc_append: "enc_options (os @ os') = enc_options os @ enc_options os'"
  by (simp add: enc_options_def)

lemma plain_append [simp]: "plain_options (os @ os') \<longleftrightarrow> plain_options os \<and> plain_options os'"
  by (auto simp: plain_options_def)

lemma enc_pieces:
  "type_option t = enc_options [(dhcpMessageType, [t])]"
  "max_size_option = enc_options [(dhcpMaxMsgSize, net16 (of_nat dhcp_msg_len))]"
  "quad_option c w = enc_options [(c, be_bytes 4 w)]"
  "param_request = enc_options [(dhcpParamRequest, drop 2 param_request)]"
  by (simp_all add: type_option_def max_size_option_def quad_option_def param_request_def enc_options_def)

definition host_os :: "dhcp_args \<Rightarrow> (byte \<times> byte list) list" where
  "host_os a = (case da_HostName a of None \<Rightarrow> [] | Some h \<Rightarrow> [(hostName, bytes_of h @ [0])])"

lemma host_option_enc: "host_option a = enc_options (host_os a)"
  by (simp add: host_option_def host_os_def enc_options_def split: option.split)

text \<open>What the builders rely on: the identifiers are in their arrays, and the client's is one option.\<close>

definition args_ok :: "dhcp_args \<Rightarrow> bool" where
  "args_ok a \<longleftrightarrow> (\<forall>h. da_HostName a = Some h \<longrightarrow> length h + 1 < HOSTNAME_MAX_LEN)"

definition iface_ok :: "dhcp_iface \<Rightarrow> bool" where
  "iface_ok i \<longleftrightarrow> length (di_class_id i) = CLASS_ID_MAX_LEN \<and> length (di_client_id i) = CLIENT_ID_MAX_LEN \<and>
     length (di_shaddr i) = ETH_ALEN \<and> 0 < di_class_len i \<and> di_class_len i \<le> CLASS_ID_MAX_LEN \<and>
     di_client_len i \<le> CLIENT_ID_MAX_LEN \<and> 3 \<le> di_client_len i \<and>
     take 2 (di_client_id i) = [dhcpClientIdentifier, of_nat (di_client_len i - 2)]"

definition class_os :: "dhcp_iface \<Rightarrow> (byte \<times> byte list) list" where
  "class_os i = [(dhcpClassIdentifier, take (di_class_len i) (di_class_id i))]"

definition client_os :: "dhcp_iface \<Rightarrow> (byte \<times> byte list) list" where
  "client_os i = [(dhcpClientIdentifier, take (di_client_len i - 2) (drop 2 (di_client_id i)))]"

definition tail_os :: "dhcp_args \<Rightarrow> dhcp_iface \<Rightarrow> (byte \<times> byte list) list" where
  "tail_os a i = [(dhcpParamRequest, drop 2 param_request)] @ host_os a @ class_os i @ client_os i"

lemma class_option_enc: "iface_ok i \<Longrightarrow> class_option i = Some (enc_options (class_os i))"
  by (simp add: class_option_def class_os_def enc_options_def iface_ok_def)

lemma client_option_enc:
  assumes "iface_ok i"
  shows "client_option i = Some (enc_options (client_os i))"
proof -
  let ?n = "di_client_len i" and ?c = "di_client_id i"
  have n: "3 \<le> ?n" "?n \<le> length ?c" "length ?c = 48" and h: "take 2 ?c = [dhcpClientIdentifier, of_nat (?n - 2)]"
    using assms by (simp_all add: iface_ok_def)
  have "take ?n ?c = take 2 ?c @ take (?n - 2) (drop 2 ?c)" using n(1) by (metis take_add le_add_diff_inverse le_trans numeral_le_iff semiring_norm(68) semiring_norm(71) semiring_norm(72))
  moreover have "length (take (?n - 2) (drop 2 ?c)) = ?n - 2" using n by simp
  ultimately show ?thesis using n h by (simp add: client_option_def client_os_def enc_options_def)
qed

lemma request_tail_enc: "iface_ok i \<Longrightarrow> request_tail a i = Some (enc_options (tail_os a i))"
  by (simp add: request_tail_def tail_os_def class_option_enc client_option_enc host_option_enc)
    (simp add: enc_options_def param_request_def)

lemma plain_client_os: "iface_ok i \<Longrightarrow> plain_options (client_os i)"
  by (auto simp: plain_options_def client_os_def iface_ok_def)

lemma plain_host_os: "args_ok a \<Longrightarrow> plain_options (host_os a)"
  by (cases "da_HostName a") (auto simp: host_os_def plain_options_def args_ok_def)

lemma plain_tail_os: "iface_ok i \<Longrightarrow> args_ok a \<Longrightarrow> plain_options (tail_os a i)"
  using plain_client_os [of i] plain_host_os [of a]
  by (auto simp: tail_os_def plain_options_def class_os_def param_request_def iface_ok_def)

lemma length_host_os: "args_ok a \<Longrightarrow> length (enc_options (host_os a)) \<le> 65"
  by (cases "da_HostName a") (auto simp: host_os_def enc_options_def args_ok_def)

lemma length_client_os: "iface_ok i \<Longrightarrow> length (enc_options (client_os i)) \<le> 48"
  by (simp add: enc_options_def client_os_def iface_ok_def)

lemma length_tail_os: "iface_ok i \<Longrightarrow> args_ok a \<Longrightarrow> length (enc_options (tail_os a i)) \<le> 16 + 65 + 50 + 48"
  using length_client_os [of i] length_host_os [of a]
  by (auto simp: enc_options_def tail_os_def class_os_def param_request_def iface_ok_def)

section \<open>What is sent\<close>

lemma put_options_enc:
  assumes "length (enc_options os) \<le> 307" "dhcp_msg_ok m"
  shows "\<exists>rest. put_options (enc_options os) m = Some (m\<lparr>dm_options := options_field (be_bytes 4 MAGIC_COOKIE) os rest\<rparr>) \<and>
    dhcp_msg_ok (m\<lparr>dm_options := options_field (be_bytes 4 MAGIC_COOKIE) os rest\<rparr>)"
  using assms by (intro exI [of _ "drop (5 + length (enc_options os)) (dm_options m)"])
    (simp add: put_options_def options_field_def overlay_def Let_def dhcp_msg_ok_def)

lemma new_msg_ok:
  "length (dc_hw s) = ETH_ALEN \<Longrightarrow> dhcp_msg_ok (new_msg xid s)"
  "dhcp_msg_ok (waiting a m) \<longleftrightarrow> dhcp_msg_ok m"
  "dhcp_msg_ok (m\<lparr>dm_ciaddr := c\<rparr>) \<longleftrightarrow> dhcp_msg_ok m"
  by (simp_all add: new_msg_def waiting_def dhcp_msg_ok_def)

text \<open>
  What a builder should achieve: the frame goes from this card to \<open>dhost\<close>, its packet from \<open>src\<close> to \<open>dst\<close> between the ports of
  the protocol, and it reads back as the message \<open>m\<close> with the options \<open>os\<close>; nothing else but the packet counter changes.
\<close>

definition frame_reads :: "byte list \<Rightarrow> byte list \<Rightarrow> byte list \<Rightarrow> NID32 \<Rightarrow> NID32 \<Rightarrow> dhcpMessage \<Rightarrow> (byte \<times> byte list) list \<Rightarrow> bool" where
  "frame_reads f dhost shost src dst m os \<longleftrightarrow> (\<exists>p opts m'.
     f = dhost @ shost @ net16 ETHERTYPE_IP @ p \<and>
     length p = 28 + dhcp_msg_len \<and> take 4 (drop 12 p) = nid32_bytes src \<and> take 4 (drop 16 p) = nid32_bytes dst \<and>
     take 2 (drop 20 p) = net16 DHCP_CLIENT_PORT \<and> take 2 (drop 22 p) = net16 DHCP_SERVER_PORT \<and>
     read_packet p = Some (m', opts) \<and> m' = m\<lparr>dm_options := dm_options m'\<rparr> \<and>
     (\<forall>c. do_val opts c = map_option (\<lambda>d. d @ [0]) (opt_last os c)))"

definition sends :: "'a dhcp_client_scheme run \<Rightarrow> 'a dhcp_client_scheme \<Rightarrow> byte list \<Rightarrow> NID32 \<Rightarrow> NID32 \<Rightarrow> dhcpMessage \<Rightarrow>
    (byte \<times> byte list) list \<Rightarrow> bool" where
  "sends r s dhost src dst m os \<longleftrightarrow> (\<exists>f. frame_reads f dhost (dc_hw s) src dst m os \<and>
     r = Some (s\<lparr>dc_send := f @ replicate 964 0, dc_ip_id := dc_ip_id s + 1\<rparr>))"

lemma read_built:
  assumes os: "plain_options os" "length (enc_options os) \<le> 307" and m: "dhcp_msg_ok m"
    and o': "dm_options m = options_field (be_bytes 4 MAGIC_COOKIE) os rest" and h: "length h = 28"
    and chk: "udpipchk (h @ encode_dhcp m) = Some (0, h @ encode_dhcp m)"
  shows "\<exists>opts. read_packet (h @ encode_dhcp m) = Some (m, opts) \<and> (\<forall>c. do_val opts c = map_option (\<lambda>d. d @ [0]) (opt_last os c))"
proof -
  have o: "drop 240 (encode_dhcp m) = enc_options os @ endOption # rest"
    using m o' by (simp add: encode_dhcp_def dhcp_msg_ok_def options_field_def)
  obtain opts where opts: "parse_options (312 - 4) (enc_options os @ endOption # rest)
        \<lparr>do_num = 0, do_len = (\<lambda>_. 0), do_val = (\<lambda>_. None)\<rparr> = Some opts"
      "\<forall>c. do_val opts c = map_option (\<lambda>d. d @ [0]) (opt_last os c)"
    using parse_fresh [OF os(1), of "312 - 4" rest] os(2) by (auto simp: releaseDhcpOptions_def)
  show ?thesis using opts chk h o decode_encode_dhcp [OF m, of "[]"] by (simp add: read_packet_def)
qed

lemma send_frame_sends:
  assumes os: "plain_options os" "length (enc_options os) \<le> 307" and m: "dhcp_msg_ok m"
  shows "sends (put_options (enc_options os) m \<bind> (\<lambda>m. send_frame dhost src dst m s)) s dhost src dst m os"
proof -
  obtain rest where r: "put_options (enc_options os) m = Some (m\<lparr>dm_options := options_field (be_bytes 4 MAGIC_COOKIE) os rest\<rparr>)"
      "dhcp_msg_ok (m\<lparr>dm_options := options_field (be_bytes 4 MAGIC_COOKIE) os rest\<rparr>)"
    using put_options_enc [OF os(2) m] by blast
  let ?m = "m\<lparr>dm_options := options_field (be_bytes 4 MAGIC_COOKIE) os rest\<rparr>"
  let ?b = "replicate 28 0 @ encode_dhcp ?m"
  have lm: "length (encode_dhcp ?m) = dhcp_msg_len" by (rule length_encode_dhcp [OF r(2)])
  have ov: "overlay ?b (replicate IPPACKET_SIZE 0) = ?b @ replicate 924 0" using lm by (simp add: overlay_def)
  have b: "28 + unat (of_nat dhcp_msg_len :: u16) \<le> length ?b" "unat (of_nat dhcp_msg_len :: u16) \<le> 65500" using lm by simp_all
  have d: "drop 28 ?b = encode_dhcp ?m" by simp
  obtain h where h: "length h = 28" "take 4 (drop 12 h) = nid32_bytes src" "take 4 (drop 16 h) = nid32_bytes dst"
      "take 2 (drop 20 h) = net16 DHCP_CLIENT_PORT" "take 2 (drop 22 h) = net16 DHCP_SERVER_PORT"
      "\<forall>rest. udpipgen (?b @ rest) src dst DHCP_CLIENT_PORT DHCP_SERVER_PORT (of_nat dhcp_msg_len) (dc_ip_id s)
        = Some (h @ encode_dhcp ?m @ rest, dc_ip_id s + 1) \<and> udpipchk (h @ encode_dhcp ?m @ rest) = Some (0, h @ encode_dhcp ?m @ rest)"
    using udpipchk_built [OF b, of src dst DHCP_CLIENT_PORT DHCP_SERVER_PORT "dc_ip_id s"] unfolding d by (elim exE conjE) (rule that)
  obtain opts where opts: "read_packet (h @ encode_dhcp ?m) = Some (?m, opts)"
      "\<forall>c. do_val opts c = map_option (\<lambda>d. d @ [0]) (opt_last os c)"
    using read_built [OF os r(2) _ h(1), of rest] spec [OF h(6), of "[]"] by auto
  have f: "frame_reads (dhost @ dc_hw s @ net16 ETHERTYPE_IP @ h @ encode_dhcp ?m) dhost (dc_hw s) src dst m os"
    unfolding frame_reads_def
    by (rule exI [of _ "h @ encode_dhcp ?m"], rule exI [of _ opts], rule exI [of _ ?m]) (use h(1-5) opts lm in simp)
  have "replicate 924 0 @ replicate 40 0 = replicate 964 (0 :: byte)" by (simp flip: replicate_add)
  then have "put_options (enc_options os) m \<bind> (\<lambda>m. send_frame dhost src dst m s)
      = Some (s\<lparr>dc_send := (dhost @ dc_hw s @ net16 ETHERTYPE_IP @ h @ encode_dhcp ?m) @ replicate 964 0, dc_ip_id := dc_ip_id s + 1\<rparr>)"
    using r(1) spec [OF h(6), of "replicate 924 0"] by (simp add: send_frame_def ov)
  then show ?thesis unfolding sends_def using f by blast
qed

text \<open>With the tail all requests have, and without.\<close>

lemma request_sends:
  assumes "iface_ok (dc_iface s)" "args_ok a" "dhcp_msg_ok m" "plain_options os" "length (enc_options os) \<le> 60"
  shows "sends (do {
      tail \<leftarrow> request_tail a (dc_iface s);
      m \<leftarrow> put_options (enc_options os @ tail) m;
      send_frame dhost src dst m s
    }) s dhost src dst m (os @ tail_os a (dc_iface s))"
  using send_frame_sends [of "os @ tail_os a (dc_iface s)" m dhost src dst s] assms
    plain_tail_os [OF assms(1,2)] length_tail_os [OF assms(1,2)]
  by (simp add: request_tail_enc enc_append)

lemma client_sends:
  assumes "iface_ok (dc_iface s)" "dhcp_msg_ok m" "plain_options os" "length (enc_options os) \<le> 60"
  shows "sends (do {
      client \<leftarrow> client_option (dc_iface s);
      m \<leftarrow> put_options (enc_options os @ client) m;
      send_frame dhost src dst m s
    }) s dhost src dst m (os @ client_os (dc_iface s))"
  using send_frame_sends [of "os @ client_os (dc_iface s)" m dhost src dst s] assms
    plain_client_os [OF assms(1)] length_client_os [OF assms(1)]
  by (simp add: client_option_enc enc_append)

text \<open>The beginnings of the requests, as lists.\<close>

abbreviation quad_os :: "byte \<Rightarrow> u32 \<Rightarrow> (byte \<times> byte list) list" where
  "quad_os c w \<equiv> [(c, be_bytes 4 w)]"

definition head_os :: "byte \<Rightarrow> (byte \<times> byte list) list" where
  "head_os t = [(dhcpMessageType, [t]), (dhcpMaxMsgSize, net16 (of_nat dhcp_msg_len))]"

lemma be_bytes_nonempty [simp]: "be_bytes k w = [] \<longleftrightarrow> k = 0"
  by (metis length_0_conv length_be_bytes)

lemma no_ciaddr [simp]:
  "(new_msg xid s)\<lparr>dm_ciaddr := 0\<rparr> = new_msg xid s" "(waiting a (new_msg xid s))\<lparr>dm_ciaddr := 0\<rparr> = waiting a (new_msg xid s)"
  by (simp_all add: new_msg_def waiting_def)

lemmas os_flat = enc_options_def plain_options_def head_os_def type_option_def max_size_option_def quad_option_def new_msg_ok

definition ask_os :: "bool \<Rightarrow> u32 \<Rightarrow> (byte \<times> byte list) list" where
  "ask_os b w = (if b then quad_os dhcpRequestedIPaddr w else [])"

lemma discover_sends:
  assumes "iface_ok (dc_iface s)" "args_ok a" "length (dc_hw s) = ETH_ALEN"
  shows "sends (buildDhcpDiscover a xid s) s MAC_BCAST_ADDR 0 INADDR_BROADCAST
    ((waiting a (new_msg xid s))\<lparr>dm_ciaddr := (if da_BeRFC1541 a then di_ciaddr (dc_iface s) else 0)\<rparr>)
    ((head_os DHCP_DISCOVER @ ask_os (di_ciaddr (dc_iface s) \<noteq> 0 \<and> \<not> da_BeRFC1541 a) (di_ciaddr (dc_iface s)) @
      quad_os dhcpIPaddrLeaseTime (da_LeaseTime a)) @ tail_os a (dc_iface s))"
  (is "sends _ _ _ _ _ ?m (?os @ _)")
proof -
  have "sends (do {
      tail \<leftarrow> request_tail a (dc_iface s);
      m \<leftarrow> put_options (enc_options ?os @ tail) ?m;
      send_frame MAC_BCAST_ADDR 0 INADDR_BROADCAST m s
    }) s MAC_BCAST_ADDR 0 INADDR_BROADCAST ?m (?os @ tail_os a (dc_iface s))"
    by (rule request_sends [OF assms(1,2)]) (use assms(3) in \<open>simp_all add: os_flat ask_os_def\<close>)
  then show ?thesis
    by (cases "da_BeRFC1541 a"; cases "di_ciaddr (dc_iface s) = 0") (simp_all add: buildDhcpDiscover_def os_flat ask_os_def Let_def)
qed

lemma reboot_sends:
  assumes "iface_ok (dc_iface s)" "args_ok a" "length (dc_hw s) = ETH_ALEN"
  shows "sends (buildDhcpReboot a xid s) s MAC_BCAST_ADDR 0 INADDR_BROADCAST
    ((waiting a (new_msg xid s))\<lparr>dm_ciaddr := (if da_BeRFC1541 a then di_ciaddr (dc_iface s) else 0)\<rparr>)
    ((head_os DHCP_REQUEST @ ask_os (\<not> da_BeRFC1541 a) (di_ciaddr (dc_iface s)) @
      quad_os dhcpIPaddrLeaseTime (da_LeaseTime a)) @ tail_os a (dc_iface s))"
  (is "sends _ _ _ _ _ ?m (?os @ _)")
proof -
  have "sends (do {
      tail \<leftarrow> request_tail a (dc_iface s);
      m \<leftarrow> put_options (enc_options ?os @ tail) ?m;
      send_frame MAC_BCAST_ADDR 0 INADDR_BROADCAST m s
    }) s MAC_BCAST_ADDR 0 INADDR_BROADCAST ?m (?os @ tail_os a (dc_iface s))"
    by (rule request_sends [OF assms(1,2)]) (use assms(3) in \<open>simp_all add: os_flat ask_os_def\<close>)
  then show ?thesis
    by (cases "da_BeRFC1541 a") (simp_all add: buildDhcpReboot_def os_flat ask_os_def Let_def)
qed

text \<open>The lease time of the last answer, where there was one.\<close>

definition lease_os :: "dhcp_options \<Rightarrow> (byte \<times> byte list) list" where
  "lease_os opts = (case word_at (do_val opts dhcpIPaddrLeaseTime) of Some w \<Rightarrow> quad_os dhcpIPaddrLeaseTime w | None \<Rightarrow> [])"

lemma lease_run:
  assumes "\<forall>v. do_val opts dhcpIPaddrLeaseTime = Some v \<longrightarrow> 4 \<le> length v"
  shows "(if do_val opts dhcpIPaddrLeaseTime = None then Some []
    else map_option (quad_option dhcpIPaddrLeaseTime) (word_at (do_val opts dhcpIPaddrLeaseTime))) = Some (enc_options (lease_os opts))"
  using assms by (cases "do_val opts dhcpIPaddrLeaseTime")
    (auto simp: lease_os_def quad_option_def enc_options_def word_at_def)

lemma lease_os_plain: "plain_options (lease_os opts)" "length (enc_options (lease_os opts)) \<le> 6"
  by (auto simp: lease_os_def plain_options_def enc_options_def split: option.splits)

lemma request_request_sends:
  assumes "iface_ok (dc_iface s)" "args_ok a" "length (dc_hw s) = ETH_ALEN"
    and sid: "word_at (do_val (dc_opts s) dhcpServerIdentifier) = Some sid"
    and lease: "\<forall>v. do_val (dc_opts s) dhcpIPaddrLeaseTime = Some v \<longrightarrow> 4 \<le> length v"
  shows "sends (buildDhcpRequest a xid s) s MAC_BCAST_ADDR 0 INADDR_BROADCAST
    ((waiting a (new_msg xid s))\<lparr>dm_ciaddr := (if da_BeRFC1541 a then di_ciaddr (dc_iface s) else 0)\<rparr>)
    ((head_os DHCP_REQUEST @ quad_os dhcpServerIdentifier sid @ ask_os (\<not> da_BeRFC1541 a) (di_ciaddr (dc_iface s)) @
      lease_os (dc_opts s)) @ tail_os a (dc_iface s))"
  (is "sends _ _ _ _ _ ?m (?os @ _)")
proof -
  have "sends (do {
      tail \<leftarrow> request_tail a (dc_iface s);
      m \<leftarrow> put_options (enc_options ?os @ tail) ?m;
      send_frame MAC_BCAST_ADDR 0 INADDR_BROADCAST m s
    }) s MAC_BCAST_ADDR 0 INADDR_BROADCAST ?m (?os @ tail_os a (dc_iface s))"
    by (rule request_sends [OF assms(1,2)])
      (use assms(3) lease_os_plain [of "dc_opts s"] in \<open>auto simp: os_flat ask_os_def\<close>)
  then show ?thesis using lease_run [OF lease] sid
    by (cases "da_BeRFC1541 a") (simp_all add: buildDhcpRequest_def os_flat ask_os_def Let_def)
qed

lemma rebind_sends:
  assumes "iface_ok (dc_iface s)" "args_ok a" "length (dc_hw s) = ETH_ALEN"
    and lease: "\<forall>v. do_val (dc_opts s) dhcpIPaddrLeaseTime = Some v \<longrightarrow> 4 \<le> length v"
  shows "sends (buildDhcpRebind a xid s) s MAC_BCAST_ADDR (di_ciaddr (dc_iface s)) INADDR_BROADCAST
    ((waiting a (new_msg xid s))\<lparr>dm_ciaddr := di_ciaddr (dc_iface s)\<rparr>)
    ((head_os DHCP_REQUEST @ lease_os (dc_opts s)) @ tail_os a (dc_iface s))"
  (is "sends _ _ _ _ _ ?m (?os @ _)")
proof -
  have "sends (do {
      tail \<leftarrow> request_tail a (dc_iface s);
      m \<leftarrow> put_options (enc_options ?os @ tail) ?m;
      send_frame MAC_BCAST_ADDR (di_ciaddr (dc_iface s)) INADDR_BROADCAST m s
    }) s MAC_BCAST_ADDR (di_ciaddr (dc_iface s)) INADDR_BROADCAST ?m (?os @ tail_os a (dc_iface s))"
    by (rule request_sends [OF assms(1,2)])
      (use assms(3) lease_os_plain [of "dc_opts s"] in \<open>simp_all add: os_flat\<close>)
  then show ?thesis using lease_run [OF lease]
    by (simp add: buildDhcpRebind_def os_flat Let_def)
qed

lemma renew_sends:
  assumes "iface_ok (dc_iface s)" "args_ok a" "length (dc_hw s) = ETH_ALEN"
  shows "sends (buildDhcpRenew a xid s) s (di_shaddr (dc_iface s)) (di_ciaddr (dc_iface s)) (di_siaddr (dc_iface s))
    ((waiting a (new_msg xid s))\<lparr>dm_ciaddr := di_ciaddr (dc_iface s)\<rparr>) (head_os DHCP_REQUEST @ tail_os a (dc_iface s))"
proof -
  have "sends (do {
      tail \<leftarrow> request_tail a (dc_iface s);
      m \<leftarrow> put_options (enc_options (head_os DHCP_REQUEST) @ tail) ((waiting a (new_msg xid s))\<lparr>dm_ciaddr := di_ciaddr (dc_iface s)\<rparr>);
      send_frame (di_shaddr (dc_iface s)) (di_ciaddr (dc_iface s)) (di_siaddr (dc_iface s)) m s
    }) s (di_shaddr (dc_iface s)) (di_ciaddr (dc_iface s)) (di_siaddr (dc_iface s))
      ((waiting a (new_msg xid s))\<lparr>dm_ciaddr := di_ciaddr (dc_iface s)\<rparr>) (head_os DHCP_REQUEST @ tail_os a (dc_iface s))"
    by (rule request_sends [OF assms(1,2)]) (use assms(3) in \<open>simp_all add: os_flat\<close>)
  then show ?thesis by (simp add: buildDhcpRenew_def os_flat Let_def)
qed

lemma inform_sends:
  assumes "iface_ok (dc_iface s)" "args_ok a" "length (dc_hw s) = ETH_ALEN"
  shows "sends (buildDhcpInform a xid s) s MAC_BCAST_ADDR 0 INADDR_BROADCAST
    ((waiting a (new_msg xid s))\<lparr>dm_ciaddr := dc_inform s\<rparr>) (head_os DHCP_INFORM @ tail_os a (dc_iface s))"
proof -
  have "sends (do {
      tail \<leftarrow> request_tail a (dc_iface s);
      m \<leftarrow> put_options (enc_options (head_os DHCP_INFORM) @ tail) ((waiting a (new_msg xid s))\<lparr>dm_ciaddr := dc_inform s\<rparr>);
      send_frame MAC_BCAST_ADDR 0 INADDR_BROADCAST m s
    }) s MAC_BCAST_ADDR 0 INADDR_BROADCAST
      ((waiting a (new_msg xid s))\<lparr>dm_ciaddr := dc_inform s\<rparr>) (head_os DHCP_INFORM @ tail_os a (dc_iface s))"
    by (rule request_sends [OF assms(1,2)]) (use assms(3) in \<open>simp_all add: os_flat\<close>)
  then show ?thesis by (simp add: buildDhcpInform_def os_flat Let_def)
qed

lemma release_sends:
  assumes "iface_ok (dc_iface s)" "length (dc_hw s) = ETH_ALEN"
    and sid: "word_at (do_val (dc_opts s) dhcpServerIdentifier) = Some sid"
  shows "sends (buildDhcpRelease a xid s) s (di_shaddr (dc_iface s)) (di_ciaddr (dc_iface s)) (di_siaddr (dc_iface s))
    ((new_msg xid s)\<lparr>dm_ciaddr := di_ciaddr (dc_iface s)\<rparr>)
    (((dhcpMessageType, [DHCP_RELEASE]) # quad_os dhcpServerIdentifier sid) @ client_os (dc_iface s))"
  (is "sends _ _ ?h ?c ?d ?m (?os @ _)")
proof -
  have "sends (do {
      client \<leftarrow> client_option (dc_iface s);
      m \<leftarrow> put_options (enc_options ?os @ client) ?m;
      send_frame ?h ?c ?d m s
    }) s ?h ?c ?d ?m (?os @ client_os (dc_iface s))"
    by (rule client_sends [OF assms(1)]) (use assms(2) in \<open>simp_all add: os_flat\<close>)
  then show ?thesis using sid by (simp add: buildDhcpRelease_def os_flat Let_def)
qed

lemma decline_sends:
  assumes "iface_ok (dc_iface s)" "length (dc_hw s) = ETH_ALEN"
    and sid: "word_at (do_val (dc_opts s) dhcpServerIdentifier) = Some sid"
  shows "sends (buildDhcpDecline a xid s) s (di_shaddr (dc_iface s)) 0 (di_siaddr (dc_iface s))
    ((new_msg xid s)\<lparr>dm_ciaddr := (if da_BeRFC1541 a then di_ciaddr (dc_iface s) else 0)\<rparr>)
    (((dhcpMessageType, [DHCP_DECLINE]) # quad_os dhcpServerIdentifier sid @ ask_os (\<not> da_BeRFC1541 a) (di_ciaddr (dc_iface s))) @
      client_os (dc_iface s))"
  (is "sends _ _ ?h ?c ?d ?m (?os @ _)")
proof -
  have "sends (do {
      client \<leftarrow> client_option (dc_iface s);
      m \<leftarrow> put_options (enc_options ?os @ client) ?m;
      send_frame ?h ?c ?d m s
    }) s ?h ?c ?d ?m (?os @ client_os (dc_iface s))"
    by (rule client_sends [OF assms(1)]) (use assms(2) in \<open>simp_all add: os_flat ask_os_def\<close>)
  then show ?thesis using sid
    by (cases "da_BeRFC1541 a") (simp_all add: buildDhcpDecline_def os_flat ask_os_def Let_def)
qed

section \<open>The identifiers\<close>

text \<open>
  With identifiers from the command line that fit, or none and a system name that fits, the set-up makes what the builders rely on.
\<close>

lemma classclientsetup_ok:
  assumes i: "length (di_class_id (dc_iface s)) = CLASS_ID_MAX_LEN" "length (di_client_id (dc_iface s)) = CLIENT_ID_MAX_LEN"
      "length (di_shaddr (dc_iface s)) = ETH_ALEN" "length (dc_hw s) = ETH_ALEN"
    and c: "case da_ClassID a of Some c \<Rightarrow> 0 < length c \<and> length c \<le> CLASS_ID_MAX_LEN
      | None \<Rightarrow> 0 < length uname \<and> length uname \<le> CLASS_ID_MAX_LEN"
    and d: "\<forall>d. da_ClientID a = Some d \<longrightarrow> length d \<le> CLIENT_ID_MAX_LEN - 3"
  shows "\<exists>i. classclientsetup uname a s = Some (s\<lparr>dc_iface := i\<rparr>) \<and> iface_ok i \<and> di_ciaddr i = di_ciaddr (dc_iface s)"
proof -
  obtain j where j: "(case da_ClassID a of
        Some c \<Rightarrow> (if length c \<le> length (di_class_id (dc_iface s))
           then Some ((dc_iface s)\<lparr>di_class_id := overlay (bytes_of c) (di_class_id (dc_iface s)), di_class_len := length c\<rparr>) else None)
      | None \<Rightarrow> Some (classIDsetup uname (dc_iface s))) = Some j"
      "length (di_class_id j) = CLASS_ID_MAX_LEN" "0 < di_class_len j" "di_class_len j \<le> CLASS_ID_MAX_LEN"
      "di_client_id j = di_client_id (dc_iface s)" "di_shaddr j = di_shaddr (dc_iface s)" "di_ciaddr j = di_ciaddr (dc_iface s)"
    using c i by (cases "da_ClassID a") (auto simp: classIDsetup_def)
  show ?thesis
  proof (cases "da_ClientID a")
    case None
    then show ?thesis using j i
      by (auto simp: classclientsetup_def clientIDsetup_def iface_ok_def overlay_def Let_def)
  next
    case (Some e)
    then have "length e \<le> 45" using d by simp
    then show ?thesis using j i Some
      by (auto simp: classclientsetup_def clientIDsetup_def iface_ok_def overlay_def Let_def)
  qed
qed

text \<open>The command line accepts client identifiers of up to 48 characters; three more are written than there are.\<close>

lemma long_client_id:
  assumes "length (di_client_id (dc_iface s)) = CLIENT_ID_MAX_LEN" "da_ClientID a = Some c" "CLIENT_ID_MAX_LEN - 3 < length c"
  shows "clientIDsetup a s = None"
  using assms by (simp add: clientIDsetup_def Let_def)

text \<open>The length \<open>snprintf\<close> answers is that of the whole text: a long system name makes every request read past the array.\<close>

lemma long_class_id:
  assumes "length (di_class_id (dc_iface s)) = CLASS_ID_MAX_LEN" "CLASS_ID_MAX_LEN < length uname"
  shows "request_tail a (classIDsetup uname (dc_iface s)) = None"
  using assms by (simp add: request_tail_def class_option_def classIDsetup_def)

end
