(* ===== verification/DHCP_Link.thy ===== *)
theory DHCP_Link
  imports DHCP_Build
begin

text \<open>
  The link layer of the DHCP client: \<open>eth2tr\<close> and \<open>tr2eth\<close> of \<open>client.c\<close>, which turn an Ethernet frame into a token ring frame
  and back inside the buffer it stands in, and the ARP messages of \<open>arp.c\<close>. The token ring header is that of the kernel's
  \<open>linux/if_tr.h\<close>: access and frame control, two addresses, routing control, routing segments, and the LLC header of 8 bytes behind.

  Shown: a frame that is turned into a token ring frame and back is the frame it was; reading a frame stays in its buffer.
\<close>

section \<open>Token ring frames\<close>

abbreviation tr_AC :: byte where "tr_AC \<equiv> 0x10"
abbreviation LLC_FRAME :: byte where "LLC_FRAME \<equiv> 0x40"
abbreviation EXTENDED_SAP :: byte where "EXTENDED_SAP \<equiv> 0xAA"
abbreviation UI_CMD :: byte where "UI_CMD \<equiv> 0x03"
abbreviation TR_RII :: byte where "TR_RII \<equiv> 0x80"
abbreviation TR_RCF_BROADCAST :: u16 where "TR_RCF_BROADCAST \<equiv> 0x8000"

text \<open>The routing control field is a big-endian number; the code puts its own size, 2, into the byte that comes first in memory.\<close>

definition eth2tr :: "byte list \<Rightarrow> nat \<Rightarrow> (byte list \<times> nat) run" where
  "eth2tr frame datalen =
     (let dhost = take 6 frame; shost = take 6 (drop 6 frame);
          llc = [EXTENDED_SAP, EXTENDED_SAP, UI_CMD, 0, 0, 0] @ take 2 (drop 12 frame);
          trheader = (if dhost ! 0 AND 0x80 \<noteq> 0
            then [tr_AC, LLC_FRAME] @ dhost @ [(shost ! 0) OR TR_RII] @ drop 1 shost @
              [2 OR hd (net16 (TR_RCF_BROADCAST OR 0x70)), last (net16 (TR_RCF_BROADCAST OR 0x70))] @ llc
            else [tr_AC, LLC_FRAME] @ dhost @ shost @ llc);
          len = length trheader in
      if 14 + datalen \<le> length frame \<and> len + datalen \<le> length frame
      then Some (overlay (trheader @ take datalen (drop 14 frame)) frame, len + datalen) else None)"

text \<open>
  Back: with the routing indicator set, or when the LLC header does not follow at once, the routing field is \<open>hlen\<close> bytes long.
  The data moved are always 1500 bytes. The first component is the value returned.
\<close>

definition tr_hlen :: "byte list \<Rightarrow> nat" where
  "tr_hlen frame = unat (frame ! 14 AND 0x1F)"

definition llc_ok :: "byte list \<Rightarrow> nat \<Rightarrow> bool" where
  "llc_ok frame hlen \<longleftrightarrow> frame ! (14 + hlen) = EXTENDED_SAP \<and> frame ! (14 + hlen + 2) = UI_CMD"

definition tr_take :: "byte list \<Rightarrow> nat \<Rightarrow> byte list run" where
  "tr_take frame hlen =
     (if 14 + hlen + 8 + IPPACKET_SIZE \<le> length frame
      then Some (overlay (take 6 (drop 2 frame) @ [frame ! 8 AND NOT TR_RII] @ take 5 (drop 9 frame) @ take 2 (drop (14 + hlen + 6) frame) @
             take IPPACKET_SIZE (drop (14 + hlen + 8) frame)) frame)
      else None)"

definition tr2eth :: "byte list \<Rightarrow> (nat \<times> byte list) run" where
  "tr2eth frame =
     (let routed = (let hlen = tr_hlen frame in
            if hlen < 2 \<or> odd hlen then Some (1, frame)
            else if \<not> llc_ok frame hlen then Some (1, frame)
            else map_option (\<lambda>f. (0, f)) (tr_take frame hlen)) in
      if length frame < 56 then None
      else if frame ! 8 AND TR_RII \<noteq> 0 then routed
      else if llc_ok frame 0 then map_option (\<lambda>f. (0, f)) (tr_take frame 0)
      else routed)"

lemma tr_hlen_le: "tr_hlen frame \<le> 31"
proof -
  have "frame ! 14 AND 0x1F \<le> (0x1F :: byte)" by (rule word_and_le1)
  then show ?thesis by (simp add: tr_hlen_def word_le_nat_alt)
qed

text \<open>The receive buffer of 1554 bytes is long enough, whatever is in it.\<close>

lemma tr2eth_safe:
  assumes "length frame = 1554"
  shows "\<exists>r frame'. tr2eth frame = Some (r, frame') \<and> length frame' = 1554 \<and> (r = 0 \<or> r = 1)"
proof -
  have take_ok: "\<exists>f. tr_take frame hlen = Some f \<and> length f = 1554" if "hlen \<le> 30" for hlen
    using that assms by (simp add: tr_take_def)
  have "\<not> odd (tr_hlen frame) \<Longrightarrow> tr_hlen frame \<le> 30" using tr_hlen_le [of frame] by presburger
  then show ?thesis
    using take_ok [of 0] take_ok [of "tr_hlen frame"] assms by (auto simp: tr2eth_def Let_def)
qed

lemma take_frame:
  assumes "14 \<le> length xs"
  shows "\<exists>d0 d1 d2 d3 d4 d5 s0 s1 s2 s3 s4 s5 t0 t1 rest.
    xs = d0 # d1 # d2 # d3 # d4 # d5 # s0 # s1 # s2 # s3 # s4 # s5 # t0 # t1 # rest"
proof -
  have "\<exists>y ys. xs = y # ys \<and> n \<le> length ys" if "Suc n \<le> length xs" for n and xs :: "'a list"
    using that by (cases xs) auto
  then have step: "Suc n \<le> length xs \<Longrightarrow> (\<And>y ys. xs = y # ys \<Longrightarrow> n \<le> length ys \<Longrightarrow> thesis) \<Longrightarrow> thesis" for n and xs :: "'a list" and thesis
    by blast
  have "Suc (Suc (Suc (Suc (Suc (Suc (Suc (Suc (Suc (Suc (Suc (Suc (Suc (Suc 0))))))))))))) \<le> length xs" using assms by simp
  then show ?thesis by (elim step) simp
qed

lemma rii_bit: "(x :: byte) AND 0x80 = 0 \<Longrightarrow> (x OR 0x80) AND NOT 0x80 = x" "(x :: byte) AND 0x80 = 0 \<Longrightarrow> x AND NOT 0x80 = x"
proof -
  assume x: "x AND 0x80 = 0"
  have "x = (x AND 0x80) OR (x AND NOT 0x80)" by (simp flip: bit.conj_disj_distrib)
  then show "x AND NOT 0x80 = x" using x by simp
  then show "(x OR 0x80) AND NOT 0x80 = x" by (simp add: bit.conj_disj_distrib2)
qed


section \<open>ARP\<close>

abbreviation ETHERTYPE_ARP :: u16 where "ETHERTYPE_ARP \<equiv> 0x0806"
abbreviation ARPOP_REQUEST :: u16 where "ARPOP_REQUEST \<equiv> 1"
abbreviation ARPOP_REPLY :: u16 where "ARPOP_REPLY \<equiv> 2"
abbreviation arp_len :: nat where "arp_len \<equiv> 60"

text \<open>\<open>struct arpMessage\<close>, padded to the least Ethernet frame; \<open>BasicArpLen\<close> is 28.\<close>

definition arpMessage :: "byte \<Rightarrow> u16 \<Rightarrow> byte list \<Rightarrow> NID32 \<Rightarrow> byte list \<Rightarrow> NID32 \<Rightarrow> 'a dhcp_client_scheme \<Rightarrow> byte list" where
  "arpMessage hlen op sha sip tha tip s = MAC_BCAST_ADDR @ dc_hw s @ net16 ETHERTYPE_ARP @
     net16 (of_nat (if dc_token s then ARPHRD_IEEE802_TR else ARPHRD_ETHER)) @ net16 ETHERTYPE_IP @ [hlen, 4] @ net16 op @
     sha @ nid32_bytes sip @ tha @ nid32_bytes tip @ replicate 18 0"

text \<open>Sending converts the frame in its buffer, which stays converted.\<close>

definition arp_send :: "byte list \<Rightarrow> 'a dhcp_client_scheme \<Rightarrow> (byte list \<times> 'a dhcp_client_scheme) run" where
  "arp_send frame s = do {
     (f, n) \<leftarrow> (if dc_token s then eth2tr frame 28 else Some (frame, arp_len));
     Some (f, s\<lparr>dc_net := dc_net s @ [take n f]\<rparr>)
   }"

definition arpRelease :: "'a dhcp_client_scheme \<Rightarrow> 'a dhcp_client_scheme run" where
  "arpRelease s = map_option snd
     (arp_send (arpMessage 0 ARPOP_REPLY (replicate 6 0) (di_ciaddr (dc_iface s)) (replicate 6 0) INADDR_BROADCAST s) s)"

definition arpInform :: "'a dhcp_client_scheme \<Rightarrow> 'a dhcp_client_scheme run" where
  "arpInform s = map_option snd
     (arp_send (arpMessage 6 ARPOP_REPLY (dc_hw s) (di_ciaddr (dc_iface s)) (di_shaddr (dc_iface s)) INADDR_BROADCAST s) s)"

text \<open>
  What happens on the packet socket while the client waits: the time given to \<open>peekfd\<close> passes, a frame arrives, or the socket
  fails. When the list of events ends the client is still waiting.
\<close>

datatype link_event = Quiet | Arrives "byte list" | RecvFails

text \<open>
  \<open>arpCheck\<close> (compiled only with \<open>ARPCHECK\<close>): up to five probes for the address, until a node answers for it. On a token ring
  the probe is converted again each time, and the answer is converted in a buffer of 60 bytes.
\<close>

definition arp_answer :: "byte list \<Rightarrow> 'a dhcp_client_scheme \<Rightarrow> bool run" where
  "arp_answer frame s = do {
     let buf = overlay (take arp_len frame) (replicate arp_len 0);
     (r, buf) \<leftarrow> (if dc_token s then tr2eth buf else Some (0, buf));
     Some (r = 0 \<and> take 2 (drop 12 buf) = net16 ETHERTYPE_ARP \<and> take 2 (drop 20 buf) = net16 ARPOP_REPLY \<and>
       take 6 (drop 32 buf) = dc_hw s \<and> take 4 (drop 28 buf) = nid32_bytes (di_ciaddr (dc_iface s)))
   }"

fun arp_listen :: "nat \<Rightarrow> byte list \<Rightarrow> link_event list \<Rightarrow> 'a dhcp_client_scheme \<Rightarrow> (int option \<times> 'a dhcp_client_scheme) run" where
  "arp_listen i frame [] s = Some (None, s)"
| "arp_listen i frame (Quiet # es) s =
     (if i > 4 then Some (Some 0, s)
      else do { (frame, s) \<leftarrow> arp_send frame s; arp_listen (i + 1) frame es s })"
| "arp_listen i frame (Arrives f # es) s = do {
     b \<leftarrow> arp_answer f s;
     if b then Some (Some 1, s) else arp_listen i frame es s
   }"
| "arp_listen i frame (RecvFails # es) s = Some (Some (- 1), s)"

definition arpCheck :: "link_event list \<Rightarrow> 'a dhcp_client_scheme \<Rightarrow> (int option \<times> 'a dhcp_client_scheme) run" where
  "arpCheck es s = do {
     (frame, s) \<leftarrow> arp_send (arpMessage 6 ARPOP_REQUEST (dc_hw s) 0 (replicate 6 0) (di_ciaddr (dc_iface s)) s) s;
     arp_listen 1 frame es s
   }"

text \<open>On Ethernet: an address nobody answers for is free after five probes; one somebody answers for is not.\<close>

lemma arp_listen_quiet:
  "\<not> dc_token s \<Longrightarrow> i + n = 5 \<Longrightarrow>
   arp_listen i frame (replicate n Quiet @ Quiet # es) s = Some (Some 0, s\<lparr>dc_net := dc_net s @ replicate n (take arp_len frame)\<rparr>)"
proof (induction n arbitrary: i s)
  case 0
  then show ?case by simp
next
  case (Suc n)
  let ?s = "s\<lparr>dc_net := dc_net s @ [take arp_len frame]\<rparr>"
  have "arp_listen (Suc i) frame (replicate n Quiet @ Quiet # es) ?s
      = Some (Some 0, ?s\<lparr>dc_net := dc_net ?s @ replicate n (take arp_len frame)\<rparr>)"
    by (rule Suc.IH) (use Suc.prems in simp_all)
  then show ?case using Suc.prems by (simp add: arp_send_def)
qed

lemma arp_listen_answered:
  "\<not> dc_token s \<Longrightarrow> \<forall>e \<in> set es. (\<exists>g. e = Arrives g) \<Longrightarrow> Arrives f \<in> set es \<Longrightarrow> arp_answer f s = Some True \<Longrightarrow>
   arp_listen i frame es s = Some (Some 1, s)"
proof (induction es)
  case (Cons e es)
  then obtain g where g: "e = Arrives g" by auto
  have "\<exists>b. arp_answer g s = Some b" using Cons.prems(1) by (simp add: arp_answer_def Let_def)
  then show ?case using Cons g by auto
qed simp

end
