(* ===== verification/DHCP_Config.thy ===== *)
theory DHCP_Config
  imports DHCP_Link
begin

text \<open>
  The set-up of the interface, \<open>src/src/dhcpcd-1.3.22-pl4/dhcpconfig.c\<close>: addresses and routes, the configuration
  files of the resolver, of NIS and of NTP, host and domain names, the cache of \<open>cache.c\<close> and the file of the lease's values.
  The kernel's answers to the ioctls and the resolver's to a reverse lookup are arguments; files can be written and renamed when they exist.
  Lists of addresses are read four bytes at a time; reading past the end of a value has no meaning.

  Shown: the mask guessed for a static route covers its destination; what the files say; the cache reads back.
\<close>

section \<open>State\<close>

record rtentry =
  rt_dst :: NID32
  rt_gateway :: NID32
  rt_genmask :: NID32
  rt_metric :: nat
  rt_window :: nat
  rt_gw :: bool
  rt_host :: bool

datatype rt_result = RtOk | RtUnreach | RtError

text \<open>A configuration file and its copy aside, and whether the client moved it (\<open>resolv_renamed\<close> and its likes).\<close>

record conf_file =
  cf_text :: "string option"
  cf_saved :: "string option"
  cf_renamed :: bool

record dhcp_proc = dhcp_client +
  dp_addr :: NID32
  dp_mask :: NID32
  dp_bcast :: NID32
  dp_routes :: "rtentry list"
  dp_resolv :: conf_file
  dp_nis :: conf_file
  dp_ntp :: conf_file
  dp_hostname :: string
  dp_domainname :: string
  dp_InitialHostName :: "string option"
  dp_InitialDomainName :: "string option"
  dp_cache :: "byte list option"
  dp_info :: "string option"
  dp_info_old :: "string option"
  dp_prev_ip :: NID32
  dp_ReqSentTime :: int
  dp_hooks :: "string list"

text \<open>The kernel and the resolver: whether the ioctls succeed, what adding a route gives, the name of an address.\<close>

record config_env =
  ce_setaddr :: bool
  ce_setmask :: "NID32 \<Rightarrow> bool"
  ce_setbcast :: bool
  ce_addrt :: "rtentry list \<Rightarrow> rtentry \<Rightarrow> rt_result"
  ce_hostbyaddr :: "NID32 \<Rightarrow> string option"

abbreviation routersOnSubnet :: byte where "routersOnSubnet \<equiv> 3"
abbreviation domainName :: byte where "domainName \<equiv> 15"
abbreviation staticRoute :: byte where "staticRoute \<equiv> 33"
abbreviation nisDomainName :: byte where "nisDomainName \<equiv> 40"
abbreviation nisServers :: byte where "nisServers \<equiv> 41"
abbreviation ntpServers :: byte where "ntpServers \<equiv> 42"

abbreviation nl :: string where "nl \<equiv> [CHR 0x0A]"

section \<open>Routes\<close>

text \<open>The mask is that of the address's class, made longer until no bit of the address is outside.\<close>

function genmask_loop :: "u32 \<Rightarrow> u32 \<Rightarrow> u32" where
  "genmask_loop t p = (if t AND p = 0 then t else genmask_loop (drop_bit 1 t) p)"
  by pat_completeness auto
termination
proof (relation "measure (\<lambda>(t, p). unat t)")
  fix t p :: u32
  assume "t AND p \<noteq> 0"
  then have "t \<noteq> 0" by auto
  then have "0 < unat t" by (simp add: unat_gt_0)
  then have "unat (drop_bit 1 t) < unat t" by (subst unat_drop_bit_eq) (simp add: drop_bit_eq_div)
  then show "((drop_bit 1 t, p), (t, p)) \<in> measure (\<lambda>(t, p). unat t)" by simp
qed simp

declare genmask_loop.simps [simp del]

definition getgenmask :: "NID32 \<Rightarrow> u32" where
  "getgenmask p =
     (let t = (if p AND 0x80000000 = 0 then NOT 0xFF000000
          else if p AND 0xC0000000 = 0x80000000 then NOT 0xFFFF0000
          else if p AND 0xE0000000 = 0xC0000000 then NOT 0xFFFFFF00
          else 0) in
      NOT (genmask_loop t p))"

text \<open>\<open>setDefaultRoute\<close>: when the gateway cannot be reached, a route to the gateway itself is tried first.\<close>

definition default_rt :: "dhcp_args \<Rightarrow> NID32 \<Rightarrow> rtentry" where
  "default_rt a gw = \<lparr>rt_dst = 0, rt_gateway = gw, rt_genmask = 0, rt_metric = 1, rt_window = da_Window a, rt_gw = True, rt_host = False\<rparr>"

definition host_rt :: "NID32 \<Rightarrow> rtentry" where
  "host_rt gw = \<lparr>rt_dst = gw, rt_gateway = 0, rt_genmask = 0xFFFFFFFF, rt_metric = 0, rt_window = 0, rt_gw = False, rt_host = True\<rparr>"

definition setDefaultRoute :: "config_env \<Rightarrow> dhcp_args \<Rightarrow> NID32 \<Rightarrow> rtentry list \<Rightarrow> int \<times> rtentry list" where
  "setDefaultRoute env a gw rs =
     (case ce_addrt env rs (default_rt a gw) of
        RtOk \<Rightarrow> (0, rs @ [default_rt a gw])
      | RtError \<Rightarrow> (- 1, rs)
      | RtUnreach \<Rightarrow>
          if ce_addrt env rs (host_rt gw) = RtOk then
            (let rs = rs @ [host_rt gw] in
             if ce_addrt env rs (default_rt a gw) = RtOk then (0, rs @ [default_rt a gw]) else (- 1, rs))
          else (0, rs))"

section \<open>Lists of addresses in a value\<close>

fun quads :: "nat \<Rightarrow> byte list \<Rightarrow> (NID32 list) run" where
  "quads n (a # b # c # d # bs) = (if n = 0 then Some [] else map_option (Cons (be_word [a, b, c, d])) (quads (n - 4) bs))"
| "quads n bs = (if n = 0 then Some [] else None)"

definition opt_quads :: "byte \<Rightarrow> dhcp_options \<Rightarrow> (NID32 list) run" where
  "opt_quads c opts =
     (if do_len opts c = 0 then Some []
      else case do_val opts c of Some v \<Rightarrow> quads (unat (do_len opts c)) v | None \<Rightarrow> None)"

text \<open>Static routes are pairs of a destination and a gateway.\<close>

fun pairs :: "NID32 list \<Rightarrow> ((NID32 \<times> NID32) list) run" where
  "pairs (d # g # as) = map_option (Cons (d, g)) (pairs as)"
| "pairs [] = Some []"
| "pairs [d] = None"

definition static_rt :: "NID32 \<times> NID32 \<Rightarrow> rtentry" where
  "static_rt dg = \<lparr>rt_dst = fst dg, rt_gateway = snd dg, rt_genmask = getgenmask (fst dg), rt_metric = 1, rt_window = 0, rt_gw = True,
     rt_host = (getgenmask (fst dg) = 0xFFFFFFFF)\<rparr>"

definition add_static :: "config_env \<Rightarrow> NID32 \<times> NID32 \<Rightarrow> rtentry list \<Rightarrow> rtentry list" where
  "add_static env dg rs = (if ce_addrt env rs (static_rt dg) = RtOk then rs @ [static_rt dg] else rs)"

text \<open>For every router there is a default route set, but always the one of the first.\<close>

definition set_routes :: "config_env \<Rightarrow> dhcp_args \<Rightarrow> 'a dhcp_proc_scheme \<Rightarrow> 'a dhcp_proc_scheme run" where
  "set_routes env a s = do {
     as \<leftarrow> opt_quads staticRoute (dc_opts s);
     dgs \<leftarrow> pairs as;
     let rs = fold (add_static env) dgs (dp_routes s);
     rs \<leftarrow> (if da_SetDHCPDefaultRoutes a then
         (if 3 < do_len (dc_opts s) routersOnSubnet then do {
            gw \<leftarrow> word_at (do_val (dc_opts s) routersOnSubnet);
            Some (((\<lambda>rs. snd (setDefaultRoute env a gw rs)) ^^ ((unat (do_len (dc_opts s) routersOnSubnet) + 3) div 4)) rs)
          } else Some rs)
       else Some (if 0 < da_default_router a then snd (setDefaultRoute env a (da_default_router a) rs) else rs));
     Some (s\<lparr>dp_routes := rs\<rparr>)
   }"

section \<open>Files\<close>

text \<open>The old file is moved aside, over an older copy, and the new one written.\<close>

definition replace_file :: "string \<Rightarrow> conf_file \<Rightarrow> conf_file" where
  "replace_file str f =
     (case cf_text f of
        None \<Rightarrow> f\<lparr>cf_renamed := False, cf_text := Some str\<rparr>
      | Some old \<Rightarrow> \<lparr>cf_text = Some str, cf_saved = Some old, cf_renamed = True\<rparr>)"

text \<open>When the client stops, the copy is moved back.\<close>

definition restore_file :: "conf_file \<Rightarrow> conf_file" where
  "restore_file f =
     (if cf_renamed f then (case cf_saved f of Some old \<Rightarrow> f\<lparr>cf_text := Some old, cf_saved := None\<rparr> | None \<Rightarrow> f) else f)"

definition resolv_text :: "dhcp_options \<Rightarrow> string run" where
  "resolv_text opts = do {
     servers \<leftarrow> opt_quads dnsOption opts;
     search \<leftarrow> (if do_len opts domainName \<noteq> 0
        then map_option (\<lambda>d. ''search '' @ d @ nl) (c_string (do_val opts domainName)) else Some []);
     Some (concat (map (\<lambda>q. ''nameserver '' @ inet_ntop4 q @ nl) servers) @ search)
   }"

definition nis_text :: "dhcp_options \<Rightarrow> string run" where
  "nis_text opts = do {
     let v = (if do_len opts nisDomainName \<noteq> 0 then do_val opts nisDomainName else do_val opts domainName);
     domain \<leftarrow> (if v = None then Some ''localdomain'' else c_string v);
     servers \<leftarrow> opt_quads nisServers opts;
     Some (if do_len opts nisServers = 0 then ''domain '' @ domain @ '' broadcast'' @ nl
       else concat (map (\<lambda>q. ''domain '' @ domain @ '' server '' @ inet_ntop4 q @ nl) servers))
   }"

definition ntp_text :: "NID32 \<Rightarrow> dhcp_options \<Rightarrow> string run" where
  "ntp_text ciaddr opts = do {
     mask \<leftarrow> word_at (do_val opts subnetMask);
     servers \<leftarrow> (if 4 \<le> do_len opts ntpServers then opt_quads ntpServers opts else Some []);
     Some (''restrict default noquery notrust nomodify'' @ nl @ ''restrict 127.0.0.1'' @ nl @
       ''restrict '' @ inet_ntop4 (ciaddr AND mask) @ '' mask '' @ inet_ntop4 mask @ nl @
       (if 4 \<le> do_len opts ntpServers
        then concat (map (\<lambda>q. ''restrict '' @ inet_ntop4 q @ nl @ ''server '' @ inet_ntop4 q @ nl) servers)
        else ''fudge 127.127.1.0 stratum 3'' @ nl @ ''server 127.127.1.0'' @ nl) @
       ''driftfile /etc/ntp.drift'' @ nl @ ''logfile /var/log/ntp.log'' @ nl)
   }"

section \<open>Names\<close>

text \<open>\<open>sethostname\<close> gets the name looked up, up to a blank; the domain is what follows its first dot.\<close>

definition printing :: "char \<Rightarrow> bool" where
  "printing c \<longleftrightarrow> 32 < (of_char c :: nat) \<and> (of_char c :: nat) < 128"

definition host_part :: "string \<Rightarrow> string" where
  "host_part name = takeWhile printing name"

fun domain_part :: "string \<Rightarrow> string" where
  "domain_part [] = []"
| "domain_part (c # cs) = (if \<not> printing c then c # cs else if c = CHR ''.'' then cs else domain_part cs)"

definition opt_text_new :: "byte \<Rightarrow> string \<Rightarrow> dhcp_options \<Rightarrow> dhcp_options" where
  "opt_text_new c str opts = opts\<lparr>do_val := (do_val opts)(c \<mapsto> bytes_of str @ [0]), do_len := (do_len opts)(c := of_nat (length str)),
     do_num := do_num opts + 1\<rparr>"

text \<open>As many bytes of a value as its length says.\<close>

definition opt_bytes :: "byte \<Rightarrow> dhcp_options \<Rightarrow> byte list run" where
  "opt_bytes c opts = (case do_val opts c of
     Some v \<Rightarrow> if unat (do_len opts c) \<le> length v then Some (take (unat (do_len opts c)) v) else None
   | None \<Rightarrow> None)"

definition set_host_name :: "config_env \<Rightarrow> 'a dhcp_proc_scheme \<Rightarrow> 'a dhcp_proc_scheme run" where
  "set_host_name env s = do {
     let opts = (if do_len (dc_opts s) hostName \<noteq> 0 then dc_opts s
       else case ce_hostbyaddr env (di_ciaddr (dc_iface s)) of
           None \<Rightarrow> dc_opts s | Some name \<Rightarrow> opt_text_new hostName (host_part name) (dc_opts s));
     let s = s\<lparr>dc_opts := opts,
       dp_InitialHostName := (if dp_InitialHostName s = None then Some (dp_hostname s) else dp_InitialHostName s)\<rparr>;
     if do_len opts hostName \<noteq> 0 then do {
       bs \<leftarrow> opt_bytes hostName opts;
       Some (s\<lparr>dp_hostname := map (\<lambda>b. char_of (unat b)) bs\<rparr>)
     } else Some s
   }"

definition set_domain_name :: "config_env \<Rightarrow> 'a dhcp_proc_scheme \<Rightarrow> 'a dhcp_proc_scheme run" where
  "set_domain_name env s = do {
     let s = s\<lparr>dp_InitialDomainName := (if dp_InitialDomainName s = None then Some (dp_domainname s) else dp_InitialDomainName s)\<rparr>;
     let opts = (if do_len (dc_opts s) domainName \<noteq> 0 then dc_opts s
       else case ce_hostbyaddr env (di_ciaddr (dc_iface s)) of
           None \<Rightarrow> dc_opts s
         | Some name \<Rightarrow> if domain_part name = [] then dc_opts s else opt_text_new domainName (domain_part name) (dc_opts s));
     let s = s\<lparr>dc_opts := opts\<rparr>;
     if do_len opts domainName \<noteq> 0 then do {
       bs \<leftarrow> opt_bytes domainName opts;
       Some (s\<lparr>dp_domainname := map (\<lambda>b. char_of (unat b)) bs\<rparr>)
     } else Some s
   }"

section \<open>The cache\<close>

abbreviation VERSION :: string where "VERSION \<equiv> ''1.3.22-pl4''"
abbreviation iface_len :: nat where "iface_len \<equiv> 136"

text \<open>\<open>struct dhcpInterface\<close> in memory, with its padding.\<close>

definition encode_iface :: "dhcp_iface \<Rightarrow> byte list" where
  "encode_iface i = di_version i @ [0] @ nid32_bytes (di_ciaddr i) @ nid32_bytes (di_siaddr i) @ le32_bytes (of_nat (di_class_len i)) @
     le32_bytes (of_nat (di_client_len i)) @ le32_bytes (di_xid i) @ di_shaddr i @ di_class_id i @ di_client_id i @ [0, 0]"

definition decode_iface :: "byte list \<Rightarrow> dhcp_iface" where
  "decode_iface b = \<lparr>di_version = take 11 b, di_ciaddr = be_word (take 4 (drop 12 b)), di_siaddr = be_word (take 4 (drop 16 b)),
     di_class_len = unat (le32_word (take 4 (drop 20 b))), di_client_len = unat (le32_word (take 4 (drop 24 b))),
     di_xid = le32_word (take 4 (drop 28 b)), di_shaddr = take 6 (drop 32 b), di_class_id = take 48 (drop 38 b),
     di_client_id = take 48 (drop 86 b)\<rparr>"

text \<open>A file that is too short or of another version has overwritten the structure when it is refused.\<close>

definition readDhcpCache :: "'a dhcp_proc_scheme \<Rightarrow> int \<times> 'a dhcp_proc_scheme" where
  "readDhcpCache s =
     (case dp_cache s of
        None \<Rightarrow> (- 1, s)
      | Some f \<Rightarrow>
          (let s = s\<lparr>dc_iface := decode_iface (overlay (take iface_len f) (encode_iface (dc_iface s)))\<rparr> in
           if length f < iface_len then (- 1, s)
           else if di_version (dc_iface s) \<noteq> bytes_of VERSION @ [0] then (- 1, s)
           else (0, s\<lparr>dp_prev_ip := di_ciaddr (dc_iface s)\<rparr>)))"

definition deleteDhcpCache :: "'a dhcp_proc_scheme \<Rightarrow> 'a dhcp_proc_scheme" where
  "deleteDhcpCache s = s\<lparr>dp_cache := None\<rparr>"

definition write_cache :: "'a dhcp_proc_scheme \<Rightarrow> 'a dhcp_proc_scheme" where
  "write_cache s =
     (let i = (dc_iface s)\<lparr>di_version := bytes_of VERSION @ [0]\<rparr> in s\<lparr>dc_iface := i, dp_cache := Some (encode_iface i)\<rparr>)"

section \<open>The values of the lease\<close>

definition quoted :: "string \<Rightarrow> string" where
  "quoted str = [CHR 0x27] @ str @ [CHR 0x27]"

fun commas :: "string list \<Rightarrow> string" where
  "commas [] = []"
| "commas [x] = x"
| "commas (x # xs) = x @ '','' @ commas xs"

definition hex2 :: "byte \<Rightarrow> string" where
  "hex2 b = [''0123456789ABCDEF'' ! (unat b div 16), ''0123456789ABCDEF'' ! (unat b mod 16)]"

fun colons :: "string list \<Rightarrow> string" where
  "colons [] = []"
| "colons [x] = x"
| "colons (x # xs) = x @ '':'' @ colons xs"

definition mac_text :: "byte list \<Rightarrow> string" where
  "mac_text bs = colons (map hex2 bs)"

text \<open>\<open>cleanmetas\<close> replaces single quotes in place, up to the terminating zero it relies on.\<close>

fun cleanmetas :: "byte list \<Rightarrow> byte list run" where
  "cleanmetas [] = None"
| "cleanmetas (b # bs) = (if b = 0 then Some (b # bs) else map_option (Cons (if b = 39 then 32 else b)) (cleanmetas bs))"

definition clean_opt :: "string \<Rightarrow> byte \<Rightarrow> dhcp_options \<Rightarrow> (string \<times> dhcp_options) run" where
  "clean_opt key c opts =
     (if do_len opts c = 0 then Some ([], opts)
      else case do_val opts c of
          None \<Rightarrow> None
        | Some v \<Rightarrow> map_option (\<lambda>v. (nl @ key @ ''='' @ quoted (cstring v), opts\<lparr>do_val := (do_val opts)(c \<mapsto> v)\<rparr>)) (cleanmetas v))"

definition info_addresses :: "NID32 \<Rightarrow> dhcp_options \<Rightarrow> string run" where
  "info_addresses ciaddr opts = do {
     mask \<leftarrow> word_at (do_val opts subnetMask);
     bcast \<leftarrow> word_at (do_val opts broadcastAddr);
     routers \<leftarrow> (if 3 < do_len opts routersOnSubnet then opt_quads routersOnSubnet opts else Some []);
     routes \<leftarrow> opt_quads staticRoute opts;
     _ \<leftarrow> pairs routes;
     Some (''IPADDR='' @ inet_ntop4 ciaddr @ nl @ ''NETMASK='' @ inet_ntop4 mask @ nl @
       ''NETWORK='' @ inet_ntop4 (ciaddr AND mask) @ nl @ ''BROADCAST='' @ inet_ntop4 bcast @ nl @
       (if 3 < do_len opts routersOnSubnet then ''GATEWAY='' @ commas (map inet_ntop4 routers) else []) @
       (if do_len opts staticRoute \<noteq> 0 then nl @ ''ROUTE='' @ commas (map inet_ntop4 routes) else []))
   }"

definition info_servers :: "dhcp_options \<Rightarrow> string run" where
  "info_servers opts = do {
     first \<leftarrow> word_at (do_val opts dnsOption);
     dns \<leftarrow> opt_quads dnsOption opts;
     ntp \<leftarrow> (if 4 \<le> do_len opts ntpServers then opt_quads ntpServers opts else Some []);
     nis \<leftarrow> (if 4 \<le> do_len opts nisServers then opt_quads nisServers opts else Some []);
     Some (nl @ ''DNS='' @ commas (map inet_ntop4 (first # drop 1 dns)) @
       (if 4 \<le> do_len opts ntpServers then nl @ ''NTPSERVERS='' @ commas (map inet_ntop4 ntp) else []) @
       (if 4 \<le> do_len opts nisServers then nl @ ''NISSERVERS='' @ commas (map inet_ntop4 nis) else []))
   }"

definition info_lease :: "dhcp_args \<Rightarrow> 'a dhcp_client_scheme \<Rightarrow> string run" where
  "info_lease a s = do {
     let opts = dc_opts s;
     let m = decode_dhcp (drop (dc_off s) (dc_recv s));
     sid \<leftarrow> word_at (do_val opts dhcpServerIdentifier);
     sname \<leftarrow> cleanmetas (drop (dc_off s + 44) (dc_recv s));
     lease \<leftarrow> word_at (do_val opts dhcpIPaddrLeaseTime);
     t1 \<leftarrow> word_at (do_val opts dhcpT1value);
     t2 \<leftarrow> word_at (do_val opts dhcpT2value);
     class \<leftarrow> c_string (Some (di_class_id (dc_iface s)));
     Some (nl @ ''DHCPSID='' @ inet_ntop4 sid @ nl @ ''DHCPGIADDR='' @ inet_ntop4 (dm_giaddr m) @ nl @
       ''DHCPSIADDR='' @ inet_ntop4 (dm_siaddr m) @ nl @ ''DHCPCHADDR='' @ mac_text (dc_hw s) @ nl @
       ''DHCPSHADDR='' @ mac_text (di_shaddr (dc_iface s)) @ nl @ ''DHCPSNAME='' @ quoted (cstring sname) @ nl @
       ''LEASETIME='' @ num_string 10 (unat lease) @ nl @ ''RENEWALTIME='' @ num_string 10 (unat t1) @ nl @
       ''REBINDTIME='' @ num_string 10 (unat t2) @ nl @ ''INTERFACE='' @ quoted (da_IfNameExt a) @ nl @
       ''CLASSID='' @ quoted class @ nl @
       (case da_ClientID a of
          Some c \<Rightarrow> ''CLIENTID='' @ quoted c @ nl
        | None \<Rightarrow> ''CLIENTID='' @ mac_text (take 6 (drop 3 (di_client_id (dc_iface s)))) @ nl))
   }"

text \<open>The cleaned values stay in the options. The server's name is cleaned in the receive buffer, where nothing reads it afterwards.\<close>

definition write_info :: "dhcp_args \<Rightarrow> 'a dhcp_proc_scheme \<Rightarrow> 'a dhcp_proc_scheme run" where
  "write_info a s = do {
     addresses \<leftarrow> info_addresses (di_ciaddr (dc_iface s)) (dc_opts s);
     (host, opts) \<leftarrow> clean_opt ''HOSTNAME'' hostName (dc_opts s);
     (domain, opts) \<leftarrow> clean_opt ''DOMAIN'' domainName opts;
     (nis, opts) \<leftarrow> clean_opt ''NISDOMAIN'' nisDomainName opts;
     (path, opts) \<leftarrow> clean_opt ''ROOTPATH'' rootPath opts;
     servers \<leftarrow> info_servers opts;
     lease \<leftarrow> info_lease a (s\<lparr>dc_opts := opts\<rparr>);
     Some (s\<lparr>dc_opts := opts, dp_info := Some (addresses @ host @ domain @ nis @ path @ servers @ lease),
       dp_info_old := (if dp_info s = None then dp_info_old s else dp_info s)\<rparr>)
   }"

section \<open>\<open>dhcpConfig\<close>\<close>

text \<open>The value returned, or the end of the process with its exit code.\<close>

datatype outcome = Returns int | Exits int

text \<open>The addresses of the interface; a mask the kernel does not take is tried again with all bits set.\<close>

definition set_addresses :: "config_env \<Rightarrow> 'a dhcp_proc_scheme \<Rightarrow> (bool \<times> 'a dhcp_proc_scheme) run" where
  "set_addresses env s =
     (if \<not> ce_setaddr env then Some (False, s)
      else do {
        let s = s\<lparr>dp_addr := di_ciaddr (dc_iface s)\<rparr>;
        mask \<leftarrow> word_at (do_val (dc_opts s) subnetMask);
        let s = (if ce_setmask env mask then s\<lparr>dp_mask := mask\<rparr> else if ce_setmask env 0xFFFFFFFF then s\<lparr>dp_mask := 0xFFFFFFFF\<rparr> else s);
        if \<not> ce_setmask env mask \<and> \<not> ce_setmask env 0xFFFFFFFF then Some (False, s)
        else do {
          bcast \<leftarrow> word_at (do_val (dc_opts s) broadcastAddr);
          Some (True, if ce_setbcast env then s\<lparr>dp_bcast := bcast\<rparr> else s)
        }
      })"

definition write_files :: "dhcp_args \<Rightarrow> 'a dhcp_proc_scheme \<Rightarrow> 'a dhcp_proc_scheme run" where
  "write_files a s = do {
     s \<leftarrow> (if da_ReplResolvConf a then map_option (\<lambda>str. s\<lparr>dp_resolv := replace_file str (dp_resolv s)\<rparr>) (resolv_text (dc_opts s)) else Some s);
     s \<leftarrow> (if da_ReplNISConf a then map_option (\<lambda>str. s\<lparr>dp_nis := replace_file str (dp_nis s)\<rparr>) (nis_text (dc_opts s)) else Some s);
     if da_ReplNTPConf a then map_option (\<lambda>str. s\<lparr>dp_ntp := replace_file str (dp_ntp s)\<rparr>) (ntp_text (di_ciaddr (dc_iface s)) (dc_opts s))
     else Some s
   }"

text \<open>Behind the label \<open>tsc\<close>: cache, values, the script that is called on a change, and the end on an infinite lease.\<close>

definition finish_config :: "dhcp_args \<Rightarrow> 'a dhcp_proc_scheme \<Rightarrow> (outcome \<times> 'a dhcp_proc_scheme) run" where
  "finish_config a s = do {
     s \<leftarrow> write_info a (write_cache s);
     let s = (if di_ciaddr (dc_iface s) = dp_prev_ip s then s\<lparr>dp_hooks := dp_hooks s @ [''up'']\<rparr>
        else s\<lparr>dp_hooks := dp_hooks s @ [''new''], dp_prev_ip := di_ciaddr (dc_iface s)\<rparr>);
     lease \<leftarrow> word_at (do_val (dc_opts s) dhcpIPaddrLeaseTime);
     Some (if lease = 0xFFFFFFFF then Exits 0 else Returns 0, s)
   }"

definition dhcpConfig :: "config_env \<Rightarrow> dhcp_args \<Rightarrow> 'a dhcp_proc_scheme \<Rightarrow> (outcome \<times> 'a dhcp_proc_scheme) run" where
  "dhcpConfig env a s =
     (if da_TestCase a then finish_config a s
      else do {
        (done, s) \<leftarrow> set_addresses env s;
        if \<not> done then Some (Returns (- 1), s)
        else do {
          s \<leftarrow> set_routes env a s;
          s \<leftarrow> arpInform s;
          s \<leftarrow> write_files a s;
          s \<leftarrow> (if da_SetHostName a then set_host_name env s else Some s);
          s \<leftarrow> (if da_SetDomainName a then set_domain_name env s else Some s);
          finish_config a s
        }
      })"

section \<open>Masks\<close>

text \<open>
  From a mask of \<open>k\<close> host bits the loop goes down to the most host bits in which the address has no bit.
\<close>

lemma genmask_loop_mask:
  "k \<le> 32 \<Longrightarrow> \<exists>j \<le> k. genmask_loop (mask k) p = mask j \<and> p AND mask j = 0 \<and> (\<forall>i. j < i \<and> i \<le> k \<longrightarrow> p AND mask i \<noteq> 0)"
proof (induction k)
  case 0
  then show ?case by (simp add: genmask_loop.simps)
next
  case (Suc k)
  show ?case
  proof (cases "p AND mask (Suc k) = 0")
    case True
    then have "genmask_loop (mask (Suc k)) p = mask (Suc k)" by (subst genmask_loop.simps) (simp add: and.commute)
    then show ?thesis using True by (intro exI [of _ "Suc k"]) auto
  next
    case False
    have "drop_bit 1 (mask (Suc k) :: u32) = mask k"
      by (rule bit_word_eqI) (use Suc.prems in \<open>auto simp: bit_drop_bit_eq bit_mask_iff\<close>)
    then have "genmask_loop (mask (Suc k)) p = genmask_loop (mask k) p"
      using False by (subst genmask_loop.simps) (simp add: and.commute)
    moreover from Suc obtain j where j: "j \<le> k" "genmask_loop (mask k) p = mask j" "p AND mask j = 0"
        "\<forall>i. j < i \<and> i \<le> k \<longrightarrow> p AND mask i \<noteq> 0" by auto
    moreover have "p AND mask i \<noteq> 0" if "j < i" "i \<le> Suc k" for i
      using j(4) that False by (cases "i = Suc k") auto
    ultimately show ?thesis by (intro exI [of _ j]) simp
  qed
qed

text \<open>The host bits the class of an address leaves.\<close>

definition class_bits :: "NID32 \<Rightarrow> nat" where
  "class_bits p = (if p AND 0x80000000 = 0 then 24 else if p AND 0xC0000000 = 0x80000000 then 16
     else if p AND 0xE0000000 = 0xC0000000 then 8 else 0)"

text \<open>C30. The mask of a static route. It is contiguous, covers all bits of the destination, leaves at most the host bits of
  the address's class, and no mask of that kind with more host bits covers the destination.\<close>

theorem static_route_mask:
  "\<exists>j \<le> class_bits p. getgenmask p = NOT (mask j) \<and> p AND getgenmask p = p \<and>
     (\<forall>i. j < i \<and> i \<le> class_bits p \<longrightarrow> p AND mask i \<noteq> 0)"
proof -
  have m: "NOT 0xFF000000 = (mask 24 :: u32)" "NOT 0xFFFF0000 = (mask 16 :: u32)" "NOT 0xFFFFFF00 = (mask 8 :: u32)" "(0 :: u32) = mask 0"
    by (simp_all add: mask_eq_exp_minus_1)
  have g: "getgenmask p = NOT (genmask_loop (mask (class_bits p)) p)"
    unfolding getgenmask_def class_bits_def Let_def m by (simp split: if_split)
  have "class_bits p \<le> 32" by (simp add: class_bits_def)
  from genmask_loop_mask [OF this, of p] obtain j where j: "j \<le> class_bits p" "genmask_loop (mask (class_bits p)) p = mask j"
      "p AND mask j = 0" "\<forall>i. j < i \<and> i \<le> class_bits p \<longrightarrow> p AND mask i \<noteq> 0" by auto
  have "p = (p AND mask j) OR (p AND NOT (mask j))" by (simp flip: bit.conj_disj_distrib)
  then have "p AND NOT (mask j) = p" using j(3) by simp
  then show ?thesis using j g by (intro exI [of _ j]) simp
qed

section \<open>Files that read back\<close>

lemma length_encode_iface [simp]: "iface_ok i \<Longrightarrow> length (di_version i) = 11 \<Longrightarrow> length (encode_iface i) = iface_len"
  by (simp add: encode_iface_def iface_ok_def)

lemma decode_encode_iface:
  assumes "iface_ok i" "length (di_version i) = 11"
  shows "decode_iface (encode_iface i) = i"
proof -
  have c: "unat (of_nat (di_class_len i) :: u32) = di_class_len i" "unat (of_nat (di_client_len i) :: u32) = di_client_len i"
    using assms by (simp_all add: iface_ok_def unat_of_nat)
  show ?thesis using assms c
    by (simp add: decode_iface_def encode_iface_def iface_ok_def be_word_be_bytes le32_word_le32_bytes)
qed

text \<open>What \<open>dhcpConfig\<close> writes to the cache is read back on the next start.\<close>

lemma cache_read_back:
  assumes "iface_ok (dc_iface s)"
  shows "\<exists>s'. readDhcpCache (t\<lparr>dp_cache := dp_cache (write_cache s)\<rparr>) = (0, s') \<and> dc_iface s' = dc_iface (write_cache s) \<and>
    dp_prev_ip s' = di_ciaddr (dc_iface s)"
proof -
  let ?i = "(dc_iface s)\<lparr>di_version := bytes_of VERSION @ [0]\<rparr>"
  have ok: "iface_ok ?i" "length (di_version ?i) = 11" using assms by (simp_all add: iface_ok_def)
  have len: "length (encode_iface ?i) = iface_len" by (rule length_encode_iface [OF ok])
  show ?thesis
  proof (cases "length (encode_iface (dc_iface t)) \<le> iface_len")
    case True
    then show ?thesis using len decode_encode_iface [OF ok]
      by (simp add: readDhcpCache_def write_cache_def Let_def overlay_def)
  next
    case False
    have "decode_iface (encode_iface ?i @ zs) = decode_iface (encode_iface ?i)" for zs
      using len by (simp add: decode_iface_def)
    then show ?thesis using len decode_encode_iface [OF ok]
      by (simp add: readDhcpCache_def write_cache_def Let_def overlay_def)
  qed
qed

text \<open>The list of servers in a value of whole addresses, and the resolver's file.\<close>

lemma quads_enc: "quads (4 * length ws) (concat (map (be_bytes 4) ws) @ z) = Some ws"
proof (induction ws)
  case Nil
  then show ?case by (cases "(0 :: nat, z)" rule: quads.cases) auto
next
  case (Cons w ws)
  obtain a b c d where w: "nid32_bytes w = [a, b, c, d]" using nid32_bytes4 by blast
  then have "be_word [a, b, c, d] = w" using be_word_be_bytes [of 4 w] by simp
  then show ?case using Cons w by simp
qed

lemma resolv_text_spec:
  assumes "do_val opts dnsOption = Some (concat (map (be_bytes 4) ws) @ z)" "do_len opts dnsOption = of_nat (4 * length ws)"
    "length ws < 64" "do_len opts domainName = 0"
  shows "resolv_text opts = Some (concat (map (\<lambda>w. ''nameserver '' @ inet_ntop4 w @ nl) ws))"
proof -
  have "unat (of_nat (4 * length ws) :: byte) = 4 * length ws" using assms(3)
    by (simp add: unat_of_nat del: of_nat_mult)
  then have "opt_quads dnsOption opts = Some ws"
    using assms(1,2) quads_enc [of ws z] by (cases "ws = []") (auto simp: opt_quads_def)
  then show ?thesis using assms(4) by (simp add: resolv_text_def)
qed

lemma restore_replace: "cf_text f = Some old \<Longrightarrow> cf_text (restore_file (replace_file str f)) = Some old"
  by (simp add: restore_file_def replace_file_def)

text \<open>A list whose length is no multiple of four is read past the end of its value.\<close>

lemma quads_None: "n mod 4 \<noteq> 0 \<Longrightarrow> length bs < 4 * (n div 4 + 1) \<Longrightarrow> quads n bs = None"
proof (induction n bs rule: quads.induct)
  case (1 n a b c d bs)
  show ?case
  proof (cases "n < 4")
    case True
    then show ?thesis using 1 by (simp add: div_less)
  next
    case False
    then have "(n - 4) mod 4 \<noteq> 0" "(n - 4) div 4 = n div 4 - 1" "0 < n div 4"
      using 1(2) by (simp_all add: le_mod_geq le_div_geq)
    then show ?thesis using 1 False by simp
  qed
qed auto

end
