(* ===== verification/DHCP_Protocol.thy ===== *)
theory DHCP_Protocol
  imports DHCP_Config
begin

text \<open>
  The protocol of the DHCP client, \<open>src/src/dhcpcd-1.3.22-pl4/client.c\<close>, with \<open>signals.c\<close> and the loop of \<open>dhcpcd.c\<close>: the exchange of a
  request for an answer, and the functions that are the client's states, each of which gives the next one.

  A state function runs with an environment: what happens on the packet socket while it waits (a list of events, see
  \<open>DHCP_Link\<close>), the clock, the random numbers, the hardware address, the kernel's answers. A list of events that ends before the
  exchange does stands for the alarm that interrupts it, where one is set, and for waiting on where none is.
  The functions compiled only with \<open>ARPCHECK\<close>, \<open>dhcpDecline\<close> and \<open>arpCheck\<close>, are not called. System calls of the start that fail end the process.
  The checks of the link layer and the debug output are left out; the pid file is in \<open>DHCP_Command\<close>.
\<close>

section \<open>Environment and state\<close>

record client_env =
  ev_events :: "link_event list"
  ev_more :: "link_event list"
  ev_clk :: "nat \<Rightarrow> timeval"
  ev_now :: "nat \<Rightarrow> int"
  ev_rnd :: "nat \<Rightarrow> nat"
  ev_xid :: u32
  ev_hw :: "nat \<Rightarrow> byte list"
  ev_token :: bool
  ev_uname :: string
  ev_ifaddr :: "NID32 option"
  ev_config :: config_env

text \<open>\<open>pr_alarm\<close>: an alarm is pending; \<open>pr_daemon\<close>: the client has forked after the first lease.\<close>

record dhcp_main = dhcp_proc +
  pr_alarm :: bool
  pr_daemon :: bool

abbreviation DHCP_INITIAL_RTO :: int where "DHCP_INITIAL_RTO \<equiv> 4 * 1000000"
abbreviation DHCP_MAX_RTO :: int where "DHCP_MAX_RTO \<equiv> 64 * 1000000"
abbreviation SIGHUP :: int where "SIGHUP \<equiv> 1"
abbreviation SIGALRM :: int where "SIGALRM \<equiv> 14"
abbreviation SIGCHLD :: int where "SIGCHLD \<equiv> 17"
abbreviation recv_len :: nat where "recv_len \<equiv> 1554"

section \<open>Time\<close>

text \<open>
  \<open>x - y\<close>; the second component is the difference, the third what \<open>y\<close> becomes, the first whether the difference is negative.
  Microseconds are below a million, so C's division is that of the natural numbers.
\<close>

definition timeval_subtract :: "timeval \<Rightarrow> timeval \<Rightarrow> bool \<times> timeval \<times> timeval" where
  "timeval_subtract x y =
     (let y = (if tv_usec x < tv_usec y
          then (let nsec = (tv_usec y - tv_usec x) div 1000000 + 1 in \<lparr>tv_sec = tv_sec y + nsec, tv_usec = tv_usec y - 1000000 * nsec\<rparr>)
          else y);
          y = (if tv_usec x - tv_usec y > 1000000
          then (let nsec = (tv_usec x - tv_usec y) div 1000000 in \<lparr>tv_sec = tv_sec y - nsec, tv_usec = tv_usec y + 1000000 * nsec\<rparr>)
          else y) in
      (tv_sec x < tv_sec y, \<lparr>tv_sec = tv_sec x - tv_sec y, tv_usec = tv_usec x - tv_usec y\<rparr>, y))"

text \<open>Seconds left as the \<open>int\<close> they are put into.\<close>

definition int32 :: "int \<Rightarrow> int" where
  "int32 i = sint (word_of_int i :: 32 word)"

section \<open>The exchange\<close>

text \<open>Where the IP header starts: the first even offset with the bytes of a header without options, else 0.\<close>

definition ip_offset :: "byte list \<Rightarrow> nat" where
  "ip_offset b = (case filter (\<lambda>i. b ! i = 0x45 \<and> b ! (i + 1) = 0) [0, 2, 4, 6, 8, 10, 12, 14, 16] of [] \<Rightarrow> 0 | i # _ \<Rightarrow> i)"

text \<open>
  The message that starts at \<open>moff\<close> of the receive buffer: it is passed over, or parsed; then the result is the message type.
\<close>

definition recv_message :: "dhcp_args \<Rightarrow> u32 \<Rightarrow> nat \<Rightarrow> 'a dhcp_client_scheme \<Rightarrow> (byte option \<times> 'a dhcp_client_scheme) run" where
  "recv_message a xid moff s = do {
     let m = decode_dhcp (drop moff (dc_recv s));
     let s = s\<lparr>dc_off := moff\<rparr>;
     if dm_xid m \<noteq> xid \<or> (dm_htype m \<noteq> of_nat ARPHRD_ETHER \<and> dm_htype m \<noteq> of_nat ARPHRD_IEEE802_TR) \<or> dm_op m \<noteq> DHCP_BOOTREPLY
     then Some (None, s)
     else do {
       (t, s) \<leftarrow> parseDhcpMsgRecv (da_LeaseTime a) (be_word (take 4 (drop (14 + 28 + 12) (dc_send s))))
                   (be_word (take 4 (drop (14 + 12) (dc_recv s)))) (dm_yiaddr m) (drop (moff + 236) (dc_recv s)) s;
       Some (Some t, s\<lparr>dc_recv := put_at (moff + 16) (nid32_bytes (dc_yiaddr s)) (dc_recv s)\<rparr>)
     }
   }"

text \<open>
  A frame of \<open>len\<close> bytes stands in the receive buffer, as an Ethernet frame. First the tests of its headers: an IP datagram, of UDP, on a
  token ring to the client's port, no longer than the frame and with room for what the UDP header says.
\<close>

definition recv_wanted :: "bool \<Rightarrow> nat \<Rightarrow> byte list \<Rightarrow> byte list \<Rightarrow> bool" where
  "recv_wanted token len buf ip \<longleftrightarrow>
     (let hl = 4 * (unat (ip ! 0) mod 16);
          ip_len = unat (be_word (take 2 (drop 2 ip)) :: u16);
          ulen = unat (be_word (take 2 (drop 24 ip)) :: u16) in
      take 2 (drop 12 buf) = net16 ETHERTYPE_IP \<and> ip ! 9 = IPPROTO_UDP8 \<and>
      (token \<longrightarrow> take 2 (drop 22 ip) = net16 DHCP_CLIENT_PORT) \<and> 14 + ip_len \<le> len \<and> hl + ulen \<le> ip_len)"

definition recv_check :: "dhcp_args \<Rightarrow> u32 \<Rightarrow> nat \<Rightarrow> 'a dhcp_client_scheme \<Rightarrow> (byte option \<times> 'a dhcp_client_scheme) run" where
  "recv_check a xid len s = do {
     let buf = dc_recv s;
     let off = 14 + ip_offset (drop 14 buf);
     let ip = drop off buf;
     let hl = 4 * (unat (ip ! 0) mod 16);
     if \<not> recv_wanted (dc_token s) len buf ip then Some (None, s)
     else do {
       (c, ip) \<leftarrow> (if da_DoCheckSum a then udpipchk ip else Some (0, ip));
       let s = s\<lparr>dc_recv := take off buf @ ip\<rparr>;
       if c \<noteq> 0 then Some (None, s) else recv_message a xid (off + hl + 8) s
     }
   }"

text \<open>The variables of \<open>dhcpSendAndRecv\<close>: the interval \<open>j\<close>, \<open>begin\<close>, \<open>timeout\<close>, and how often the clock was read.\<close>

record send_loop =
  lo_j :: int
  lo_begin :: timeval
  lo_timeout :: int
  lo_n :: nat

text \<open>Building and sending, at the head of both loops.\<close>

definition dhcp_transmit :: "client_env \<Rightarrow> (u32 \<Rightarrow> 'a dhcp_client_scheme \<Rightarrow> 'a dhcp_client_scheme run) \<Rightarrow> u32 \<Rightarrow>
    send_loop \<Rightarrow> 'a dhcp_client_scheme \<Rightarrow> (send_loop \<times> 'a dhcp_client_scheme) run" where
  "dhcp_transmit env build xid l s = do {
     s \<leftarrow> build xid s;
     (f, n) \<leftarrow> (if dc_token s then eth2tr (dc_send s) (28 + dhcp_msg_len) else Some (dc_send s, 14 + 28 + dhcp_msg_len));
     Some (l\<lparr>lo_j := (if DHCP_MAX_RTO < 2 * lo_j l then DHCP_MAX_RTO else 2 * lo_j l), lo_begin := ev_clk env (lo_n l), lo_n := lo_n l + 1\<rparr>,
       s\<lparr>dc_send := f, dc_net := dc_net s @ [take n f]\<rparr>)
   }"

text \<open>
  A frame is received, turned into an Ethernet frame on a token ring, the time left is computed, the frame checked. A
  frame the conversion refuses leaves the time as it was.
\<close>

definition dhcp_receive :: "client_env \<Rightarrow> dhcp_args \<Rightarrow> u32 \<Rightarrow> byte list \<Rightarrow> send_loop \<Rightarrow> 'a dhcp_client_scheme \<Rightarrow>
    (byte option \<times> send_loop \<times> 'a dhcp_client_scheme) run" where
  "dhcp_receive env a xid frame l s = do {
     let buf = overlay (take recv_len frame) (replicate recv_len 0);
     (r, buf) \<leftarrow> (if dc_token s then tr2eth buf else Some (0, buf));
     let s = s\<lparr>dc_recv := buf\<rparr>;
     if r \<noteq> 0 then Some (None, l, s)
     else do {
       let (_, diff, begin') = timeval_subtract (ev_clk env (lo_n l)) (lo_begin l);
       let l = l\<lparr>lo_begin := begin', lo_n := lo_n l + 1,
         lo_timeout := lo_j l - tv_sec diff * 1000000 - tv_usec diff + int (ev_rnd env (lo_n l) mod 200000)\<rparr>;
       (t, s) \<leftarrow> recv_check a xid (min (length frame) recv_len) s;
       Some (t, l, s)
     }
   }"

text \<open>
  How an exchange ends: with the message waited for, with a refusal (1), with a failing socket (-1); or it is interrupted.
\<close>

datatype exchange = Done int | Waiting

fun dhcp_listen :: "client_env \<Rightarrow> dhcp_args \<Rightarrow> (u32 \<Rightarrow> 'a dhcp_client_scheme \<Rightarrow> 'a dhcp_client_scheme run) \<Rightarrow> u32 \<Rightarrow> byte \<Rightarrow>
    send_loop \<Rightarrow> link_event list \<Rightarrow> 'a dhcp_client_scheme \<Rightarrow> (exchange \<times> 'a dhcp_client_scheme) run" where
  "dhcp_listen env a build xid msg l [] s = Some (Waiting, s)"
| "dhcp_listen env a build xid msg l (Quiet # es) s = do {
     (l, s) \<leftarrow> dhcp_transmit env build xid l s;
     dhcp_listen env a build xid msg l es s
   }"
| "dhcp_listen env a build xid msg l (RecvFails # es) s = Some (Done (- 1), s)"
| "dhcp_listen env a build xid msg l (Arrives frame # es) s = do {
     (t, l, s) \<leftarrow> dhcp_receive env a xid frame l s;
     if t = Some msg then Some (Done 0, s)
     else if t = Some DHCP_NAK then Some (Done 1, s)
     else if 0 < lo_timeout l then dhcp_listen env a build xid msg l es s
     else do {
       (l, s) \<leftarrow> dhcp_transmit env build xid l s;
       dhcp_listen env a build xid msg l es s
     }
   }"

definition dhcpSendAndRecv :: "client_env \<Rightarrow> dhcp_args \<Rightarrow> link_event list \<Rightarrow> u32 \<Rightarrow> byte \<Rightarrow>
    (u32 \<Rightarrow> 'a dhcp_client_scheme \<Rightarrow> 'a dhcp_client_scheme run) \<Rightarrow> 'a dhcp_client_scheme \<Rightarrow> (exchange \<times> 'a dhcp_client_scheme) run" where
  "dhcpSendAndRecv env a es xid msg build s = do {
     (l, s) \<leftarrow> dhcp_transmit env build xid \<lparr>lo_j = DHCP_INITIAL_RTO div 2, lo_begin = \<lparr>tv_sec = 0, tv_usec = 0\<rparr>, lo_timeout = 0, lo_n = 0\<rparr> s;
     dhcp_listen env a build xid msg l es s
   }"

section \<open>The states\<close>

text \<open>
  The functions \<open>currState\<close> points to; \<open>Null\<close> is the null pointer, \<open>Ended\<close> the end of the process, \<open>Waits\<close> an exchange
  that goes on waiting.
\<close>

datatype state_fun = Reboot | Init | Bound | Renew | Rebind | Stop | Start | Inform

datatype state_next = Goto state_fun | Null | Ended int | Waits

definition zero_iface :: dhcp_iface where
  "zero_iface = \<lparr>di_version = replicate 11 0, di_ciaddr = 0, di_siaddr = 0, di_class_len = 0, di_client_len = 0, di_xid = 0,
     di_shaddr = replicate 6 0, di_class_id = replicate CLASS_ID_MAX_LEN 0, di_client_id = replicate CLIENT_ID_MAX_LEN 0\<rparr>"

definition recv_msg :: "'a dhcp_client_scheme \<Rightarrow> dhcpMessage" where
  "recv_msg s = decode_dhcp (drop (dc_off s) (dc_recv s))"

text \<open>The address of the card is asked for up to three times while it is zero; the packet identifier starts from it and the time.\<close>

definition start_hw :: "(nat \<Rightarrow> byte list) \<Rightarrow> byte list" where
  "start_hw hw = (if hw 0 \<noteq> replicate ETH_ALEN 0 then hw 0 else if hw 1 \<noteq> replicate ETH_ALEN 0 then hw 1 else hw 2)"

definition start_id :: "int \<Rightarrow> byte list \<Rightarrow> u16" where
  "start_id now h = of_int (now + uint (h ! 5) + 4 * uint (h ! 4) + 8 * uint (h ! 3) + 16 * uint (h ! 2) + 32 * uint (h ! 1) + 64 * uint (h ! 0))"

definition dhcpStart :: "client_env \<Rightarrow> 'a dhcp_client_scheme \<Rightarrow> 'a dhcp_client_scheme" where
  "dhcpStart env s =
     (let h = start_hw (ev_hw env) in
      s\<lparr>dc_token := (if ev_token env then True else dc_token s), dc_hw := h, dc_ip_id := start_id (ev_now env 0) h\<rparr>)"

definition dhcpStop :: "dhcp_args \<Rightarrow> 'a dhcp_proc_scheme \<Rightarrow> 'a dhcp_proc_scheme" where
  "dhcpStop a s =
     (let s = s\<lparr>dc_opts := releaseDhcpOptions (dc_opts s)\<rparr>;
          s = (if da_TestCase a then s else s\<lparr>dp_addr := 0\<rparr>) in
      s\<lparr>dp_resolv := restore_file (dp_resolv s), dp_nis := restore_file (dp_nis s), dp_ntp := restore_file (dp_ntp s),
        dp_hooks := dp_hooks s @ [''down'']\<rparr>)"

text \<open>The server's identifier and card, for the messages sent to it later.\<close>

definition note_server :: "'a dhcp_client_scheme \<Rightarrow> 'a dhcp_client_scheme run" where
  "note_server s = do {
     sid \<leftarrow> word_at (do_val (dc_opts s) dhcpServerIdentifier);
     Some (s\<lparr>dc_iface := (dc_iface s)\<lparr>di_siaddr := sid, di_shaddr := take 6 (drop 6 (dc_recv s))\<rparr>\<rparr>)
   }"

definition dhcpRequest :: "client_env \<Rightarrow> dhcp_args \<Rightarrow> link_event list \<Rightarrow> u32 \<Rightarrow>
    (u32 \<Rightarrow> 'a dhcp_proc_scheme \<Rightarrow> 'a dhcp_proc_scheme run) \<Rightarrow> 'a dhcp_proc_scheme \<Rightarrow> (state_next \<times> 'a dhcp_proc_scheme) run" where
  "dhcpRequest env a es xid build s = do {
     (r, s) \<leftarrow> dhcpSendAndRecv env a es xid DHCP_ACK build s;
     if r = Waiting then Some (Waits, s)
     else if r \<noteq> Done 0 then Some (Goto Init, s)
     else do {
       (o', s) \<leftarrow> dhcpConfig (ev_config env) a (s\<lparr>dp_ReqSentTime := ev_now env 1\<rparr>);
       case o' of
         Exits c \<Rightarrow> Some (Ended c, s)
       | Returns c \<Rightarrow>
           if c \<noteq> 0 then Some (Null, dhcpStop a s)
           else do { s \<leftarrow> note_server s; Some (Goto Bound, s) }
     }
   }"

definition dhcpReboot :: "client_env \<Rightarrow> dhcp_args \<Rightarrow> 'a dhcp_proc_scheme \<Rightarrow> (state_next \<times> 'a dhcp_proc_scheme) run" where
  "dhcpReboot env a s = do {
     let s = (dhcpStart env s)\<lparr>dc_opts := \<lparr>do_num = 0, do_len = (\<lambda>_. 0), do_val = (\<lambda>_. None)\<rparr>, dc_iface := zero_iface\<rparr>;
     let (c, s) = readDhcpCache s;
     if c \<noteq> 0 then do {
       let s = s\<lparr>dc_iface := (case ev_ifaddr env of Some ip \<Rightarrow> zero_iface\<lparr>di_ciaddr := ip\<rparr> | None \<Rightarrow> zero_iface)\<rparr>;
       s \<leftarrow> classclientsetup (ev_uname env) a s;
       Some (Goto Init, s)
     }
     else do {
       s \<leftarrow> classclientsetup (ev_uname env) a s;
       dhcpRequest env a (ev_events env) (ev_xid env) (buildDhcpReboot a) s
     }
   }"

text \<open>
  After the first answer a second \<open>DHCPDISCOVER\<close> may be sent, with the events \<open>ev_more\<close>; how it ends is ignored unless it is still
  waiting. The request has events of its own.
\<close>

definition take_offer :: "'a dhcp_proc_scheme \<Rightarrow> 'a dhcp_proc_scheme run" where
  "take_offer s = do {
     let m = recv_msg s;
     let s = s\<lparr>dp_prev_ip := di_ciaddr (dc_iface s), dc_iface := (dc_iface s)\<lparr>di_ciaddr := dm_yiaddr m\<rparr>\<rparr>;
     s \<leftarrow> note_server s;
     Some (s\<lparr>dc_iface := (dc_iface s)\<lparr>di_xid := dm_xid m\<rparr>\<rparr>)
   }"

definition dhcpInit :: "client_env \<Rightarrow> dhcp_args \<Rightarrow> link_event list \<Rightarrow> 'a dhcp_proc_scheme \<Rightarrow> (state_next \<times> 'a dhcp_proc_scheme) run" where
  "dhcpInit env a ack s = do {
     (r, s) \<leftarrow> dhcpSendAndRecv env a (ev_events env) (ev_xid env) DHCP_OFFER (buildDhcpDiscover a) (s\<lparr>dc_opts := releaseDhcpOptions (dc_opts s)\<rparr>);
     if r = Waiting then Some (Waits, s)
     else if r \<noteq> Done 0 then Some (Null, dhcpStop a s)
     else do {
       (r, s) \<leftarrow> (if da_SendSecondDiscover a
          then dhcpSendAndRecv env a (ev_more env) (dm_xid (recv_msg s)) DHCP_OFFER (buildDhcpDiscover a) s else Some (Done 0, s));
       if r = Waiting then Some (Waits, s)
       else do {
         s \<leftarrow> take_offer s;
         dhcpRequest env a ack (di_xid (dc_iface s)) (buildDhcpRequest a) s
       }
     }
   }"

text \<open>Seconds until a timer, counted from when the lease was answered.\<close>

definition timer_left :: "client_env \<Rightarrow> byte \<Rightarrow> 'a dhcp_proc_scheme \<Rightarrow> int run" where
  "timer_left env c s = do {
     t \<leftarrow> word_at (do_val (dc_opts s) c);
     Some (int32 (dp_ReqSentTime s + uint t - ev_now env 0))
   }"

definition dhcpBound :: "client_env \<Rightarrow> 'a dhcp_main_scheme \<Rightarrow> (state_next \<times> 'a dhcp_main_scheme) run" where
  "dhcpBound env s = do {
     i \<leftarrow> timer_left env dhcpT1value s;
     Some (Goto Renew, if 0 < i then s\<lparr>pr_alarm := False\<rparr> else s)
   }"

definition dhcpRenew :: "client_env \<Rightarrow> dhcp_args \<Rightarrow> 'a dhcp_main_scheme \<Rightarrow> (state_next \<times> 'a dhcp_main_scheme) run" where
  "dhcpRenew env a s = do {
     i \<leftarrow> timer_left env dhcpT2value s;
     if i \<le> 0 then Some (Goto Rebind, s)
     else do {
       (r, s) \<leftarrow> dhcpSendAndRecv env a (ev_events env) (ev_xid env) DHCP_ACK (buildDhcpRenew a) (s\<lparr>pr_alarm := True\<rparr>);
       if r = Waiting then Some (Goto Rebind, s\<lparr>pr_alarm := False\<rparr>)
       else if r \<noteq> Done 0 then Some (Goto Rebind, s)
       else Some (Goto Bound, s\<lparr>dp_ReqSentTime := ev_now env 1\<rparr>)
     }
   }"

definition dhcpRebind :: "client_env \<Rightarrow> dhcp_args \<Rightarrow> 'a dhcp_main_scheme \<Rightarrow> (state_next \<times> 'a dhcp_main_scheme) run" where
  "dhcpRebind env a s = do {
     i \<leftarrow> timer_left env dhcpIPaddrLeaseTime s;
     if i \<le> 0 then Some (Goto Stop, s)
     else do {
       (r, s) \<leftarrow> dhcpSendAndRecv env a (ev_events env) (ev_xid env) DHCP_ACK (buildDhcpRebind a) (s\<lparr>pr_alarm := True\<rparr>);
       if r = Waiting then Some (Goto Stop, s\<lparr>pr_alarm := False\<rparr>)
       else if r \<noteq> Done 0 then Some (Goto Stop, s)
       else do {
         s \<leftarrow> note_server (s\<lparr>dp_ReqSentTime := ev_now env 1\<rparr>);
         Some (Goto Bound, s)
       }
     }
   }"

text \<open>
  The release goes out as an Ethernet frame, on a token ring too. The names are not restored: \<open>client.c\<close> declares the arrays of
  \<open>dhcpconfig.c\<close> they are kept in as pointers, so the system call gets an address made of the letters of the name, where nothing can
  be read, and fails; only an empty name needs no reading.
\<close>

definition dhcpRelease :: "client_env \<Rightarrow> dhcp_args \<Rightarrow> 'a dhcp_proc_scheme \<Rightarrow> 'a dhcp_proc_scheme run" where
  "dhcpRelease env a s = do {
     let s = deleteDhcpCache s;
     if di_ciaddr (dc_iface s) = 0 then Some s
     else do {
       s \<leftarrow> buildDhcpRelease a (ev_xid env) s;
       s \<leftarrow> arpRelease (s\<lparr>dc_net := dc_net s @ [take (14 + 28 + dhcp_msg_len) (dc_send s)]\<rparr>);
       let s = (if da_SetHostName a \<and> dp_InitialHostName s = Some [] then s\<lparr>dp_hostname := []\<rparr> else s);
       let s = (if da_SetDomainName a \<and> dp_InitialDomainName s = Some [] then s\<lparr>dp_domainname := []\<rparr> else s);
       Some (s\<lparr>dc_iface := (dc_iface s)\<lparr>di_ciaddr := 0\<rparr>\<rparr>)
     }
   }"

text \<open>
  \<open>dhcpDecline\<close>, compiled only with \<open>ARPCHECK\<close>: the headers are generated a second time, for a broadcast; the frame still goes to the
  server's card, since the builder clears the buffer.
\<close>

definition dhcpDecline :: "client_env \<Rightarrow> dhcp_args \<Rightarrow> 'a dhcp_client_scheme \<Rightarrow> 'a dhcp_client_scheme run" where
  "dhcpDecline env a s = do {
     s \<leftarrow> buildDhcpDecline a (ev_xid env) s;
     (udpip, ip_id) \<leftarrow> udpipgen (take IPPACKET_SIZE (drop 14 (dc_send s))) 0 INADDR_BROADCAST DHCP_CLIENT_PORT DHCP_SERVER_PORT
        (of_nat dhcp_msg_len) (dc_ip_id s);
     let f = take 14 (dc_send s) @ udpip @ drop (14 + IPPACKET_SIZE) (dc_send s);
     Some (s\<lparr>dc_send := f, dc_ip_id := ip_id, dc_net := dc_net s @ [take (14 + 28 + dhcp_msg_len) f]\<rparr>)
   }"

text \<open>\<open>dhcpInform\<close> asks for the values that go with an address and ends the process when it has them.\<close>

definition inform_address :: "client_env \<Rightarrow> 'a dhcp_proc_scheme \<Rightarrow> 'a dhcp_proc_scheme option" where
  "inform_address env s =
     (if dc_inform s \<noteq> 0 then Some s
      else
        (let s = (case ev_ifaddr env of Some ip \<Rightarrow> s\<lparr>dc_inform := ip\<rparr> | None \<Rightarrow> s) in
         if dc_inform s \<noteq> 0 then Some s
         else
           (let (c, s) = readDhcpCache s in
            if c \<noteq> 0 then None else Some (s\<lparr>dc_inform := di_ciaddr (dc_iface s)\<rparr>))))"

definition inform_ids :: "client_env \<Rightarrow> dhcp_args \<Rightarrow> 'a dhcp_proc_scheme \<Rightarrow> 'a dhcp_proc_scheme run" where
  "inform_ids env a s = do {
     i \<leftarrow> (if di_class_len (dc_iface s) \<noteq> 0 then Some (dc_iface s)
        else case da_ClassID a of
            Some c \<Rightarrow> (if length c \<le> length (di_class_id (dc_iface s))
               then Some ((dc_iface s)\<lparr>di_class_id := overlay (bytes_of c) (di_class_id (dc_iface s)), di_class_len := length c\<rparr>) else None)
          | None \<Rightarrow> Some (classIDsetup (ev_uname env) (dc_iface s)));
     i \<leftarrow> (if di_client_len i \<noteq> 0 then Some i else clientIDsetup a (s\<lparr>dc_iface := i\<rparr>));
     Some (s\<lparr>dc_iface := i\<rparr>)
   }"

definition dhcpInform :: "client_env \<Rightarrow> dhcp_args \<Rightarrow> 'a dhcp_proc_scheme \<Rightarrow> (state_next \<times> 'a dhcp_proc_scheme) run" where
  "dhcpInform env a s = do {
     let s = (dhcpStart env s)\<lparr>dc_opts := \<lparr>do_num = 0, do_len = (\<lambda>_. 0), do_val = (\<lambda>_. None)\<rparr>, dc_iface := zero_iface\<rparr>;
     case inform_address env s of
       None \<Rightarrow> Some (Null, s)
     | Some s \<Rightarrow> do {
         s \<leftarrow> inform_ids env a (s\<lparr>dc_iface := (dc_iface s)\<lparr>di_ciaddr := dc_inform s\<rparr>\<rparr>);
         (r, s) \<leftarrow> dhcpSendAndRecv env a (ev_events env) (ev_xid env) DHCP_ACK (buildDhcpInform a) s;
         if r = Waiting then Some (Waits, s)
         else if r \<noteq> Done 0 then Some (Null, s)
         else do {
           (o', s) \<leftarrow> dhcpConfig (ev_config env) a s;
           Some (case o' of Exits c \<Rightarrow> Ended c | Returns c \<Rightarrow> if c \<noteq> 0 then Null else Ended 0, s)
         }
       }
   }"

section \<open>Signals and the main loop\<close>

text \<open>
  \<open>sigHandler\<close>: the alarm jumps back into the functions that set it, to their next state; in any other state, and on any other
  signal but that of a child, the client stops and ends.
\<close>

definition sigHandler :: "client_env \<Rightarrow> dhcp_args \<Rightarrow> int \<Rightarrow> state_fun \<Rightarrow> 'a dhcp_main_scheme \<Rightarrow> (state_next \<times> 'a dhcp_main_scheme) run" where
  "sigHandler env a sig f s =
     (if sig = SIGCHLD then Some (Waits, s)
      else if sig = SIGALRM \<and> f = Bound then Some (Goto Renew, s\<lparr>pr_alarm := False\<rparr>)
      else if sig = SIGALRM \<and> f = Renew then Some (Goto Rebind, s\<lparr>pr_alarm := False\<rparr>)
      else if sig = SIGALRM \<and> f = Rebind then Some (Goto Stop, s\<lparr>pr_alarm := False\<rparr>)
      else if sig = SIGALRM \<and> f = Reboot then Some (Goto Init, s\<lparr>pr_alarm := True\<rparr>)
      else do {
        s \<leftarrow> (if sig = SIGHUP then dhcpRelease env a s else Some s);
        Some (Ended sig, dhcpStop a s)
      })"

text \<open>One round of the loop. An exchange that waits is interrupted by the alarm, if one is pending.\<close>

definition run_state :: "client_env \<Rightarrow> dhcp_args \<Rightarrow> link_event list \<Rightarrow> state_fun \<Rightarrow> 'a dhcp_main_scheme \<Rightarrow> (state_next \<times> 'a dhcp_main_scheme) run" where
  "run_state env a ack f s =
     (case f of
        Reboot \<Rightarrow> dhcpReboot env a s
      | Init \<Rightarrow> dhcpInit env a ack s
      | Bound \<Rightarrow> dhcpBound env s
      | Renew \<Rightarrow> dhcpRenew env a s
      | Rebind \<Rightarrow> dhcpRebind env a s
      | Stop \<Rightarrow> Some (Goto Start, dhcpStop a s)
      | Start \<Rightarrow> Some (Goto Init, dhcpStart env s)
      | Inform \<Rightarrow> dhcpInform env a s)"

text \<open>On the first lease the alarm is cleared and the client forks. A null pointer ends it with the code 1.\<close>

definition client_round :: "client_env \<Rightarrow> dhcp_args \<Rightarrow> link_event list \<Rightarrow> state_fun \<Rightarrow> 'a dhcp_main_scheme \<Rightarrow> (state_next \<times> 'a dhcp_main_scheme) run" where
  "client_round env a ack f s = do {
     (n, s) \<leftarrow> run_state env a ack f s;
     (n, s) \<leftarrow> (if n = Waits \<and> pr_alarm s then sigHandler env a SIGALRM f s else Some (n, s));
     case n of
       Goto g \<Rightarrow> Some (n, if g = Bound \<and> \<not> pr_daemon s then s\<lparr>pr_alarm := False, pr_daemon := True\<rparr> else s)
     | Null \<Rightarrow> Some (Ended 1, s)
     | _ \<Rightarrow> Some (n, s)
   }"

section \<open>What an exchange leaves behind\<close>

text \<open>The timers can be read.\<close>

definition timers_ok :: "dhcp_options \<Rightarrow> bool" where
  "timers_ok opts \<longleftrightarrow> (\<forall>c \<in> {dhcpIPaddrLeaseTime, dhcpT1value, dhcpT2value}. \<exists>w. word_at (do_val opts c) = Some w)"

lemma timer_opt_word: "timer_opt c v opts = Some opts' \<Longrightarrow> \<exists>w. word_at (do_val opts' c) = Some w"
proof -
  assume t: "timer_opt c v opts = Some opts'"
  show ?thesis
  proof (cases "do_val opts c \<noteq> None \<and> do_len opts c = 4")
    case True
    then obtain u where u: "do_val opts c = Some u" by blast
    show ?thesis
    proof (cases "word_at (do_val opts c) = Some 0")
      case True
      then show ?thesis using t u \<open>do_val opts c \<noteq> None \<and> do_len opts c = 4\<close>
        by (auto simp: timer_opt_def bind_eq_Some_conv overlay_def)
    next
      case False
      then show ?thesis using t u \<open>do_val opts c \<noteq> None \<and> do_len opts c = 4\<close>
        by (auto simp: timer_opt_def bind_eq_Some_conv split: if_splits)
    qed
  next
    case False
    then show ?thesis using t by (auto simp: timer_opt_def opt_new_def)
  qed
qed

lemma timer_opt_other: "timer_opt c v opts = Some opts' \<Longrightarrow> c' \<noteq> c \<Longrightarrow> do_val opts' c' = do_val opts c'"
  by (auto simp: timer_opt_def opt_new_def bind_eq_Some_conv split: if_splits)

lemma fill_timers:
  assumes "fill_options lease ip_src yiaddr opts = Some opts'"
  shows "timers_ok opts'"
proof -
  obtain o4 o5 o6 v1 v2 where t: "timer_opt dhcpIPaddrLeaseTime (Some lease) o4 = Some o5" "timer_opt dhcpT1value v1 o5 = Some o6"
      "timer_opt dhcpT2value v2 o6 = Some opts'"
    using assms by (auto simp: fill_options_def bind_eq_Some_conv)
  show ?thesis
    using timer_opt_word [OF t(1)] timer_opt_word [OF t(2)] timer_opt_word [OF t(3)]
      timer_opt_other [OF t(2), of dhcpIPaddrLeaseTime] timer_opt_other [OF t(3), of dhcpIPaddrLeaseTime]
      timer_opt_other [OF t(3), of dhcpT1value]
    by (simp add: timers_ok_def)
qed

lemma parse_timers:
  assumes "parseDhcpMsgRecv lease ciaddr ip_src yiaddr buf s = Some (t, s')"
  shows "timers_ok (dc_opts s')" "dhcp_state.more s' = dhcp_state.more s"
proof -
  obtain o1 s1 o2 y where r: "notify_nidd (s\<lparr>dc_opts := o1, dc_yiaddr := yiaddr\<rparr>) = Some s1"
      "fill_options lease ip_src y (dc_opts s1) = Some o2" "s' = s1\<lparr>dc_opts := o2, dc_yiaddr := y\<rparr>"
    using assms by (auto simp: parseDhcpMsgRecv_def bind_eq_Some_conv Let_def)
  show "timers_ok (dc_opts s')" using fill_timers [OF r(2)] r(3) by simp
  show "dhcp_state.more s' = dhcp_state.more s"
    using r(1,3) by (auto simp: notify_nidd_def bind_eq_Some_conv Let_def split: if_splits)
qed

text \<open>What an exchange keeps: everything but the options, the last address, the text for the daemon, and the buffers.\<close>

definition same_client :: "'a dhcp_client_scheme \<Rightarrow> 'a dhcp_client_scheme \<Rightarrow> bool" where
  "same_client s s' \<longleftrightarrow> dc_iface s' = dc_iface s \<and> dc_hw s' = dc_hw s \<and> dc_token s' = dc_token s \<and> dc_inform s' = dc_inform s \<and>
     dhcp_client.more s' = dhcp_client.more s"

lemma same_client_refl [simp]: "same_client s s"
  by (simp add: same_client_def)

lemma same_client_trans: "same_client s t \<Longrightarrow> same_client t u \<Longrightarrow> same_client s u"
  by (simp add: same_client_def)

lemma same_client_updates [simp]:
  "same_client s (s'\<lparr>dc_opts := opts\<rparr>) = same_client s s'" "same_client s (s'\<lparr>dc_send := f\<rparr>) = same_client s s'"
  "same_client s (s'\<lparr>dc_ip_id := i\<rparr>) = same_client s s'" "same_client s (s'\<lparr>dc_recv := f\<rparr>) = same_client s s'"
  "same_client s (s'\<lparr>dc_off := n\<rparr>) = same_client s s'" "same_client s (s'\<lparr>dc_net := net\<rparr>) = same_client s s'"
  "same_client (s\<lparr>dc_opts := opts\<rparr>) s' = same_client s s'" "same_client (s\<lparr>dc_recv := f\<rparr>) s' = same_client s s'"
  "same_client (s\<lparr>dc_off := n\<rparr>) s' = same_client s s'"
  by (simp_all add: same_client_def)

lemma parse_same:
  "parseDhcpMsgRecv lease ciaddr ip_src yiaddr buf s = Some (t, s') \<Longrightarrow>
   same_client s s' \<and> dc_recv s' = dc_recv s \<and> dc_off s' = dc_off s \<and> dc_net s' = dc_net s"
  by (drule parse_timers(2)) (cases s; cases s'; simp add: same_client_def)

text \<open>What a builder changes.\<close>

definition only_builds :: "(u32 \<Rightarrow> 'a dhcp_client_scheme \<Rightarrow> 'a dhcp_client_scheme run) \<Rightarrow> bool" where
  "only_builds build \<longleftrightarrow> (\<forall>xid s s'. build xid s = Some s' \<longrightarrow> (\<exists>f i. s' = s\<lparr>dc_send := f, dc_ip_id := i\<rparr>))"

lemma send_frame_only: "send_frame dhost src dst m s = Some s' \<Longrightarrow> \<exists>f i. s' = s\<lparr>dc_send := f, dc_ip_id := i\<rparr>"
  by (auto simp: send_frame_def bind_eq_Some_conv)

lemma builders_only [simp]:
  "only_builds (buildDhcpDiscover a)" "only_builds (buildDhcpRequest a)" "only_builds (buildDhcpRenew a)"
  "only_builds (buildDhcpRebind a)" "only_builds (buildDhcpReboot a)" "only_builds (buildDhcpInform a)"
  by (auto simp: only_builds_def buildDhcpDiscover_def buildDhcpRequest_def buildDhcpRenew_def buildDhcpRebind_def
      buildDhcpReboot_def buildDhcpInform_def Let_def bind_eq_Some_conv dest!: send_frame_only)

lemma transmit_keeps:
  assumes "dhcp_transmit env build xid l s = Some (l', s')" "only_builds build"
  shows "same_client s s'" "dc_opts s' = dc_opts s" "dc_recv s' = dc_recv s"
proof -
  obtain y f n where y: "build xid s = Some y" "s' = y\<lparr>dc_send := f, dc_net := dc_net y @ [take n f]\<rparr>"
    using assms(1) by (auto simp: dhcp_transmit_def bind_eq_Some_conv)
  then obtain g i where "y = s\<lparr>dc_send := g, dc_ip_id := i\<rparr>" using assms(2) unfolding only_builds_def by blast
  then show "same_client s s'" "dc_opts s' = dc_opts s" "dc_recv s' = dc_recv s" using y(2) by simp_all
qed

lemma length_put_at: "k + length bs \<le> length buf \<Longrightarrow> length (put_at k bs buf) = length buf"
  by (simp add: put_at_def)

lemma udpipchk_length: "udpipchk udpip = Some (c, buf) \<Longrightarrow> length buf = length udpip"
  by (auto simp: udpipchk_def Let_def bind_eq_Some_conv length_put_at split: if_splits)

text \<open>A message passed over leaves the options; one that was parsed leaves timers that can be read.\<close>

definition kept_by :: "'a dhcp_client_scheme \<Rightarrow> byte option \<Rightarrow> 'a dhcp_client_scheme \<Rightarrow> bool" where
  "kept_by s t s' \<longleftrightarrow> same_client s s' \<and> length (dc_recv s') = recv_len \<and> (if t = None then dc_opts s' = dc_opts s else timers_ok (dc_opts s'))"

lemma kept_by_recv: "kept_by (s\<lparr>dc_recv := buf\<rparr>) t s' = kept_by s t s'"
  by (simp add: kept_by_def)

lemma recv_message_keeps:
  assumes run: "recv_message a xid moff s = Some (t, s')" and len: "length (dc_recv s) = recv_len" "moff + 20 \<le> recv_len"
  shows "kept_by s t s'"
proof (cases t)
  case None
  then show ?thesis using run len by (auto simp: recv_message_def kept_by_def Let_def bind_eq_Some_conv split: if_splits)
next
  case (Some c)
  then obtain lease ciaddr src y s1 where p: "parseDhcpMsgRecv lease ciaddr src y (drop (moff + 236) (dc_recv s)) (s\<lparr>dc_off := moff\<rparr>) = Some (c, s1)"
      "s' = s1\<lparr>dc_recv := put_at (moff + 16) (nid32_bytes (dc_yiaddr s1)) (dc_recv s1)\<rparr>"
    using run by (auto simp: recv_message_def Let_def bind_eq_Some_conv split: if_splits)
  show ?thesis using p(2) parse_same [OF p(1)] parse_timers(1) [OF p(1)] len Some by (simp add: kept_by_def length_put_at)
qed

lemma ip_offset_le: "ip_offset b \<le> 16"
proof -
  have "ip_offset b \<in> {0, 2, 4, 6, 8, 10, 12, 14, 16}"
    unfolding ip_offset_def
    by (rule list.split [THEN iffD2]) (use filter_is_subset [of "\<lambda>i. b ! i = 0x45 \<and> b ! (i + 1) = 0" "[0, 2, 4, 6, 8, 10, 12, 14, 16 :: nat]"] in auto)
  then show ?thesis by auto
qed

lemma bind_pair: "A \<bind> (\<lambda>(c, ip). B c ip) = Some r \<Longrightarrow> \<exists>c ip. A = Some (c, ip) \<and> B c ip = Some r"
  by (cases A) auto

lemma recv_check_keeps:
  assumes run: "recv_check a xid len s = Some (t, s')" and len: "length (dc_recv s) = recv_len"
  shows "kept_by s t s'"
proof -
  let ?buf = "dc_recv s"
  let ?off = "14 + ip_offset (drop 14 ?buf)"
  let ?hl = "4 * (unat (drop ?off ?buf ! 0) mod 16)"
  have off: "?off \<le> 30" using ip_offset_le [of "drop 14 ?buf"] by simp
  have "unat (drop ?off ?buf ! 0) mod 16 < 16" by simp
  then have hl: "?hl \<le> 60" by linarith
  have "(t = None \<and> s' = s) \<or> (\<exists>c ip. (if da_DoCheckSum a then udpipchk (drop ?off ?buf) else Some (0, drop ?off ?buf)) = Some (c, ip) \<and>
      (if c \<noteq> 0 then Some (None, s\<lparr>dc_recv := take ?off ?buf @ ip\<rparr>)
        else recv_message a xid (?off + ?hl + 8) (s\<lparr>dc_recv := take ?off ?buf @ ip\<rparr>)) = Some (t, s'))"
  proof (cases "recv_wanted (dc_token s) len ?buf (drop ?off ?buf)")
    case True
    show ?thesis
      by (rule disjI2, rule bind_pair) (use run in \<open>simp only: recv_check_def Let_def True if_False not_True_eq_False\<close>)
  next
    case False
    then show ?thesis using run by (simp add: recv_check_def Let_def)
  qed
  then consider "t = None" "s' = s" | c ip where "(if da_DoCheckSum a then udpipchk (drop ?off ?buf) else Some (0, drop ?off ?buf)) = Some (c, ip)"
      "(if c \<noteq> 0 then Some (None, s\<lparr>dc_recv := take ?off ?buf @ ip\<rparr>)
        else recv_message a xid (?off + ?hl + 8) (s\<lparr>dc_recv := take ?off ?buf @ ip\<rparr>)) = Some (t, s')" by blast
  then show ?thesis
  proof cases
    case 1
    then show ?thesis using len by (simp add: kept_by_def)
  next
    case 2
    have "length ip = length (drop ?off ?buf)" using 2(1) udpipchk_length by (auto split: if_splits)
    then have l: "length (take ?off ?buf @ ip) = recv_len" using len off by simp
    show ?thesis
    proof (cases "c = 0")
      case True
      then show ?thesis
        using 2(2) recv_message_keeps [of a xid "?off + ?hl + 8" "s\<lparr>dc_recv := take ?off ?buf @ ip\<rparr>" t s'] l off hl
        by (simp add: kept_by_recv)
    next
      case False
      then show ?thesis using 2(2) l by (auto simp: kept_by_def)
    qed
  qed
qed

lemma dhcp_receive_keeps:
  assumes "dhcp_receive env a xid frame l s = Some (t, l', s')"
  shows "kept_by s t s'"
proof -
  let ?buf = "overlay (take recv_len frame) (replicate recv_len 0)"
  have len: "length ?buf = recv_len" by (simp add: overlay_def)
  obtain r buf where b: "(if dc_token s then tr2eth ?buf else Some (0, ?buf)) = Some (r, buf)" "length buf = recv_len"
    using tr2eth_safe [OF len] len by (cases "dc_token s") auto
  show ?thesis
  proof (cases "r = 0")
    case True
    then obtain t' where "recv_check a xid (min (length frame) recv_len) (s\<lparr>dc_recv := buf\<rparr>) = Some (t', s')" "t = t'"
      using assms b(1) by (auto simp: dhcp_receive_def Let_def bind_eq_Some_conv timeval_subtract_def split: prod.splits)
    then show ?thesis using recv_check_keeps [of a xid _ "s\<lparr>dc_recv := buf\<rparr>" t s'] b(2) by (simp add: kept_by_recv)
  next
    case False
    then show ?thesis using assms b by (auto simp: dhcp_receive_def Let_def kept_by_def)
  qed
qed

text \<open>A whole exchange: the answer waited for leaves timers that can be read, and no exchange spoils them.\<close>

definition exchanged :: "'a dhcp_client_scheme \<Rightarrow> exchange \<Rightarrow> 'a dhcp_client_scheme \<Rightarrow> bool" where
  "exchanged s r s' \<longleftrightarrow> same_client s s' \<and> (timers_ok (dc_opts s) \<longrightarrow> timers_ok (dc_opts s')) \<and>
     (length (dc_recv s) = recv_len \<longrightarrow> length (dc_recv s') = recv_len) \<and>
     (r = Done 0 \<longrightarrow> timers_ok (dc_opts s') \<and> length (dc_recv s') = recv_len)"

lemma exchanged_after:
  "same_client s s1 \<Longrightarrow> timers_ok (dc_opts s) \<longrightarrow> timers_ok (dc_opts s1) \<Longrightarrow> length (dc_recv s) = recv_len \<longrightarrow> length (dc_recv s1) = recv_len \<Longrightarrow>
   exchanged s1 r s' \<Longrightarrow> exchanged s r s'"
  by (auto simp: exchanged_def intro: same_client_trans)

lemma dhcp_listen_keeps:
  "only_builds build \<Longrightarrow> dhcp_listen env a build xid msg l es s = Some (r, s') \<Longrightarrow> exchanged s r s'"
proof (induction env a build xid msg l es s rule: dhcp_listen.induct)
  case (1 env a build xid msg l s)
  then show ?case by (auto simp: exchanged_def)
next
  case (2 env a build xid msg l es s)
  then obtain l1 s1 where t: "dhcp_transmit env build xid l s = Some (l1, s1)" "dhcp_listen env a build xid msg l1 es s1 = Some (r, s')"
    by (auto simp: bind_eq_Some_conv)
  show ?case
    by (rule exchanged_after [OF transmit_keeps(1) [OF t(1) 2(2)] _ _ "2.IH" [OF t(1) refl 2(2) t(2)]])
      (simp_all add: transmit_keeps(2,3) [OF t(1) 2(2)])
next
  case (3 env a build xid msg l es s)
  then show ?case by (auto simp: exchanged_def)
next
  case (4 env a build xid msg l frame es s)
  then obtain t l1 s1 where t: "dhcp_receive env a xid frame l s = Some (t, l1, s1)"
      "(if t = Some msg then Some (Done 0, s1) else if t = Some DHCP_NAK then Some (Done 1, s1)
        else if 0 < lo_timeout l1 then dhcp_listen env a build xid msg l1 es s1
        else dhcp_transmit env build xid l1 s1 \<bind> (\<lambda>(l, s). dhcp_listen env a build xid msg l es s)) = Some (r, s')"
    by (auto simp: bind_eq_Some_conv)
  have k: "kept_by s t s1" by (rule dhcp_receive_keeps [OF t(1)])
  have k1: "same_client s s1" "timers_ok (dc_opts s) \<longrightarrow> timers_ok (dc_opts s1)" "length (dc_recv s) = recv_len \<longrightarrow> length (dc_recv s1) = recv_len"
    using k by (auto simp: kept_by_def split: if_splits)
  show ?case
  proof (cases "t = Some msg \<or> t = Some DHCP_NAK")
    case True
    then show ?thesis using t(2) k by (auto simp: exchanged_def kept_by_def split: if_splits)
  next
    case other: False
    show ?thesis
    proof (cases "0 < lo_timeout l1")
      case True
      then have "dhcp_listen env a build xid msg l1 es s1 = Some (r, s')" using t(2) other by auto
      from "4.IH"(1) [OF t(1) refl refl _ _ True 4(3) this] show ?thesis using other k1 exchanged_after by blast
    next
      case False
      then obtain l2 s2 where u: "dhcp_transmit env build xid l1 s1 = Some (l2, s2)" "dhcp_listen env a build xid msg l2 es s2 = Some (r, s')"
        using t(2) other by (auto simp: bind_eq_Some_conv split: if_splits)
      have e: "exchanged s2 r s'" using "4.IH"(2) [OF t(1) refl refl _ _ False u(1) refl 4(3) u(2)] other by blast
      have "exchanged s1 r s'"
        by (rule exchanged_after [OF transmit_keeps(1) [OF u(1) 4(3)] _ _ e]) (simp_all add: transmit_keeps(2,3) [OF u(1) 4(3)])
      then show ?thesis using k1 exchanged_after by blast
    qed
  qed
qed

lemma exchange_keeps:
  assumes b: "only_builds build" and run: "dhcpSendAndRecv env a es xid msg build s = Some (r, s')"
  shows "exchanged s r s'"
proof -
  obtain l0 l1 s1 where t: "dhcp_transmit env build xid l0 s = Some (l1, s1)" "dhcp_listen env a build xid msg l1 es s1 = Some (r, s')"
    using run by (auto simp: dhcpSendAndRecv_def bind_eq_Some_conv)
  show ?thesis
    by (rule exchanged_after [OF transmit_keeps(1) [OF t(1) b] _ _ dhcp_listen_keeps [OF b t(2)]]) (simp_all add: transmit_keeps(2,3) [OF t(1) b])
qed

section \<open>Declining an address\<close>

text \<open>What goes out is the builder's message behind new headers, which are sound and name the broadcast address.\<close>

lemma dhcpDecline_sends:
  assumes "iface_ok (dc_iface s)" "length (dc_hw s) = ETH_ALEN" "word_at (do_val (dc_opts s) dhcpServerIdentifier) = Some sid"
  shows "\<exists>s1 s2 f. buildDhcpDecline a (ev_xid env) s = Some s1 \<and> dhcpDecline env a s = Some s2 \<and> dc_net s2 = dc_net s @ [f] \<and>
    length f = 590 \<and> take 14 f = take 14 (dc_send s1) \<and> drop 42 f = drop 42 (take 590 (dc_send s1)) \<and>
    udpipchk (drop 14 f) = Some (0, drop 14 f) \<and> take 4 (drop 26 f) = nid32_bytes 0 \<and> take 4 (drop 30 f) = nid32_bytes INADDR_BROADCAST"
proof -
  obtain g dhost src dst m os where g: "frame_reads g dhost (dc_hw s) src dst m os" "length dhost = ETH_ALEN"
      "buildDhcpDecline a (ev_xid env) s = Some (s\<lparr>dc_send := g @ replicate 964 0, dc_ip_id := dc_ip_id s + 1\<rparr>)"
    using decline_sends [OF assms, of a "ev_xid env"] assms(1) by (auto simp: sends_def iface_ok_def)
  then obtain p where p: "g = dhost @ dc_hw s @ net16 ETHERTYPE_IP @ p" "length p = 28 + dhcp_msg_len" by (auto simp: frame_reads_def)
  have b: "28 + unat (of_nat dhcp_msg_len :: u16) \<le> length p" "unat (of_nat dhcp_msg_len :: u16) \<le> 65500" using p(2) by simp_all
  obtain h where h: "length h = 28" "take 4 (drop 12 h) = nid32_bytes 0" "take 4 (drop 16 h) = nid32_bytes INADDR_BROADCAST"
      "\<forall>rest. udpipgen (p @ rest) 0 INADDR_BROADCAST DHCP_CLIENT_PORT DHCP_SERVER_PORT (of_nat dhcp_msg_len) (dc_ip_id s + 1)
        = Some (h @ drop 28 p @ rest, dc_ip_id s + 1 + 1) \<and> udpipchk (h @ drop 28 p @ rest) = Some (0, h @ drop 28 p @ rest)"
    using udpipchk_built [OF b, of 0 INADDR_BROADCAST DHCP_CLIENT_PORT DHCP_SERVER_PORT "dc_ip_id s + 1"] by (elim exE conjE) (rule that)
  define e where "e = dhost @ dc_hw s @ net16 ETHERTYPE_IP"
  define z where "z = g @ replicate 964 0"
  have e: "length e = 14" using g(2) assms(2) by (simp add: e_def)
  have "z = e @ p @ replicate 924 0 @ replicate 40 0" unfolding p(1) e_def z_def by (simp flip: replicate_add)
  then have t: "take 14 z = e" "take IPPACKET_SIZE (drop 14 z) = p @ replicate 924 0" "drop (14 + IPPACKET_SIZE) z = replicate 40 0"
      "drop 42 (take 590 z) = drop 28 p"
    using e p(2) by simp_all
  let ?s1 = "s\<lparr>dc_send := z, dc_ip_id := dc_ip_id s + 1\<rparr>" and ?f = "e @ h @ drop 28 p"
  let ?s2 = "?s1\<lparr>dc_send := e @ (h @ drop 28 p @ replicate 924 0) @ replicate 40 0, dc_ip_id := dc_ip_id s + 1 + 1, dc_net := dc_net s @ [?f]\<rparr>"
  have x: "dc_send ?s1 = z" "dc_ip_id ?s1 = dc_ip_id s + 1" "dc_net ?s1 = dc_net s" by simp_all
  have r: "buildDhcpDecline a (ev_xid env) s = Some ?s1" using g(3) by (simp add: z_def)
  have "udpipgen (p @ replicate 924 0) 0 INADDR_BROADCAST DHCP_CLIENT_PORT DHCP_SERVER_PORT (of_nat dhcp_msg_len) (dc_ip_id s + 1)
      = Some (h @ drop 28 p @ replicate 924 0, dc_ip_id s + 1 + 1)" using spec [OF h(4)] by blast
  moreover have "take (14 + 28 + dhcp_msg_len) (e @ (h @ drop 28 p @ replicate 924 0) @ replicate 40 0) = ?f" using e h(1) p(2) by simp
  ultimately have "dhcpDecline env a s = Some ?s2"
    unfolding dhcpDecline_def r bind.bind_lunit Let_def x t by (simp only: bind.bind_lunit prod.case)
  moreover have "drop 14 ?f = h @ drop 28 p" "take 14 ?f = e" "drop 42 ?f = drop 28 p" "length ?f = 590" using e h(1) p(2) by simp_all
  moreover have "take 4 (drop 26 ?f) = nid32_bytes 0" "take 4 (drop 30 ?f) = nid32_bytes INADDR_BROADCAST" using e h(1-3) by simp_all
  moreover have "udpipchk (h @ drop 28 p) = Some (0, h @ drop 28 p)" using spec [OF h(4), of "[]"] by simp
  ultimately show ?thesis using r t(1,4)
    by (intro exI [of _ ?s1] exI [of _ ?s2] exI [of _ ?f]) (simp only: x, simp)
qed

end
