(* ===== verification/DHCP_Lease.thy ===== *)
theory DHCP_Lease
  imports DHCP_Protocol
begin

text \<open>
  What the states of the DHCP client keep: in the states that hold a lease its timers can be read, and from the start on the
  identifiers are what the builders rely on; and how the client comes to a lease and gives it up.
\<close>

section \<open>The set-up of the interface keeps the lease\<close>

text \<open>The values of the lease, the address, the card, and what the daemon was told stay; of the identifiers only the version changes.\<close>

definition conf_kept :: "'a dhcp_proc_scheme \<Rightarrow> 'a dhcp_proc_scheme \<Rightarrow> bool" where
  "conf_kept s s' \<longleftrightarrow>
     (\<forall>c \<in> {dhcpIPaddrLeaseTime, dhcpT1value, dhcpT2value, dhcpServerIdentifier}. do_val (dc_opts s') c = do_val (dc_opts s) c) \<and>
     (dc_iface s')\<lparr>di_version := []\<rparr> = (dc_iface s)\<lparr>di_version := []\<rparr> \<and> dc_hw s' = dc_hw s \<and> dc_token s' = dc_token s \<and>
     dc_recv s' = dc_recv s \<and> dc_out s' = dc_out s \<and> dc_inform s' = dc_inform s \<and> dhcp_proc.more s' = dhcp_proc.more s"

lemma conf_kept_refl [simp]: "conf_kept s s"
  by (simp add: conf_kept_def)

lemma conf_kept_trans: "conf_kept s t \<Longrightarrow> conf_kept t u \<Longrightarrow> conf_kept s u"
  by (auto simp: conf_kept_def)

lemma conf_kept_updates [simp]:
  "conf_kept s (s'\<lparr>dp_addr := x\<rparr>) = conf_kept s s'" "conf_kept s (s'\<lparr>dp_mask := x\<rparr>) = conf_kept s s'"
  "conf_kept s (s'\<lparr>dp_bcast := x\<rparr>) = conf_kept s s'" "conf_kept s (s'\<lparr>dp_routes := rs\<rparr>) = conf_kept s s'"
  "conf_kept s (s'\<lparr>dp_resolv := cf\<rparr>) = conf_kept s s'" "conf_kept s (s'\<lparr>dp_nis := cf\<rparr>) = conf_kept s s'"
  "conf_kept s (s'\<lparr>dp_ntp := cf\<rparr>) = conf_kept s s'" "conf_kept s (s'\<lparr>dp_hostname := n\<rparr>) = conf_kept s s'"
  "conf_kept s (s'\<lparr>dp_domainname := n\<rparr>) = conf_kept s s'" "conf_kept s (s'\<lparr>dp_InitialHostName := no\<rparr>) = conf_kept s s'"
  "conf_kept s (s'\<lparr>dp_InitialDomainName := no\<rparr>) = conf_kept s s'" "conf_kept s (s'\<lparr>dp_cache := ca\<rparr>) = conf_kept s s'"
  "conf_kept s (s'\<lparr>dp_info := no\<rparr>) = conf_kept s s'" "conf_kept s (s'\<lparr>dp_info_old := no\<rparr>) = conf_kept s s'"
  "conf_kept s (s'\<lparr>dp_hooks := hs\<rparr>) = conf_kept s s'" "conf_kept s (s'\<lparr>dp_prev_ip := x\<rparr>) = conf_kept s s'"
  "conf_kept s (s'\<lparr>dc_net := net\<rparr>) = conf_kept s s'"
  by (simp_all add: conf_kept_def)

lemma clean_opt_other: "clean_opt key c opts = Some (str, opts') \<Longrightarrow> c' \<noteq> c \<Longrightarrow> do_val opts' c' = do_val opts c'"
  by (auto simp: clean_opt_def split: if_splits option.splits)

lemma write_info_kept:
  assumes "write_info a s = Some s'"
  shows "conf_kept s s'"
proof -
  from assms obtain h o1 d o2 n o3 p o4 t t' where r: "clean_opt ''HOSTNAME'' hostName (dc_opts s) = Some (h, o1)"
      "clean_opt ''DOMAIN'' domainName o1 = Some (d, o2)" "clean_opt ''NISDOMAIN'' nisDomainName o2 = Some (n, o3)"
      "clean_opt ''ROOTPATH'' rootPath o3 = Some (p, o4)" "s' = s\<lparr>dc_opts := o4, dp_info := t, dp_info_old := t'\<rparr>"
    unfolding write_info_def bind_eq_Some_conv by (elim exE conjE) (auto simp: bind_eq_Some_conv)
  have "do_val o4 c = do_val (dc_opts s) c" if "c \<notin> {hostName, domainName, nisDomainName, rootPath}" for c
    using that clean_opt_other [OF r(1)] clean_opt_other [OF r(2)] clean_opt_other [OF r(3)] clean_opt_other [OF r(4)] by simp
  then show ?thesis by (simp add: r(5) conf_kept_def)
qed

lemma write_cache_kept: "conf_kept s (write_cache s)"
proof -
  have "conf_kept s (s\<lparr>dc_iface := (dc_iface s)\<lparr>di_version := v\<rparr>\<rparr>)" for v by (simp add: conf_kept_def)
  then show ?thesis by (simp add: write_cache_def Let_def)
qed

lemma finish_config_kept: "finish_config a s = Some (o', s') \<Longrightarrow> conf_kept s s'"
  unfolding finish_config_def bind_eq_Some_conv Let_def
  by (elim exE conjE) (auto split: if_splits intro: conf_kept_trans [OF write_cache_kept write_info_kept])

lemma set_addresses_kept: "set_addresses env s = Some (b, s') \<Longrightarrow> conf_kept s s'"
  by (cases "ce_setaddr env"; cases "word_at (do_val (dc_opts s) subnetMask)"; cases "word_at (do_val (dc_opts s) broadcastAddr)")
    (auto simp: set_addresses_def Let_def split: if_splits)

lemma set_routes_kept: "set_routes env a s = Some s' \<Longrightarrow> conf_kept s s'"
  unfolding set_routes_def bind_eq_Some_conv Let_def option.inject by (elim exE conjE) (hypsubst, simp)

lemma arpInform_kept: "arpInform s = Some s' \<Longrightarrow> conf_kept s s'"
  by (auto simp: arpInform_def arp_send_def bind_eq_Some_conv split: if_splits)

lemma write_files_kept: "write_files a s = Some s' \<Longrightarrow> conf_kept s s'"
  unfolding write_files_def bind_eq_Some_conv by (elim exE conjE) (auto split: if_splits)

lemma opt_text_new_other: "c' \<noteq> c \<Longrightarrow> do_val (opt_text_new c str opts) c' = do_val opts c'"
  by (simp add: opt_text_new_def)

lemma set_names_kept:
  "set_host_name env s = Some s' \<Longrightarrow> conf_kept s s'"
  "set_domain_name env s = Some s' \<Longrightarrow> conf_kept s s'"
  by (auto simp: set_host_name_def set_domain_name_def bind_eq_Some_conv Let_def conf_kept_def opt_text_new_other
      split: if_splits option.splits)

lemma config_kept:
  assumes "dhcpConfig env a s = Some (o', s')"
  shows "conf_kept s s'"
proof (cases "da_TestCase a")
  case True
  then show ?thesis using assms finish_config_kept by (simp add: dhcpConfig_def)
next
  case False
  then obtain b s1 where s1: "set_addresses env s = Some (b, s1)"
      "(if \<not> b then Some (Returns (- 1), s1)
        else do {
          s \<leftarrow> set_routes env a s1;
          s \<leftarrow> arpInform s;
          s \<leftarrow> write_files a s;
          s \<leftarrow> (if da_SetHostName a then set_host_name env s else Some s);
          s \<leftarrow> (if da_SetDomainName a then set_domain_name env s else Some s);
          finish_config a s
        }) = Some (o', s')"
    using assms by (auto simp: dhcpConfig_def bind_eq_Some_conv)
  note k1 = set_addresses_kept [OF s1(1)]
  show ?thesis
  proof (cases b)
    case False
    then show ?thesis using s1(2) k1 by simp
  next
    case True
    then obtain s2 s3 s4 s5 s6 where r: "set_routes env a s1 = Some s2" "arpInform s2 = Some s3" "write_files a s3 = Some s4"
        "(if da_SetHostName a then set_host_name env s4 else Some s4) = Some s5"
        "(if da_SetDomainName a then set_domain_name env s5 else Some s5) = Some s6" "finish_config a s6 = Some (o', s')"
      using s1(2) by (auto simp: bind_eq_Some_conv)
    have "conf_kept s4 s5" "conf_kept s5 s6" using r(4,5) set_names_kept by (auto split: if_splits)
    then show ?thesis
      using k1 set_routes_kept [OF r(1)] arpInform_kept [OF r(2)] write_files_kept [OF r(3)] finish_config_kept [OF r(6)]
      by (blast intro: conf_kept_trans)
  qed
qed

lemma conf_kept_timers: "conf_kept s s' \<Longrightarrow> timers_ok (dc_opts s') = timers_ok (dc_opts s)"
  by (simp add: conf_kept_def timers_ok_def)

lemma conf_kept_iface:
  assumes "conf_kept s s'"
  shows "iface_ok (dc_iface s') = iface_ok (dc_iface s)" "di_ciaddr (dc_iface s') = di_ciaddr (dc_iface s)"
proof -
  have "(dc_iface s')\<lparr>di_version := []\<rparr> = (dc_iface s)\<lparr>di_version := []\<rparr>" using assms by (simp add: conf_kept_def)
  then show "iface_ok (dc_iface s') = iface_ok (dc_iface s)" "di_ciaddr (dc_iface s') = di_ciaddr (dc_iface s)"
    by (cases "dc_iface s"; cases "dc_iface s'"; simp add: iface_ok_def)+
qed

section \<open>The invariant\<close>

text \<open>
  What the command line and the environment must give: identifiers that fit, a card's address of six bytes.
\<close>

definition args_fit :: "dhcp_args \<Rightarrow> bool" where
  "args_fit a \<longleftrightarrow> args_ok a \<and> (\<forall>c. da_ClassID a = Some c \<longrightarrow> 0 < length c \<and> length c \<le> CLASS_ID_MAX_LEN) \<and>
     (\<forall>d. da_ClientID a = Some d \<longrightarrow> length d \<le> CLIENT_ID_MAX_LEN - 3)"

definition env_fit :: "client_env \<Rightarrow> bool" where
  "env_fit env \<longleftrightarrow> (\<forall>i. length (ev_hw env i) = ETH_ALEN) \<and> 0 < length (ev_uname env) \<and> length (ev_uname env) \<le> CLASS_ID_MAX_LEN"

text \<open>
  In the states that hold a lease the timers can be read; behind the start the identifiers are set up.
\<close>

definition client_ok :: "state_fun \<Rightarrow> 'a dhcp_main_scheme \<Rightarrow> bool" where
  "client_ok f s \<longleftrightarrow> (f \<in> {Bound, Renew, Rebind} \<longrightarrow> timers_ok (dc_opts s)) \<and>
     (f \<notin> {Reboot, Inform} \<longrightarrow> iface_ok (dc_iface s) \<and> length (dc_hw s) = ETH_ALEN)"

text \<open>The identifiers alone, for the parts the states are made of.\<close>

definition ids_ok :: "'a dhcp_client_scheme \<Rightarrow> bool" where
  "ids_ok s \<longleftrightarrow> iface_ok (dc_iface s) \<and> length (dc_hw s) = ETH_ALEN"

lemma ids_ok_updates [simp]:
  "ids_ok (s\<lparr>dc_opts := opts\<rparr>) = ids_ok s" "ids_ok (s\<lparr>dc_net := net\<rparr>) = ids_ok s" "ids_ok (s\<lparr>dc_ip_id := i\<rparr>) = ids_ok s"
  by (simp_all add: ids_ok_def)

lemma iface_ok_updates [simp]:
  "iface_ok (i\<lparr>di_ciaddr := x\<rparr>) = iface_ok i" "iface_ok (i\<lparr>di_siaddr := x\<rparr>) = iface_ok i" "iface_ok (i\<lparr>di_xid := xid\<rparr>) = iface_ok i"
  by (simp_all add: iface_ok_def)

lemma ids_ok_same: "same_client s s' \<Longrightarrow> ids_ok s' = ids_ok s"
  by (simp add: same_client_def ids_ok_def)

lemma ids_ok_conf: "conf_kept s s' \<Longrightarrow> ids_ok s' = ids_ok s"
  using conf_kept_iface [of s s'] by (auto simp: ids_ok_def conf_kept_def)

lemma note_server_ids:
  assumes "note_server s = Some s'" "ids_ok s" "length (dc_recv s) = recv_len"
  shows "ids_ok s'" "dc_opts s' = dc_opts s" "di_ciaddr (dc_iface s') = di_ciaddr (dc_iface s)" "dc_recv s' = dc_recv s"
  using assms by (auto simp: note_server_def bind_eq_Some_conv ids_ok_def iface_ok_def)

lemma start_ids: "env_fit env \<Longrightarrow> length (dc_hw (dhcpStart env s)) = ETH_ALEN" "dc_iface (dhcpStart env s) = dc_iface s"
  by (simp_all add: dhcpStart_def start_hw_def env_fit_def Let_def)

lemma stop_ids: "ids_ok (dhcpStop a s) = ids_ok s"
  by (simp add: dhcpStop_def ids_ok_def Let_def)

text \<open>The set-up of the identifiers from the command line or the environment.\<close>

lemma setup_ids:
  assumes "args_fit a" "env_fit env" "length (di_class_id (dc_iface s)) = CLASS_ID_MAX_LEN"
    "length (di_client_id (dc_iface s)) = CLIENT_ID_MAX_LEN" "length (di_shaddr (dc_iface s)) = ETH_ALEN" "length (dc_hw s) = ETH_ALEN"
  shows "\<exists>i. classclientsetup (ev_uname env) a s = Some (s\<lparr>dc_iface := i\<rparr>) \<and> iface_ok i \<and> di_ciaddr i = di_ciaddr (dc_iface s)"
  by (rule classclientsetup_ok [OF assms(3-6)]) (use assms(1,2) in \<open>auto simp: args_fit_def env_fit_def split: option.split\<close>)

text \<open>A request that is acknowledged leads to \<open>dhcpBound\<close> with timers that can be read.\<close>

lemma dhcpRequest_ok:
  assumes b: "only_builds build" and run: "dhcpRequest env a es xid build s = Some (n, s')" and ok: "ids_ok s"
  shows "ids_ok s'" "n = Goto g \<Longrightarrow> g = Init \<or> (g = Bound \<and> timers_ok (dc_opts s'))"
proof -
  obtain r s1 where s1: "dhcpSendAndRecv env a es xid DHCP_ACK build s = Some (r, s1)"
      "(if r = Waiting then Some (Waits, s1)
        else if r \<noteq> Done 0 then Some (Goto Init, s1)
        else do {
          (o', s) \<leftarrow> dhcpConfig (ev_config env) a (s1\<lparr>dp_ReqSentTime := ev_now env 1\<rparr>);
          case o' of
            Exits c \<Rightarrow> Some (Ended c, s)
          | Returns c \<Rightarrow>
              if c \<noteq> 0 then Some (Null, dhcpStop a s)
              else do { s \<leftarrow> note_server s; Some (Goto Bound, s) }
        }) = Some (n, s')"
    using run by (auto simp: dhcpRequest_def bind_eq_Some_conv)
  have e: "exchanged s r s1" by (rule exchange_keeps [OF b s1(1)])
  have ids1: "ids_ok s1" using e ids_ok_same ok by (auto simp: exchanged_def)
  have "ids_ok s' \<and> (\<forall>g. n = Goto g \<longrightarrow> g = Init \<or> (g = Bound \<and> timers_ok (dc_opts s')))"
  proof (cases "r = Done 0")
    case False
    then show ?thesis using s1(2) ids1 by (auto split: if_splits)
  next
    case True
    then obtain o' s2 where s2: "dhcpConfig (ev_config env) a (s1\<lparr>dp_ReqSentTime := ev_now env 1\<rparr>) = Some (o', s2)"
        "(case o' of Exits c \<Rightarrow> Some (Ended c, s2)
          | Returns c \<Rightarrow> if c \<noteq> 0 then Some (Null, dhcpStop a s2) else do { s \<leftarrow> note_server s2; Some (Goto Bound, s) }) = Some (n, s')"
      using s1(2) by (auto simp: bind_eq_Some_conv)
    note k = config_kept [OF s2(1)]
    have l: "length (dc_recv s2) = recv_len" and t: "timers_ok (dc_opts s2)" and ids2: "ids_ok s2"
      using k True e ids1 conf_kept_timers [OF k] ids_ok_conf [OF k] by (auto simp: conf_kept_def exchanged_def ids_ok_def)
    show ?thesis
    proof (cases o')
      case (Returns c)
      show ?thesis
      proof (cases "c = 0")
        case True
        then obtain s3 where s3: "note_server s2 = Some s3" "n = Goto Bound" "s' = s3"
          using s2(2) Returns by (auto simp: bind_eq_Some_conv)
        then show ?thesis using note_server_ids [OF s3(1) ids2 l] t by simp
      next
        case False
        then show ?thesis using s2(2) ids2 stop_ids [of a s2] Returns by simp
      qed
    qed (use s2(2) ids2 in auto)
  qed
  then show "ids_ok s'" "n = Goto g \<Longrightarrow> g = Init \<or> (g = Bound \<and> timers_ok (dc_opts s'))" by auto
qed

text \<open>Where each state goes, and that it keeps the identifiers.\<close>

lemma decode_iface_lengths:
  assumes "iface_len \<le> length b"
  shows "length (di_class_id (decode_iface b)) = CLASS_ID_MAX_LEN" "length (di_client_id (decode_iface b)) = CLIENT_ID_MAX_LEN"
    "length (di_shaddr (decode_iface b)) = ETH_ALEN"
  using assms by (simp_all add: decode_iface_def)

lemma cache_lengths:
  assumes "readDhcpCache s = (0, s')"
  shows "length (di_class_id (dc_iface s')) = CLASS_ID_MAX_LEN" "length (di_client_id (dc_iface s')) = CLIENT_ID_MAX_LEN"
    "length (di_shaddr (dc_iface s')) = ETH_ALEN" "dc_hw s' = dc_hw s"
proof -
  obtain f where f: "dp_cache s = Some f" "iface_len \<le> length f"
      "s' = s\<lparr>dc_iface := decode_iface (overlay (take iface_len f) (encode_iface (dc_iface s))), dp_prev_ip := dp_prev_ip s'\<rparr>"
    using assms by (auto simp: readDhcpCache_def Let_def split: option.splits if_splits)
  then have "iface_len \<le> length (overlay (take iface_len f) (encode_iface (dc_iface s)))" by (simp add: overlay_def)
  note decode_iface_lengths [OF this]
  moreover have "dc_iface s' = decode_iface (overlay (take iface_len f) (encode_iface (dc_iface s)))" "dc_hw s' = dc_hw s"
    by (subst f(3), simp)+
  ultimately show "length (di_class_id (dc_iface s')) = CLASS_ID_MAX_LEN" "length (di_client_id (dc_iface s')) = CLIENT_ID_MAX_LEN"
    "length (di_shaddr (dc_iface s')) = ETH_ALEN" "dc_hw s' = dc_hw s" by simp_all
qed

lemma zero_iface_lengths: "length (di_class_id zero_iface) = CLASS_ID_MAX_LEN" "length (di_client_id zero_iface) = CLIENT_ID_MAX_LEN"
  "length (di_shaddr zero_iface) = ETH_ALEN"
  by (simp_all add: zero_iface_def)

text \<open>What every state owes to the next one.\<close>

definition leads_ok :: "state_next \<times> 'a dhcp_proc_scheme \<Rightarrow> state_fun set \<Rightarrow> bool" where
  "leads_ok r gs \<longleftrightarrow> ids_ok (snd r) \<and> (\<forall>g. fst r = Goto g \<longrightarrow> g \<in> gs \<and> (g \<in> {Bound, Renew, Rebind} \<longrightarrow> timers_ok (dc_opts (snd r))))"

lemma leads_request:
  "only_builds build \<Longrightarrow> dhcpRequest env a es xid build s = Some (n, s') \<Longrightarrow> ids_ok s \<Longrightarrow> leads_ok (n, s') {Init, Bound}"
  using dhcpRequest_ok [of build env a es xid s n s'] by (auto simp: leads_ok_def)

lemma leads_reboot:
  assumes run: "dhcpReboot env a s = Some (n, s')" and fit: "args_fit a" "env_fit env"
  shows "leads_ok (n, s') {Init, Bound}"
proof -
  let ?s0 = "(dhcpStart env s)\<lparr>dc_opts := \<lparr>do_num = 0, do_len = (\<lambda>_. 0), do_val = (\<lambda>_. None)\<rparr>, dc_iface := zero_iface\<rparr>"
  obtain c s1 where c: "readDhcpCache ?s0 = (c, s1)" by (cases "readDhcpCache ?s0")
  have hw: "length (dc_hw s1) = ETH_ALEN"
    using c start_ids(1) [OF fit(2), of s] by (auto simp: readDhcpCache_def Let_def split: option.splits if_splits)
  show ?thesis
  proof (cases "c = 0")
    case True
    note l = cache_lengths [OF c [unfolded True]]
    obtain i where i: "classclientsetup (ev_uname env) a s1 = Some (s1\<lparr>dc_iface := i\<rparr>)" "iface_ok i"
      using setup_ids [OF fit l(1-3) hw] by auto
    have "dhcpRequest env a (ev_events env) (ev_xid env) (buildDhcpReboot a) (s1\<lparr>dc_iface := i\<rparr>) = Some (n, s')"
      using run c True i(1) by (simp add: dhcpReboot_def Let_def)
    then show ?thesis by (rule leads_request [OF builders_only(5)]) (use i hw in \<open>simp add: ids_ok_def\<close>)
  next
    case False
    let ?s2 = "s1\<lparr>dc_iface := (case ev_ifaddr env of Some ip \<Rightarrow> zero_iface\<lparr>di_ciaddr := ip\<rparr> | None \<Rightarrow> zero_iface)\<rparr>"
    have l: "length (di_class_id (dc_iface ?s2)) = CLASS_ID_MAX_LEN" "length (di_client_id (dc_iface ?s2)) = CLIENT_ID_MAX_LEN"
        "length (di_shaddr (dc_iface ?s2)) = ETH_ALEN" "length (dc_hw ?s2) = ETH_ALEN"
      using zero_iface_lengths hw by (simp_all split: option.split)
    obtain i where i: "classclientsetup (ev_uname env) a ?s2 = Some (?s2\<lparr>dc_iface := i\<rparr>)" "iface_ok i"
      using setup_ids [OF fit l] by auto
    then have "n = Goto Init" "s' = ?s2\<lparr>dc_iface := i\<rparr>" using run c False by (auto simp: dhcpReboot_def Let_def)
    then show ?thesis using i(2) hw by (simp add: leads_ok_def ids_ok_def)
  qed
qed

lemma take_offer_ids:
  assumes "take_offer s = Some s'" "ids_ok s" "length (dc_recv s) = recv_len"
  shows "ids_ok s'"
proof -
  let ?s1 = "s\<lparr>dp_prev_ip := di_ciaddr (dc_iface s), dc_iface := (dc_iface s)\<lparr>di_ciaddr := dm_yiaddr (recv_msg s)\<rparr>\<rparr>"
  obtain s2 where s2: "note_server ?s1 = Some s2" "s' = s2\<lparr>dc_iface := (dc_iface s2)\<lparr>di_xid := dm_xid (recv_msg s)\<rparr>\<rparr>"
    using assms(1) by (auto simp: take_offer_def Let_def bind_eq_Some_conv)
  have "ids_ok ?s1" using assms(2) by (simp add: ids_ok_def)
  then show ?thesis using note_server_ids(1) [OF s2(1)] assms(3) s2(2) by (simp add: ids_ok_def)
qed

lemma leads_init:
  assumes run: "dhcpInit env a ack s = Some (n, s')" and ok: "ids_ok s"
  shows "leads_ok (n, s') {Init, Bound}"
proof -
  let ?s0 = "s\<lparr>dc_opts := releaseDhcpOptions (dc_opts s)\<rparr>"
  obtain r s1 where s1: "dhcpSendAndRecv env a (ev_events env) (ev_xid env) DHCP_OFFER (buildDhcpDiscover a) ?s0 = Some (r, s1)"
    using run by (auto simp: dhcpInit_def bind_eq_Some_conv)
  have e: "exchanged ?s0 r s1" by (rule exchange_keeps [OF builders_only(1) s1])
  have ids1: "ids_ok s1" using e ids_ok_same [of ?s0 s1] ok by (simp add: exchanged_def)
  show ?thesis
  proof (cases "r = Done 0")
    case False
    then show ?thesis using run s1 ids1 stop_ids [of a s1] by (auto simp: dhcpInit_def leads_ok_def split: if_splits)
  next
    case True
    then have l1: "length (dc_recv s1) = recv_len" using e by (simp add: exchanged_def)
    obtain r2 s2 where s2: "(if da_SendSecondDiscover a
          then dhcpSendAndRecv env a (ev_more env) (dm_xid (recv_msg s1)) DHCP_OFFER (buildDhcpDiscover a) s1 else Some (Done 0, s1)) = Some (r2, s2)"
        "(if r2 = Waiting then Some (Waits, s2)
          else do { s \<leftarrow> take_offer s2; dhcpRequest env a ack (di_xid (dc_iface s)) (buildDhcpRequest a) s }) = Some (n, s')"
      using run s1 True by (auto simp: dhcpInit_def bind_eq_Some_conv)
    have "same_client s1 s2 \<and> length (dc_recv s2) = recv_len"
    proof (cases "da_SendSecondDiscover a")
      case True
      then have "exchanged s1 r2 s2" using s2(1) by (auto intro: exchange_keeps [OF builders_only(1)])
      then show ?thesis using l1 by (simp add: exchanged_def)
    next
      case False
      then show ?thesis using s2(1) l1 by simp
    qed
    then have e2: "same_client s1 s2" and l2: "length (dc_recv s2) = recv_len" by simp_all
    have ids2: "ids_ok s2" using ids1 ids_ok_same [OF e2] by simp
    show ?thesis
    proof (cases "r2 = Waiting")
      case True
      then show ?thesis using s2(2) ids2 by (simp add: leads_ok_def)
    next
      case False
      then obtain s3 where s3: "take_offer s2 = Some s3" "dhcpRequest env a ack (di_xid (dc_iface s3)) (buildDhcpRequest a) s3 = Some (n, s')"
        using s2(2) by (auto simp: bind_eq_Some_conv)
      show ?thesis by (rule leads_request [OF builders_only(2) s3(2) take_offer_ids [OF s3(1) ids2 l2]])
    qed
  qed
qed

lemma leads_bound:
  assumes "dhcpBound env s = Some (n, s')" "ids_ok s" "timers_ok (dc_opts s)"
  shows "leads_ok (n, s') {Renew}"
  using assms by (auto simp: dhcpBound_def bind_eq_Some_conv leads_ok_def ids_ok_def)

lemma leads_renew:
  assumes run: "dhcpRenew env a s = Some (n, s')" and ok: "ids_ok s" "timers_ok (dc_opts s)"
  shows "leads_ok (n, s') {Bound, Rebind}"
proof -
  obtain i where i: "timer_left env dhcpT2value s = Some i" using run by (auto simp: dhcpRenew_def bind_eq_Some_conv)
  show ?thesis
  proof (cases "i \<le> 0")
    case True
    then show ?thesis using run i ok by (auto simp: dhcpRenew_def leads_ok_def)
  next
    case False
    then obtain r s1 where s1: "dhcpSendAndRecv env a (ev_events env) (ev_xid env) DHCP_ACK (buildDhcpRenew a) (s\<lparr>pr_alarm := True\<rparr>) = Some (r, s1)"
      using run i by (auto simp: dhcpRenew_def bind_eq_Some_conv)
    have "exchanged (s\<lparr>pr_alarm := True\<rparr>) r s1" by (rule exchange_keeps [OF builders_only(3) s1])
    then have "ids_ok s1" "timers_ok (dc_opts s1)"
      using ok ids_ok_same [of "s\<lparr>pr_alarm := True\<rparr>" s1] by (auto simp: exchanged_def ids_ok_def)
    then show ?thesis using run i False s1 by (auto simp: dhcpRenew_def leads_ok_def ids_ok_def split: if_splits)
  qed
qed

lemma leads_rebind:
  assumes run: "dhcpRebind env a s = Some (n, s')" and ok: "ids_ok s"
  shows "leads_ok (n, s') {Bound, Stop}"
proof -
  obtain i where i: "timer_left env dhcpIPaddrLeaseTime s = Some i" using run by (auto simp: dhcpRebind_def bind_eq_Some_conv)
  show ?thesis
  proof (cases "i \<le> 0")
    case True
    then show ?thesis using run i ok by (auto simp: dhcpRebind_def leads_ok_def)
  next
    case False
    then obtain r s1 where s1: "dhcpSendAndRecv env a (ev_events env) (ev_xid env) DHCP_ACK (buildDhcpRebind a) (s\<lparr>pr_alarm := True\<rparr>) = Some (r, s1)"
      using run i by (auto simp: dhcpRebind_def bind_eq_Some_conv)
    have e: "exchanged (s\<lparr>pr_alarm := True\<rparr>) r s1" by (rule exchange_keeps [OF builders_only(4) s1])
    then have ids1: "ids_ok s1" using ok ids_ok_same [of "s\<lparr>pr_alarm := True\<rparr>" s1] by (auto simp: exchanged_def ids_ok_def)
    show ?thesis
    proof (cases "r = Done 0")
      case True
      then obtain s2 where s2: "note_server (s1\<lparr>dp_ReqSentTime := ev_now env 1\<rparr>) = Some s2" "n = Goto Bound" "s' = s2"
        using run i False s1 by (auto simp: dhcpRebind_def bind_eq_Some_conv)
      have "ids_ok s2" "dc_opts s2 = dc_opts s1"
        using note_server_ids [OF s2(1)] ids1 True e by (simp_all add: exchanged_def ids_ok_def)
      then show ?thesis using s2 True e by (simp add: leads_ok_def exchanged_def)
    next
      case other: False
      then show ?thesis using run i False s1 ids1 by (auto simp: dhcpRebind_def leads_ok_def ids_ok_def split: if_splits)
    qed
  qed
qed

text \<open>Where each state may go: the transitions of the client.\<close>

definition leads_to :: "state_fun \<Rightarrow> state_fun set" where
  "leads_to f = (case f of
     Reboot \<Rightarrow> {Init, Bound} | Init \<Rightarrow> {Init, Bound} | Bound \<Rightarrow> {Renew} | Renew \<Rightarrow> {Bound, Rebind} | Rebind \<Rightarrow> {Bound, Stop}
   | Stop \<Rightarrow> {Start} | Start \<Rightarrow> {Init} | Inform \<Rightarrow> {})"

lemma run_state_leads:
  assumes run: "run_state env a ack f s = Some (n, s')" and fit: "args_fit a" "env_fit env" and ok: "client_ok f s" and f: "f \<noteq> Inform"
  shows "leads_ok (n, s') (leads_to f)"
proof (cases f)
  case Start
  have "ids_ok (dhcpStart env s)" using ok Start start_ids(1) [OF fit(2), of s] start_ids(2) [of env s] by (simp add: client_ok_def ids_ok_def)
  then show ?thesis using run Start by (auto simp: run_state_def leads_ok_def leads_to_def)
next
  case Stop
  then show ?thesis using run ok stop_ids [of a s] by (auto simp: run_state_def leads_ok_def leads_to_def client_ok_def ids_ok_def)
next
  case Reboot
  then show ?thesis using run leads_reboot [OF _ fit] by (simp add: run_state_def leads_to_def)
next
  case Init
  then show ?thesis using run ok leads_init [of env a ack s n s'] by (simp add: run_state_def leads_to_def client_ok_def ids_ok_def)
next
  case Bound
  then show ?thesis using run ok leads_bound [of env s n s'] by (simp add: run_state_def leads_to_def client_ok_def ids_ok_def)
next
  case Renew
  then show ?thesis using run ok leads_renew [of env a s n s'] by (simp add: run_state_def leads_to_def client_ok_def ids_ok_def)
next
  case Rebind
  then show ?thesis using run ok leads_rebind [of env a s n s'] by (simp add: run_state_def leads_to_def client_ok_def ids_ok_def)
qed (use f in simp)

text \<open>A state function other than \<open>dhcpInform\<close> is what a client started with \<open>dhcpReboot\<close> gets to.\<close>

lemma inform_ends:
  assumes run: "dhcpInform env a s = Some (n, s')"
  shows "n \<noteq> Goto g"
proof -
  let ?s0 = "(dhcpStart env s)\<lparr>dc_opts := \<lparr>do_num = 0, do_len = (\<lambda>_. 0), do_val = (\<lambda>_. None)\<rparr>, dc_iface := zero_iface\<rparr>"
  show ?thesis
  proof (cases "inform_address env ?s0")
    case None
    then show ?thesis using run by (simp add: dhcpInform_def Let_def)
  next
    case (Some s1)
    then obtain r s2 where "(if r = Waiting then Some (Waits, s2)
         else if r \<noteq> Done 0 then Some (Null, s2)
         else do {
           (o', s) \<leftarrow> dhcpConfig (ev_config env) a s2;
           Some (case o' of Exits c \<Rightarrow> Ended c | Returns c \<Rightarrow> if c \<noteq> 0 then Null else Ended 0, s)
         }) = Some (n, s')"
      using run unfolding dhcpInform_def Let_def by (auto simp only: option.case bind_eq_Some_conv split_paired_Ex prod.case)
    then show ?thesis by (auto simp: bind_eq_Some_conv split: if_splits outcome.splits) (metis outcome.exhaust)
  qed
qed

text \<open>What the alarm does.\<close>

lemma alarm_raised:
  "sigHandler env a SIGALRM f s =
     Some (case f of Bound \<Rightarrow> (Goto Renew, s\<lparr>pr_alarm := False\<rparr>) | Renew \<Rightarrow> (Goto Rebind, s\<lparr>pr_alarm := False\<rparr>)
       | Rebind \<Rightarrow> (Goto Stop, s\<lparr>pr_alarm := False\<rparr>) | Reboot \<Rightarrow> (Goto Init, s\<lparr>pr_alarm := True\<rparr>) | _ \<Rightarrow> (Ended SIGALRM, dhcpStop a s))"
  by (cases f) (simp_all add: sigHandler_def)

lemma client_round_leads:
  assumes run: "client_round env a ack f s = Some (Goto g, s')" and fit: "args_fit a" "env_fit env" and ok: "client_ok f s"
  shows "g \<in> leads_to f \<and> client_ok g s'"
proof -
  obtain n1 s1 n2 s2 where r12: "run_state env a ack f s = Some (n1, s1)"
      "(if n1 = Waits \<and> pr_alarm s1 then sigHandler env a SIGALRM f s1 else Some (n1, s1)) = Some (n2, s2)"
    and nxt: "(case n2 of
       Goto g \<Rightarrow> Some (n2, if g = Bound \<and> \<not> pr_daemon s2 then s2\<lparr>pr_alarm := False, pr_daemon := True\<rparr> else s2)
     | Null \<Rightarrow> Some (Ended 1, s2) | _ \<Rightarrow> Some (n2, s2)) = Some (Goto g, s')"
    using run unfolding client_round_def by (auto simp only: bind_eq_Some_conv split_paired_Ex prod.case)
  have r34: "n2 = Goto g" "s' = (if g = Bound \<and> \<not> pr_daemon s2 then s2\<lparr>pr_alarm := False, pr_daemon := True\<rparr> else s2)"
    using nxt by (cases n2; simp)+
  note r = r12 r34
  have f: "f \<noteq> Inform"
  proof
    assume "f = Inform"
    then have "n1 \<noteq> Goto g" using r(1) inform_ends by (simp add: run_state_def)
    then show False using r(2,3) \<open>f = Inform\<close> by (auto simp: alarm_raised split: if_splits)
  qed
  note l = run_state_leads [OF r(1) fit ok f]
  have "g \<in> leads_to f \<and> (g \<in> {Bound, Renew, Rebind} \<longrightarrow> timers_ok (dc_opts s2)) \<and> ids_ok s2"
  proof (cases "n1 = Waits \<and> pr_alarm s1")
    case False
    then have "n1 = n2" "s1 = s2" using r(2) by auto
    then show ?thesis using l r(3) by (simp add: leads_ok_def)
  next
    case True
    have "f \<notin> {Bound, Renew, Rebind}"
      using r(1) True by (auto simp: run_state_def dhcpBound_def dhcpRenew_def dhcpRebind_def bind_eq_Some_conv split: if_splits)
    then have "f = Reboot" "n2 = Goto Init" "s2 = s1\<lparr>pr_alarm := True\<rparr>"
      using r(2,3) True by (auto simp: alarm_raised split: if_splits state_fun.splits)
    then show ?thesis using l r(3) by (auto simp: leads_ok_def leads_to_def ids_ok_def)
  qed
  then show ?thesis using r(4) by (auto simp: client_ok_def ids_ok_def)
qed

text \<open>The steps of the process: rounds that go on, in environments that fit.\<close>

inductive client_step :: "dhcp_args \<Rightarrow> state_fun \<times> dhcp_main \<Rightarrow> state_fun \<times> dhcp_main \<Rightarrow> bool" for a where
  round: "env_fit env \<Longrightarrow> client_round env a ack f s = Some (Goto g, s') \<Longrightarrow> client_step a (f, s) (g, s')"

inductive_cases client_stepE: "client_step a c c'"

lemma client_step_ok:
  assumes "client_step a c c'" "args_fit a" "client_ok (fst c) (snd c)"
  shows "fst c' \<in> leads_to (fst c)" "client_ok (fst c') (snd c')"
proof -
  obtain env ack f s g s' where "env_fit env" "client_round env a ack f s = Some (Goto g, s')" "c = (f, s)" "c' = (g, s')"
    using assms(1) by (auto elim: client_stepE)
  then show "fst c' \<in> leads_to (fst c)" "client_ok (fst c') (snd c')"
    using client_round_leads [of env a ack f s g s'] assms(2,3) by simp_all
qed

lemma client_reaches_ok:
  assumes steps: "(client_step a)\<^sup>*\<^sup>* c c'" and "args_fit a" "client_ok (fst c) (snd c)"
  shows "client_ok (fst c') (snd c')"
  using steps by (induction rule: rtranclp_induct) (use assms client_step_ok in blast)+

section \<open>The main loop\<close>

text \<open>\<open>while ( currState ) currState=(void *(*)())currState()\<close>, for as many rounds as there are environments.\<close>

fun client_run :: "dhcp_args \<Rightarrow> (client_env \<times> link_event list) list \<Rightarrow> state_fun \<Rightarrow> 'a dhcp_main_scheme \<Rightarrow> (state_next \<times> 'a dhcp_main_scheme) run" where
  "client_run a [] f s = Some (Goto f, s)"
| "client_run a (e # es) f s = do {
     (n, s) \<leftarrow> client_round (fst e) a (snd e) f s;
     case n of Goto g \<Rightarrow> client_run a es g s | _ \<Rightarrow> Some (n, s)
   }"

lemma client_run_steps:
  fixes s :: dhcp_main
  assumes "client_run a es f s = Some (Goto g, s')" "\<forall>e \<in> set es. env_fit (fst e)"
  shows "(client_step a)\<^sup>*\<^sup>* (f, s) (g, s')"
  using assms
proof (induction a es f s rule: client_run.induct)
  case (2 a e es f s)
  then obtain n s1 where n: "client_round (fst e) a (snd e) f s = Some (n, s1)"
      "(case n of Goto g \<Rightarrow> client_run a es g s1 | _ \<Rightarrow> Some (n, s1)) = Some (Goto g, s')"
    by (auto simp only: client_run.simps bind_eq_Some_conv split_paired_Ex prod.case)
  then obtain h where h: "n = Goto h" "client_run a es h s1 = Some (Goto g, s')" by (cases n) auto
  have "client_step a (f, s) (h, s1)" by (rule client_step.round [of "fst e"]) (use 2 n(1) h(1) in simp_all)
  moreover have "(client_step a)\<^sup>*\<^sup>* (h, s1) (g, s')" by (rule 2(1) [OF n(1) refl h(1,2)]) (use 2(3) in simp)
  ultimately show ?case by (rule converse_rtranclp_into_rtranclp)
qed simp

section \<open>Nobody answers\<close>

text \<open>What an exchange sends when nothing arrives: the same message, time and again.\<close>

definition more_frames :: "nat \<Rightarrow> (byte list \<Rightarrow> bool) \<Rightarrow> 'a dhcp_client_scheme \<Rightarrow> 'a dhcp_client_scheme \<Rightarrow> bool" where
  "more_frames n P s s' \<longleftrightarrow> (\<exists>f i fs. s' = s\<lparr>dc_send := f, dc_ip_id := i, dc_net := dc_net s @ fs\<rparr> \<and> length fs = n \<and> (\<forall>f \<in> set fs. P f))"

lemma more_frames_0: "more_frames 0 P s s"
  unfolding more_frames_def by (rule exI [of _ "dc_send s"], rule exI [of _ "dc_ip_id s"], rule exI [of _ "[]"]) simp

lemma more_frames_trans: "more_frames m P s t \<Longrightarrow> more_frames n P t u \<Longrightarrow> more_frames (m + n) P s u"
  unfolding more_frames_def by (elim exE conjE, rule exI, rule exI, rule_tac x = "fs @ fsa" in exI) auto

lemma transmit_one:
  assumes "\<not> dc_token s" "sends (build xid s) s dhost src dst m os" "length dhost = ETH_ALEN" "length (dc_hw s) = ETH_ALEN"
  shows "\<exists>l' s'. dhcp_transmit env build xid l s = Some (l', s') \<and> more_frames 1 (\<lambda>f. frame_reads f dhost (dc_hw s) src dst m os) s s'"
proof -
  obtain f where f: "frame_reads f dhost (dc_hw s) src dst m os"
      "build xid s = Some (s\<lparr>dc_send := f @ replicate 964 0, dc_ip_id := dc_ip_id s + 1\<rparr>)"
    using assms(2) by (auto simp: sends_def)
  have l: "length f = 14 + 28 + dhcp_msg_len" using f(1) assms(3,4) by (auto simp: frame_reads_def)
  let ?s' = "s\<lparr>dc_ip_id := dc_ip_id s + 1, dc_send := f @ replicate 964 0, dc_net := dc_net s @ [f]\<rparr>"
  have "more_frames 1 (\<lambda>f. frame_reads f dhost (dc_hw s) src dst m os) s ?s'"
    unfolding more_frames_def
    by (rule exI [of _ "f @ replicate 964 0"], rule exI [of _ "dc_ip_id s + 1"], rule exI [of _ "[f]"]) (use f(1) in simp)
  moreover have "\<exists>l'. dhcp_transmit env build xid l s = Some (l', ?s')" using f(2) assms(1) l by (simp add: dhcp_transmit_def)
  ultimately show ?thesis by blast
qed

definition always_sends :: "(u32 \<Rightarrow> 'a dhcp_client_scheme \<Rightarrow> 'a dhcp_client_scheme run) \<Rightarrow> u32 \<Rightarrow> 'a dhcp_client_scheme \<Rightarrow>
    byte list \<Rightarrow> NID32 \<Rightarrow> NID32 \<Rightarrow> dhcpMessage \<Rightarrow> (byte \<times> byte list) list \<Rightarrow> bool" where
  "always_sends build xid s dhost src dst m os \<longleftrightarrow> (\<forall>f i net.
     (let s = s\<lparr>dc_send := f, dc_ip_id := i, dc_net := net\<rparr> in sends (build xid s) s dhost src dst m os))"

lemma always_sends_more:
  assumes "always_sends build xid s dhost src dst m os" "more_frames n P s s'"
  shows "always_sends build xid s' dhost src dst m os" "sends (build xid s') s' dhost src dst m os"
    "dc_hw s' = dc_hw s" "dc_token s' = dc_token s"
  using assms by (auto simp: always_sends_def more_frames_def Let_def)

lemma listen_quiet:
  assumes "\<not> dc_token s" "always_sends build xid s dhost src dst m os" "length dhost = ETH_ALEN" "length (dc_hw s) = ETH_ALEN"
  shows "\<exists>l' s'. dhcp_listen env a build xid msg l (replicate n Quiet @ es) s = dhcp_listen env a build xid msg l' es s' \<and>
    more_frames n (\<lambda>f. frame_reads f dhost (dc_hw s) src dst m os) s s'"
  using assms
proof (induction n arbitrary: l s)
  case 0
  then show ?case using more_frames_0 by fastforce
next
  case (Suc n)
  let ?P = "\<lambda>f. frame_reads f dhost (dc_hw s) src dst m os"
  obtain l1 s1 where t: "dhcp_transmit env build xid l s = Some (l1, s1)" "more_frames 1 ?P s s1"
    using transmit_one [where build = build and xid = xid, OF Suc.prems(1) always_sends_more(2) [OF Suc.prems(2) more_frames_0] Suc.prems(3,4)]
    by blast
  note k = always_sends_more [OF Suc.prems(2) t(2)]
  obtain l2 s2 where s2: "dhcp_listen env a build xid msg l1 (replicate n Quiet @ es) s1 = dhcp_listen env a build xid msg l2 es s2"
      "more_frames n ?P s1 s2"
    using Suc.IH [of s1 l1] Suc.prems k by auto
  show ?case
    by (rule exI [of _ l2], rule exI [of _ s2]) (use t(1) s2(1) more_frames_trans [OF t(2) s2(2)] in simp)
qed

lemma exchange_quiet:
  assumes "\<not> dc_token s" "always_sends build xid s dhost src dst m os" "length dhost = ETH_ALEN" "length (dc_hw s) = ETH_ALEN"
  shows "\<exists>l' s'. dhcpSendAndRecv env a (replicate n Quiet @ es) xid msg build s = dhcp_listen env a build xid msg l' es s' \<and>
    more_frames (n + 1) (\<lambda>f. frame_reads f dhost (dc_hw s) src dst m os) s s'"
proof -
  let ?P = "\<lambda>f. frame_reads f dhost (dc_hw s) src dst m os"
  let ?l = "\<lparr>lo_j = DHCP_INITIAL_RTO div 2, lo_begin = \<lparr>tv_sec = 0, tv_usec = 0\<rparr>, lo_timeout = 0, lo_n = 0\<rparr>"
  obtain l1 s1 where t: "dhcp_transmit env build xid ?l s = Some (l1, s1)" "more_frames 1 ?P s s1"
    using transmit_one [where build = build and xid = xid, OF assms(1) always_sends_more(2) [OF assms(2) more_frames_0] assms(3,4)] by blast
  note k = always_sends_more [OF assms(2) t(2)]
  obtain l2 s2 where s2: "dhcp_listen env a build xid msg l1 (replicate n Quiet @ es) s1 = dhcp_listen env a build xid msg l2 es s2"
      "more_frames n ?P s1 s2"
    using listen_quiet [of s1 build xid dhost src dst m os env a msg l1 n es] assms k by auto
  have "dhcpSendAndRecv env a (replicate n Quiet @ es) xid msg build s = dhcp_listen env a build xid msg l2 es s2"
    using t(1) s2(1) by (simp add: dhcpSendAndRecv_def)
  then show ?thesis using more_frames_trans [OF t(2) s2(2)] by auto
qed

lemma exchange_silent:
  assumes "\<not> dc_token s" "always_sends build xid s dhost src dst m os" "length dhost = ETH_ALEN" "length (dc_hw s) = ETH_ALEN"
  shows "\<exists>s'. dhcpSendAndRecv env a (replicate n Quiet) xid msg build s = Some (Waiting, s') \<and>
    more_frames (n + 1) (\<lambda>f. frame_reads f dhost (dc_hw s) src dst m os) s s'"
  using exchange_quiet [OF assms, of env a n "[]" msg] by auto

text \<open>The messages of the client that holds a lease, which every state sends alike.\<close>

definition renew_frame :: "dhcp_args \<Rightarrow> u32 \<Rightarrow> 'a dhcp_client_scheme \<Rightarrow> byte list \<Rightarrow> bool" where
  "renew_frame a xid s f \<longleftrightarrow> (let i = dc_iface s in frame_reads f (di_shaddr i) (dc_hw s) (di_ciaddr i) (di_siaddr i)
     ((waiting a (new_msg xid s))\<lparr>dm_ciaddr := di_ciaddr i\<rparr>) (head_os DHCP_REQUEST @ tail_os a i))"

definition rebind_frame :: "dhcp_args \<Rightarrow> u32 \<Rightarrow> 'a dhcp_client_scheme \<Rightarrow> byte list \<Rightarrow> bool" where
  "rebind_frame a xid s f \<longleftrightarrow> (let i = dc_iface s in frame_reads f MAC_BCAST_ADDR (dc_hw s) (di_ciaddr i) INADDR_BROADCAST
     ((waiting a (new_msg xid s))\<lparr>dm_ciaddr := di_ciaddr i\<rparr>) ((head_os DHCP_REQUEST @ lease_os (dc_opts s)) @ tail_os a i))"

lemma new_msg_same:
  "new_msg xid (s\<lparr>dc_send := f, dc_ip_id := i, dc_net := net\<rparr>) = new_msg xid s"
  by (simp add: new_msg_def hw_type_def)

lemma renew_always:
  assumes "iface_ok (dc_iface s)" "args_ok a" "length (dc_hw s) = ETH_ALEN"
  shows "always_sends (buildDhcpRenew a) xid s (di_shaddr (dc_iface s)) (di_ciaddr (dc_iface s)) (di_siaddr (dc_iface s))
    ((waiting a (new_msg xid s))\<lparr>dm_ciaddr := di_ciaddr (dc_iface s)\<rparr>) (head_os DHCP_REQUEST @ tail_os a (dc_iface s))"
  unfolding always_sends_def Let_def
proof (intro allI)
  fix f i net
  show "sends (buildDhcpRenew a xid (s\<lparr>dc_send := f, dc_ip_id := i, dc_net := net\<rparr>)) (s\<lparr>dc_send := f, dc_ip_id := i, dc_net := net\<rparr>)
    (di_shaddr (dc_iface s)) (di_ciaddr (dc_iface s)) (di_siaddr (dc_iface s))
    ((waiting a (new_msg xid s))\<lparr>dm_ciaddr := di_ciaddr (dc_iface s)\<rparr>) (head_os DHCP_REQUEST @ tail_os a (dc_iface s))"
    using renew_sends [of "s\<lparr>dc_send := f, dc_ip_id := i, dc_net := net\<rparr>" a xid] assms by (simp add: new_msg_same)
qed

lemma rebind_always:
  assumes "iface_ok (dc_iface s)" "args_ok a" "length (dc_hw s) = ETH_ALEN" "timers_ok (dc_opts s)"
  shows "always_sends (buildDhcpRebind a) xid s MAC_BCAST_ADDR (di_ciaddr (dc_iface s)) INADDR_BROADCAST
    ((waiting a (new_msg xid s))\<lparr>dm_ciaddr := di_ciaddr (dc_iface s)\<rparr>) ((head_os DHCP_REQUEST @ lease_os (dc_opts s)) @ tail_os a (dc_iface s))"
  unfolding always_sends_def Let_def
proof (intro allI)
  fix f i net
  have "\<forall>v. do_val (dc_opts s) dhcpIPaddrLeaseTime = Some v \<longrightarrow> 4 \<le> length v"
    using assms(4) by (auto simp: timers_ok_def word_at_def split: if_splits)
  then show "sends (buildDhcpRebind a xid (s\<lparr>dc_send := f, dc_ip_id := i, dc_net := net\<rparr>)) (s\<lparr>dc_send := f, dc_ip_id := i, dc_net := net\<rparr>)
    MAC_BCAST_ADDR (di_ciaddr (dc_iface s)) INADDR_BROADCAST
    ((waiting a (new_msg xid s))\<lparr>dm_ciaddr := di_ciaddr (dc_iface s)\<rparr>) ((head_os DHCP_REQUEST @ lease_os (dc_opts s)) @ tail_os a (dc_iface s))"
    using rebind_sends [of "s\<lparr>dc_send := f, dc_ip_id := i, dc_net := net\<rparr>" a xid] assms(1-3) by (simp add: new_msg_same)
qed

text \<open>A timer that runs for less than \<open>2 ^ 31\<close> seconds more.\<close>

definition runs :: "client_env \<Rightarrow> byte \<Rightarrow> 'a dhcp_proc_scheme \<Rightarrow> bool" where
  "runs env c s \<longleftrightarrow> (case word_at (do_val (dc_opts s) c) of
     Some t \<Rightarrow> (let i = dp_ReqSentTime s + uint t - ev_now env 0 in 0 < i \<and> i < 2 ^ 31) | None \<Rightarrow> False)"

lemma int32_small: "0 < i \<Longrightarrow> i < 2 ^ 31 \<Longrightarrow> int32 i = i"
  by (simp add: int32_def signed_take_bit_int_eq_self sint_sbintrunc')

lemma runs_left: "runs env c s \<Longrightarrow> \<exists>i. timer_left env c s = Some i \<and> 0 < i"
proof -
  assume r: "runs env c s"
  then obtain t where t: "word_at (do_val (dc_opts s) c) = Some t" by (auto simp: runs_def split: option.splits)
  then have "0 < dp_ReqSentTime s + uint t - ev_now env 0" "dp_ReqSentTime s + uint t - ev_now env 0 < 2 ^ 31"
    using r by (auto simp: runs_def Let_def)
  then have "int32 (dp_ReqSentTime s + uint t - ev_now env 0) = dp_ReqSentTime s + uint t - ev_now env 0"
    by (simp only: int32_small)
  then show ?thesis using t \<open>0 < _\<close> by (simp add: timer_left_def)
qed

lemma runs_same:
  fixes s :: "'a dhcp_proc_scheme" and s' :: "'b dhcp_proc_scheme"
  shows "dc_opts s' = dc_opts s \<Longrightarrow> dp_ReqSentTime s' = dp_ReqSentTime s \<Longrightarrow> runs env c s' = runs env c s"
  by (simp only: runs_def)

text \<open>The rounds of a client that holds a lease when nobody answers.\<close>

lemma silent_bound:
  assumes "runs env dhcpT1value s"
  shows "client_round env a ack Bound s = Some (Goto Renew, s\<lparr>pr_alarm := False\<rparr>)"
  using runs_left [OF assms] by (auto simp: client_round_def run_state_def dhcpBound_def)

lemma silent_renew:
  assumes "ids_ok s" "args_ok a" "\<not> dc_token s" "runs env dhcpT2value s" "ev_events env = replicate n Quiet"
  shows "\<exists>s'. client_round env a ack Renew s = Some (Goto Rebind, s'\<lparr>pr_alarm := False\<rparr>) \<and>
    more_frames (n + 1) (renew_frame a (ev_xid env) s) (s\<lparr>pr_alarm := True\<rparr>) s'"
proof -
  let ?s = "s\<lparr>pr_alarm := True\<rparr>"
  obtain i where i: "timer_left env dhcpT2value s = Some i" "0 < i" using runs_left [OF assms(4)] by blast
  have ids: "iface_ok (dc_iface ?s)" "length (dc_hw ?s) = ETH_ALEN" "length (di_shaddr (dc_iface ?s)) = ETH_ALEN" "\<not> dc_token ?s"
    using assms(1,3) by (simp_all add: ids_ok_def iface_ok_def)
  obtain s' where s': "dhcpSendAndRecv env a (replicate n Quiet) (ev_xid env) DHCP_ACK (buildDhcpRenew a) ?s = Some (Waiting, s')"
      "more_frames (n + 1) (renew_frame a (ev_xid env) ?s) ?s s'"
    using exchange_silent [OF ids(4) renew_always [OF ids(1) assms(2) ids(2)] ids(3,2), of env a n "ev_xid env" DHCP_ACK]
    by (auto simp: renew_frame_def [abs_def] Let_def)
  have "renew_frame a (ev_xid env) ?s = renew_frame a (ev_xid env) s"
    by (simp add: renew_frame_def [abs_def] new_msg_def hw_type_def)
  then show ?thesis using i s' assms(5) by (auto simp: client_round_def run_state_def dhcpRenew_def)
qed

lemma silent_rebind:
  assumes "ids_ok s" "args_ok a" "timers_ok (dc_opts s)" "\<not> dc_token s" "runs env dhcpIPaddrLeaseTime s" "ev_events env = replicate n Quiet"
  shows "\<exists>s'. client_round env a ack Rebind s = Some (Goto Stop, s'\<lparr>pr_alarm := False\<rparr>) \<and>
    more_frames (n + 1) (rebind_frame a (ev_xid env) s) (s\<lparr>pr_alarm := True\<rparr>) s'"
proof -
  let ?s = "s\<lparr>pr_alarm := True\<rparr>"
  obtain i where i: "timer_left env dhcpIPaddrLeaseTime s = Some i" "0 < i" using runs_left [OF assms(5)] by blast
  have ids: "iface_ok (dc_iface ?s)" "length (dc_hw ?s) = ETH_ALEN" "\<not> dc_token ?s" "timers_ok (dc_opts ?s)"
    using assms(1,3,4) by (simp_all add: ids_ok_def)
  have mac: "length MAC_BCAST_ADDR = ETH_ALEN" by simp
  obtain s' where s': "dhcpSendAndRecv env a (replicate n Quiet) (ev_xid env) DHCP_ACK (buildDhcpRebind a) ?s = Some (Waiting, s')"
      "more_frames (n + 1) (rebind_frame a (ev_xid env) ?s) ?s s'"
    using exchange_silent [OF ids(3) rebind_always [OF ids(1) assms(2) ids(2,4)] mac ids(2), of env a n "ev_xid env" DHCP_ACK]
    by (auto simp: rebind_frame_def [abs_def] Let_def)
  have "rebind_frame a (ev_xid env) ?s = rebind_frame a (ev_xid env) s"
    by (simp add: rebind_frame_def [abs_def] new_msg_def hw_type_def)
  then show ?thesis using i s' assms(6) by (auto simp: client_round_def run_state_def dhcpRebind_def)
qed


end
