(* ===== verification/DHCP_Values.thy ===== *)
theory DHCP_Values
  imports DHCP_Config
begin

text \<open>
  The values of the options in the DHCP client: what a server that writes them as the protocol says puts into them, that the walk and
  the filling in keep it, over any number of messages, and that with such values the set-up of the interface goes through.
\<close>

section \<open>Values of the right length\<close>

text \<open>The lengths the protocol has for the options the client reads as addresses or numbers.\<close>

definition opt_shape :: "byte \<Rightarrow> nat \<Rightarrow> bool" where
  "opt_shape c n \<longleftrightarrow> 0 < n \<and>
     (c \<in> {subnetMask, broadcastAddr, dhcpIPaddrLeaseTime, dhcpServerIdentifier, dhcpT1value, dhcpT2value} \<longrightarrow> n = 4) \<and>
     (c \<in> {routersOnSubnet, dnsOption, nisServers, ntpServers} \<longrightarrow> 4 dvd n) \<and> (c = staticRoute \<longrightarrow> 8 dvd n)"

text \<open>The options the client fills in when the server leaves them out.\<close>

definition filled_in :: "byte set" where
  "filled_in = {dhcpServerIdentifier, dnsOption, subnetMask, broadcastAddr, dhcpIPaddrLeaseTime, dhcpT1value, dhcpT2value}"

definition shaped :: "dhcp_options \<Rightarrow> bool" where
  "shaped opts \<longleftrightarrow> opts_ok opts \<and> (\<forall>c v. do_val opts c = Some v \<longrightarrow> opt_shape c (unat (do_len opts c))) \<and>
     (\<forall>c. c \<notin> filled_in \<longrightarrow> opt_text opts c)"

text \<open>The options of a message.\<close>

definition reply_ok :: "(byte \<times> byte list) list \<Rightarrow> bool" where
  "reply_ok os \<longleftrightarrow> plain_options os \<and> length (enc_options os) \<le> 307 \<and> (\<forall>(c, d) \<in> set os. opt_shape c (length d))"

lemma shaped_release [simp]: "shaped (releaseDhcpOptions opts)"
  using opts_ok_release by (simp add: shaped_def) (simp add: releaseDhcpOptions_def)

lemma shapedD:
  assumes "shaped opts" "do_val opts c = Some v"
  shows "opt_shape c (unat (do_len opts c))" "unat (do_len opts c) \<le> length v" "0 < unat (do_len opts c)"
proof -
  show "opt_shape c (unat (do_len opts c))" using assms by (simp add: shaped_def)
  then show "0 < unat (do_len opts c)" by (simp add: opt_shape_def)
  show "unat (do_len opts c) \<le> length v" using assms by (simp add: shaped_def opts_ok_def)
qed

lemma shaped_len0: "shaped opts \<Longrightarrow> do_len opts c = 0 \<longleftrightarrow> do_val opts c = None"
  using shapedD(3) [of opts c] by (cases "do_val opts c") (auto simp: shaped_def opts_ok_def)

text \<open>A value that is read as a number can be.\<close>

lemma shaped_word:
  assumes "shaped opts" "do_val opts c = Some v" "c \<in> filled_in"
  shows "\<exists>w. word_at (do_val opts c) = Some w"
proof -
  have "unat (do_len opts c) = 4 \<or> 4 dvd unat (do_len opts c)"
    using shapedD(1) [OF assms(1,2)] assms(3) unfolding opt_shape_def filled_in_def by blast
  then have "4 \<le> unat (do_len opts c)" using dvd_imp_le shapedD(3) [OF assms(1,2)] by auto
  then show ?thesis using shapedD(2) [OF assms(1,2)] assms(2) word_at_ok by simp
qed

lemma word_at_Some: "word_at v = Some w \<Longrightarrow> v \<noteq> None"
  by (cases v) (auto simp: word_at_def)

lemma word_at_quad: "length d = 4 \<Longrightarrow> word_at (Some (d @ z)) = Some (be_word d)"
  by (simp add: word_at_def)

section \<open>The walk\<close>

lemma opt_zero_shaped:
  assumes "shaped opts" "c \<in> filled_in"
  shows "\<exists>opts'. opt_zero c opts = Some opts' \<and> shaped opts' \<and> do_len opts' = do_len opts \<and>
    (\<forall>c'. c' \<noteq> c \<longrightarrow> do_val opts' c' = do_val opts c') \<and>
    do_val opts' c = map_option (overlay (replicate (unat (do_len opts c)) 0)) (do_val opts c)"
proof (cases "do_val opts c")
  case None
  then show ?thesis using assms(1) by (simp add: opt_zero_def)
next
  case (Some v)
  note d = shapedD [OF assms(1) Some]
  let ?o = "opts\<lparr>do_val := (do_val opts)(c \<mapsto> overlay (replicate (unat (do_len opts c)) 0) v)\<rparr>"
  have "0 < do_len opts c" using d(3) by (simp add: unat_gt_0 word_greater_zero_iff)
  then have "opt_zero c opts = Some ?o" using Some d(2) by (simp add: opt_zero_def)
  moreover have "shaped ?o" using assms d Some
    by (auto simp: shaped_def opts_ok_def opt_text_def overlay_def)
  ultimately show ?thesis using Some by auto
qed

lemma walk_shaped:
  assumes ok: "shaped opts" and os: "reply_ok os" "length cookie = 4"
  shows "\<exists>o1. (do {opts \<leftarrow> opt_zero dhcpT1value opts; opts \<leftarrow> opt_zero dhcpT2value opts;
       parse_options (312 - 4) (drop 4 (options_field cookie os rest)) opts}) = Some o1 \<and> shaped o1 \<and>
    (\<forall>c. case opt_last os c of
       Some d \<Rightarrow> do_len o1 c = of_nat (length d) \<and> (\<exists>z. do_val o1 c = Some (d @ z))
     | None \<Rightarrow> do_len o1 c = do_len opts c \<and> (if c \<in> {dhcpT1value, dhcpT2value}
         then do_val o1 c = map_option (overlay (replicate (unat (do_len opts c)) 0)) (do_val opts c) else do_val o1 c = do_val opts c))"
proof -
  obtain a where a: "opt_zero dhcpT1value opts = Some a" "shaped a" "do_len a = do_len opts"
      "\<forall>c'. c' \<noteq> dhcpT1value \<longrightarrow> do_val a c' = do_val opts c'"
      "do_val a dhcpT1value = map_option (overlay (replicate (unat (do_len opts dhcpT1value)) 0)) (do_val opts dhcpT1value)"
    using opt_zero_shaped [OF ok, of dhcpT1value] by (auto simp: filled_in_def)
  obtain b where b: "opt_zero dhcpT2value a = Some b" "shaped b" "do_len b = do_len a"
      "\<forall>c'. c' \<noteq> dhcpT2value \<longrightarrow> do_val b c' = do_val a c'"
      "do_val b dhcpT2value = map_option (overlay (replicate (unat (do_len a dhcpT2value)) 0)) (do_val a dhcpT2value)"
    using opt_zero_shaped [OF a(2), of dhcpT2value] by (auto simp: filled_in_def)
  have p: "opts_ok b" "plain_options os" "length (enc_options os) < 312 - 4"
    using b(2) os(1) by (simp_all add: shaped_def reply_ok_def)
  obtain o1 where o1: "parse_options (312 - 4) (enc_options os @ endOption # rest) b = Some o1" "opts_ok o1"
      "\<And>c. case opt_last os c of
       Some d \<Rightarrow> do_len o1 c = of_nat (length d) \<and> (\<exists>z. do_val o1 c = Some (d @ z) \<and> (opt_text b c \<longrightarrow> z = [0]))
     | None \<Rightarrow> do_len o1 c = do_len b c \<and> do_val o1 c = do_val b c"
    using parse_options_encoded [OF p, of rest] by blast
  have os': "opt_shape c (length d) \<and> unat (of_nat (length d) :: byte) = length d" if "opt_last os c = Some d" for c d
    using map_of_SomeD [OF that] os(1) unat_len [of d] by (auto simp: reply_ok_def plain_options_def)
  have "opt_shape c (unat (do_len o1 c))" if v: "do_val o1 c = Some v" for c v
  proof (cases "opt_last os c")
    case None
    then have "do_len o1 c = do_len b c" "do_val b c = Some v" using o1(3) [of c] v by simp_all
    then show ?thesis using shapedD(1) [OF b(2)] by simp
  next
    case (Some d)
    then show ?thesis using o1(3) [of c] os' [OF Some] by simp
  qed
  moreover have "opt_text o1 c" if "c \<notin> filled_in" for c
  proof (cases "opt_last os c")
    case None
    then show ?thesis using o1(3) [of c] b(2) that by (simp add: shaped_def opt_text_def)
  next
    case (Some d)
    then show ?thesis using o1(3) [of c] os' [OF Some] b(2) that by (auto simp: shaped_def opt_text_def)
  qed
  ultimately have sh: "shaped o1" using o1(2) by (simp add: shaped_def)
  have bt: "do_val b c = (if c \<in> {dhcpT1value, dhcpT2value}
      then map_option (overlay (replicate (unat (do_len opts c)) 0)) (do_val opts c) else do_val opts c)" for c
    using a(3-5) b(3-5) by auto
  have "case opt_last os c of
       Some d \<Rightarrow> do_len o1 c = of_nat (length d) \<and> (\<exists>z. do_val o1 c = Some (d @ z))
     | None \<Rightarrow> do_len o1 c = do_len opts c \<and> (if c \<in> {dhcpT1value, dhcpT2value}
         then do_val o1 c = map_option (overlay (replicate (unat (do_len opts c)) 0)) (do_val opts c) else do_val o1 c = do_val opts c)" for c
    using o1(3) [of c] bt [of c] a(3) b(3) by (cases "opt_last os c") auto
  then show ?thesis using a(1) b(1) o1(1) sh os(2) by (simp add: options_field_def)
qed

section \<open>Filling in\<close>

lemma shaped_new:
  assumes "shaped opts" "c \<in> filled_in"
  shows "shaped (opt_new c 4 (be_bytes 4 w) opts)"
  using assms by (auto simp: shaped_def opt_new_def opts_ok_def opt_text_def opt_shape_def filled_in_def)

lemma default_shaped:
  assumes "shaped opts" "c \<in> filled_in" "do_val opts c = None \<Longrightarrow> v = Some w"
  shows "\<exists>opts'. default_opt c v opts = Some opts' \<and> shaped opts' \<and> do_val opts' c \<noteq> None \<and> (do_val opts c \<noteq> None \<longrightarrow> opts' = opts) \<and>
    (\<forall>c'. c' \<noteq> c \<longrightarrow> do_val opts' c' = do_val opts c' \<and> do_len opts' c' = do_len opts c')"
proof (cases "do_val opts c")
  case None
  then show ?thesis using assms shaped_new [OF assms(1,2), of w] by (simp add: default_opt_def) (simp add: opt_new_def)
next
  case (Some u)
  then show ?thesis using assms(1) by (simp add: default_opt_def)
qed

lemma timer_shaped:
  assumes ok: "shaped opts" and c: "c \<in> {dhcpIPaddrLeaseTime, dhcpT1value, dhcpT2value}"
  shows "\<exists>opts'. timer_opt c (Some w) opts = Some opts' \<and> shaped opts' \<and>
    word_at (do_val opts' c) = Some (case word_at (do_val opts c) of None \<Rightarrow> w | Some u \<Rightarrow> if u = 0 then w else u) \<and>
    (\<forall>c'. c' \<noteq> c \<longrightarrow> do_val opts' c' = do_val opts c' \<and> do_len opts' c' = do_len opts c')"
proof (cases "do_val opts c")
  case None
  have "c \<in> filled_in" using c by (auto simp: filled_in_def)
  moreover have "word_at None = None" by (simp add: word_at_def)
  ultimately show ?thesis using None shaped_new [OF ok, of c w] by (simp add: timer_opt_def) (simp add: opt_new_def)
next
  case (Some v)
  have f: "c \<in> filled_in" using c by (auto simp: filled_in_def)
  have "unat (do_len opts c) = 4" using shapedD(1) [OF ok Some] c by (auto simp: opt_shape_def)
  then have "unat (do_len opts c) = unat (4 :: byte)" "4 \<le> length v" using shapedD(2) [OF ok Some] by simp_all
  then have l: "do_len opts c = 4" "4 \<le> length v" by (simp_all only: word_unat_eq_iff)
  obtain u where u: "word_at (Some v) = Some u" using word_at_ok [OF l(2)] by blast
  let ?o = "opts\<lparr>do_val := (do_val opts)(c \<mapsto> overlay (be_bytes 4 w) v)\<rparr>"
  show ?thesis
  proof (cases "u = 0")
    case True
    have "shaped ?o" using ok Some l f by (auto simp: shaped_def opts_ok_def opt_text_def overlay_def)
    then show ?thesis using True Some l u by (simp add: timer_opt_def overlay_def)
  next
    case False
    then show ?thesis using ok Some l u by (simp add: timer_opt_def)
  qed
qed

text \<open>
  All of it: the values the options had stay, but for a zero lease time or timer, which gets what one left out gets; and afterwards there
  is a value for each.
\<close>

definition timer_value :: "u32 run \<Rightarrow> u32 \<Rightarrow> u32" where
  "timer_value given w = (case given of None \<Rightarrow> w | Some u \<Rightarrow> if u = 0 then w else u)"

lemma fill_shaped:
  assumes ok: "shaped opts"
  shows "\<exists>opts' l. fill_options lease ip_src yiaddr opts = Some opts' \<and> shaped opts' \<and>
    (\<forall>c \<in> filled_in. do_val opts' c \<noteq> None) \<and>
    (\<forall>c. c \<notin> filled_in \<longrightarrow> do_val opts' c = do_val opts c \<and> do_len opts' c = do_len opts c) \<and>
    (\<forall>c \<in> {dhcpServerIdentifier, dnsOption, subnetMask, broadcastAddr}. do_val opts c \<noteq> None \<longrightarrow> do_val opts' c = do_val opts c) \<and>
    (do_val opts dhcpServerIdentifier = None \<longrightarrow> word_at (do_val opts' dhcpServerIdentifier) = Some ip_src) \<and>
    l = timer_value (word_at (do_val opts dhcpIPaddrLeaseTime)) lease \<and>
    word_at (do_val opts' dhcpIPaddrLeaseTime) = Some l \<and>
    word_at (do_val opts' dhcpT1value) = Some (timer_value (word_at (do_val opts dhcpT1value)) (t1_of l)) \<and>
    word_at (do_val opts' dhcpT2value) = Some (timer_value (word_at (do_val opts dhcpT2value)) (t2_of l))"
proof -
  note f = filled_in_def
  obtain o1 where o1: "default_opt dhcpServerIdentifier (Some ip_src) opts = Some o1" "shaped o1" "do_val o1 dhcpServerIdentifier \<noteq> None"
      "do_val opts dhcpServerIdentifier \<noteq> None \<longrightarrow> o1 = opts"
      "\<forall>c. c \<noteq> dhcpServerIdentifier \<longrightarrow> do_val o1 c = do_val opts c \<and> do_len o1 c = do_len opts c"
    using default_shaped [OF ok, of dhcpServerIdentifier "Some ip_src" ip_src] by (auto simp: f)
  obtain sid where sid: "word_at (do_val o1 dhcpServerIdentifier) = Some sid"
    using shaped_word [where c = dhcpServerIdentifier, OF o1(2)] o1(3) by (auto simp: f)
  have src: "do_val opts dhcpServerIdentifier = None \<longrightarrow> word_at (do_val o1 dhcpServerIdentifier) = Some ip_src"
    using o1(1) by (auto simp: default_opt_def opt_new_def)
  obtain o2 where o2: "default_opt dnsOption (Some sid) o1 = Some o2" "shaped o2" "do_val o2 dnsOption \<noteq> None"
      "do_val o1 dnsOption \<noteq> None \<longrightarrow> o2 = o1"
      "\<forall>c. c \<noteq> dnsOption \<longrightarrow> do_val o2 c = do_val o1 c \<and> do_len o2 c = do_len o1 c"
    using default_shaped [OF o1(2), of dnsOption "Some sid" sid] by (auto simp: f)
  obtain o3 where o3: "default_opt subnetMask (Some (class_mask yiaddr)) o2 = Some o3" "shaped o3" "do_val o3 subnetMask \<noteq> None"
      "do_val o2 subnetMask \<noteq> None \<longrightarrow> o3 = o2"
      "\<forall>c. c \<noteq> subnetMask \<longrightarrow> do_val o3 c = do_val o2 c \<and> do_len o3 c = do_len o2 c"
    using default_shaped [OF o2(2), of subnetMask "Some (class_mask yiaddr)" "class_mask yiaddr"] by (auto simp: f)
  obtain m where m: "word_at (do_val o3 subnetMask) = Some m"
    using shaped_word [where c = subnetMask, OF o3(2)] o3(3) by (auto simp: f)
  obtain o4 where o4: "default_opt broadcastAddr (Some (yiaddr OR NOT m)) o3 = Some o4" "shaped o4" "do_val o4 broadcastAddr \<noteq> None"
      "do_val o3 broadcastAddr \<noteq> None \<longrightarrow> o4 = o3"
      "\<forall>c. c \<noteq> broadcastAddr \<longrightarrow> do_val o4 c = do_val o3 c \<and> do_len o4 c = do_len o3 c"
    using default_shaped [OF o3(2), of broadcastAddr "Some (yiaddr OR NOT m)" "yiaddr OR NOT m"] by (auto simp: f)
  obtain o5 l where o5: "timer_opt dhcpIPaddrLeaseTime (Some lease) o4 = Some o5" "shaped o5"
      "word_at (do_val o5 dhcpIPaddrLeaseTime) = Some l" "l = timer_value (word_at (do_val o4 dhcpIPaddrLeaseTime)) lease"
      "\<forall>c. c \<noteq> dhcpIPaddrLeaseTime \<longrightarrow> do_val o5 c = do_val o4 c \<and> do_len o5 c = do_len o4 c"
    using timer_shaped [OF o4(2), of dhcpIPaddrLeaseTime lease] by (auto simp: timer_value_def)
  obtain o6 where o6: "timer_opt dhcpT1value (Some (t1_of l)) o5 = Some o6" "shaped o6"
      "word_at (do_val o6 dhcpT1value) = Some (timer_value (word_at (do_val o5 dhcpT1value)) (t1_of l))"
      "\<forall>c. c \<noteq> dhcpT1value \<longrightarrow> do_val o6 c = do_val o5 c \<and> do_len o6 c = do_len o5 c"
    using timer_shaped [OF o5(2), of dhcpT1value "t1_of l"] by (auto simp: timer_value_def)
  obtain o7 where o7: "timer_opt dhcpT2value (Some (t2_of l)) o6 = Some o7" "shaped o7"
      "word_at (do_val o7 dhcpT2value) = Some (timer_value (word_at (do_val o6 dhcpT2value)) (t2_of l))"
      "\<forall>c. c \<noteq> dhcpT2value \<longrightarrow> do_val o7 c = do_val o6 c \<and> do_len o7 c = do_len o6 c"
    using timer_shaped [OF o6(2), of dhcpT2value "t2_of l"] by (auto simp: timer_value_def)
  have run: "fill_options lease ip_src yiaddr opts = Some o7"
    using o1(1) sid o2(1) o3(1) m o4(1) o5(1,3) o6(1,4) o7(1) by (simp add: fill_options_def)
  have same: "do_val o7 c = do_val opts c \<and> do_len o7 c = do_len opts c" if "c \<notin> filled_in" for c
    using that o1(5) o2(5) o3(5) o4(5) o5(5) o6(4) o7(4) by (simp add: f)
  have bk: "do_val o7 c = do_val o4 c" if "c \<in> {dhcpServerIdentifier, dnsOption, subnetMask, broadcastAddr}" for c
    using that o5(5) o6(4) o7(4) by auto
  have r4: "do_val o4 dhcpServerIdentifier = do_val o1 dhcpServerIdentifier" "do_val o4 dnsOption = do_val o2 dnsOption"
      "do_val o4 subnetMask = do_val o3 subnetMask" "do_val o4 dhcpIPaddrLeaseTime = do_val opts dhcpIPaddrLeaseTime"
    using o1(5) o2(5) o3(5) o4(5) by simp_all
  have keep: "\<forall>c \<in> {dhcpServerIdentifier, dnsOption, subnetMask, broadcastAddr}. do_val opts c \<noteq> None \<longrightarrow> do_val o7 c = do_val opts c"
  proof (intro ballI impI)
    fix c assume c: "c \<in> {dhcpServerIdentifier, dnsOption, subnetMask, broadcastAddr}" "do_val opts c \<noteq> None"
    have "do_val o4 c = do_val opts c"
      using c o1(4,5) o2(4,5) o3(4,5) o4(4,5) r4 by (elim insertE) simp_all
    then show "do_val o7 c = do_val opts c" using bk [OF c(1)] by simp
  qed
  have t: "do_val o5 dhcpT1value = do_val opts dhcpT1value" "do_val o6 dhcpT2value = do_val opts dhcpT2value"
      "do_val o7 dhcpT1value = do_val o6 dhcpT1value" "do_val o7 dhcpIPaddrLeaseTime = do_val o5 dhcpIPaddrLeaseTime"
      "do_val o7 dhcpServerIdentifier = do_val o1 dhcpServerIdentifier"
    using o1(5) o2(5) o3(5) o4(5) o5(5) o6(4) o7(4) by simp_all
  have some: "\<forall>c \<in> filled_in. do_val o7 c \<noteq> None"
    using o1(3) o2(3) o3(3) o4(3) word_at_Some [OF o5(3)] word_at_Some [OF o6(3)] word_at_Some [OF o7(3)] t r4 bk by (auto simp: f)
  show ?thesis
    by (rule exI [of _ o7], rule exI [of _ l]) (use run o7(2) some same keep src o5(3,4) o6(3) o7(3) t r4 in simp)
qed

section \<open>Messages\<close>

lemma reply_okD:
  assumes "reply_ok os" "opt_last os c = Some d"
  shows "opt_shape c (length d)" "0 < length d" "length d < 256"
  using map_of_SomeD [OF assms(2)] assms(1) by (auto simp: reply_ok_def plain_options_def)

text \<open>
  Reading a message into such values. The server's identifier, the mask and the broadcast address are those of the message, where
  it has them; the timers are those of the message or follow from its lease time, whatever the last message left; an acknowledgement is
  passed on to the daemon.
\<close>

lemma parse_shaped:
  assumes ok: "shaped (dc_opts s)" and os: "reply_ok os" "length cookie = 4" and ty: "opt_last os dhcpMessageType = Some [t]"
    and ack: "t = DHCP_ACK \<longrightarrow> opt_last os rootPath = Some (bytes_of path)" "no_nul path"
  shows "\<exists>s' l pad. parseDhcpMsgRecv lease ciaddr ip_src yiaddr (options_field cookie os rest) s = Some (t, s') \<and>
    shaped (dc_opts s') \<and> (\<forall>c \<in> filled_in. do_val (dc_opts s') c \<noteq> None) \<and> dc_yiaddr s' = (if yiaddr = 0 then ciaddr else yiaddr) \<and>
    dc_out s' = dc_out s @ (if t = DHCP_ACK then [bytes_of (path @ inet_ntop4 yiaddr @ ''|'') @ pad] else []) \<and>
    pad \<noteq> [] \<and> (\<forall>b \<in> set pad. b = 0) \<and>
    (\<forall>c \<in> {dhcpServerIdentifier, subnetMask, broadcastAddr}. \<forall>d. opt_last os c = Some d \<longrightarrow> word_at (do_val (dc_opts s') c) = Some (be_word d)) \<and>
    l = timer_value (case opt_last os dhcpIPaddrLeaseTime of Some d \<Rightarrow> Some (be_word d)
          | None \<Rightarrow> word_at (do_val (dc_opts s) dhcpIPaddrLeaseTime)) lease \<and>
    word_at (do_val (dc_opts s') dhcpIPaddrLeaseTime) = Some l \<and>
    word_at (do_val (dc_opts s') dhcpT1value) = Some (timer_value (map_option be_word (opt_last os dhcpT1value)) (t1_of l)) \<and>
    word_at (do_val (dc_opts s') dhcpT2value) = Some (timer_value (map_option be_word (opt_last os dhcpT2value)) (t2_of l))"
proof -
  from walk_shaped [OF ok os, of rest] obtain o1 where w: "(do {opts \<leftarrow> opt_zero dhcpT1value (dc_opts s);
        opts \<leftarrow> opt_zero dhcpT2value opts; parse_options (312 - 4) (drop 4 (options_field cookie os rest)) opts}) = Some o1" "shaped o1"
      "\<And>c. (case opt_last os c of
       Some d \<Rightarrow> do_len o1 c = of_nat (length d) \<and> (\<exists>z. do_val o1 c = Some (d @ z))
     | None \<Rightarrow> do_len o1 c = do_len (dc_opts s) c \<and> (if c \<in> {dhcpT1value, dhcpT2value}
         then do_val o1 c = map_option (overlay (replicate (unat (do_len (dc_opts s) c)) 0)) (do_val (dc_opts s) c)
         else do_val o1 c = do_val (dc_opts s) c))" by blast
  obtain z where tv: "do_val o1 dhcpMessageType = Some (t # z)" using w(3) [of dhcpMessageType] ty by auto
  have quad: "word_at (do_val o1 c) = Some (be_word d)"
    if "opt_last os c = Some d" "c \<in> {subnetMask, broadcastAddr, dhcpIPaddrLeaseTime, dhcpServerIdentifier, dhcpT1value, dhcpT2value}" for c d
  proof -
    have "length d = 4" using reply_okD(1) [OF os(1) that(1)] that(2) unfolding opt_shape_def by blast
    then show ?thesis using w(3) [of c] that(1) word_at_quad by auto
  qed
  have cleared: "timer_value (word_at (do_val o1 c)) v = timer_value (map_option be_word (opt_last os c)) v"
    if "c \<in> {dhcpT1value, dhcpT2value}" for c v
  proof (cases "opt_last os c")
    case (Some d)
    then show ?thesis using quad [OF Some] that by auto
  next
    case None
    then have c: "do_val o1 c = map_option (overlay (replicate (unat (do_len (dc_opts s) c)) 0)) (do_val (dc_opts s) c)"
      using w(3) [of c] that by simp
    show ?thesis
    proof (cases "do_val (dc_opts s) c")
      case None
      then show ?thesis using c \<open>opt_last os c = None\<close> by (simp add: timer_value_def word_at_def)
    next
      case (Some v')
      have "unat (do_len (dc_opts s) c) = 4" using shapedD(1) [OF ok Some] that by (auto simp: opt_shape_def)
      moreover have "word_at (Some (replicate 4 0 @ y)) = Some 0" for y
      proof -
        have "replicate 4 (0 :: byte) = [0, 0, 0, 0]" by (simp add: numeral_eq_Suc)
        then show ?thesis using word_at_quad [of "replicate 4 0" y] by (simp add: be_word_def)
      qed
      ultimately have "word_at (do_val o1 c) = Some 0" using c Some by (simp add: overlay_def)
      then show ?thesis using None by (simp add: timer_value_def)
    qed
  qed
  let ?y = "if yiaddr = 0 then ciaddr else yiaddr"
  let ?s1 = "s\<lparr>dc_opts := o1, dc_yiaddr := yiaddr\<rparr>"
  obtain pad where n: "notify_nidd ?s1 = Some (?s1\<lparr>dc_out := dc_out s @ (if t = DHCP_ACK then [bytes_of (path @ inet_ntop4 yiaddr @ ''|'') @ pad] else [])\<rparr>)"
      "pad \<noteq> []" "\<forall>b \<in> set pad. b = 0"
  proof (cases "t = DHCP_ACK")
    case True
    have "rootPath \<notin> filled_in" by (simp add: filled_in_def)
    then have "opt_text o1 rootPath" using w(2) unfolding shaped_def by blast
    moreover obtain y where y: "do_val o1 rootPath = Some (bytes_of path @ y)" "do_len o1 rootPath = of_nat (length (bytes_of path))"
      using w(3) [of rootPath] mp [OF ack(1) True] by auto
    moreover have "unat (of_nat (length (bytes_of path)) :: byte) = length (bytes_of path)"
      using unat_len [OF reply_okD(3) [OF os(1) mp [OF ack(1) True]]] .
    ultimately have "do_val o1 rootPath = Some (bytes_of path @ [0])" by (auto simp: opt_text_def append_eq_append_conv)
    then show ?thesis using notify_ack [of ?s1 z path] tv True ack(2) that by auto
  next
    case False
    then show ?thesis using that [of "[0]"] tv by (simp add: notify_nidd_def byte_at_def)
  qed
  obtain o2 l where f: "fill_options lease ip_src ?y o1 = Some o2" "shaped o2" "\<forall>c \<in> filled_in. do_val o2 c \<noteq> None"
      "\<forall>c. c \<notin> filled_in \<longrightarrow> do_val o2 c = do_val o1 c \<and> do_len o2 c = do_len o1 c"
      "\<forall>c \<in> {dhcpServerIdentifier, dnsOption, subnetMask, broadcastAddr}. do_val o1 c \<noteq> None \<longrightarrow> do_val o2 c = do_val o1 c"
      "l = timer_value (word_at (do_val o1 dhcpIPaddrLeaseTime)) lease" "word_at (do_val o2 dhcpIPaddrLeaseTime) = Some l"
      "word_at (do_val o2 dhcpT1value) = Some (timer_value (word_at (do_val o1 dhcpT1value)) (t1_of l))"
      "word_at (do_val o2 dhcpT2value) = Some (timer_value (word_at (do_val o1 dhcpT2value)) (t2_of l))"
    using fill_shaped [OF w(2), of lease ip_src ?y] by (elim exE conjE) (rule that)
  have "dhcpMessageType \<notin> filled_in" by (simp add: filled_in_def)
  then have tv2: "do_val o2 dhcpMessageType = Some (t # z)" using f(4) tv by simp
  have words: "word_at (do_val o2 c) = Some (be_word d)"
    if "c \<in> {dhcpServerIdentifier, subnetMask, broadcastAddr}" "opt_last os c = Some d" for c d
  proof -
    have q: "word_at (do_val o1 c) = Some (be_word d)" by (rule quad [OF that(2)]) (use that(1) in blast)
    have "do_val o2 c = do_val o1 c" using f(5) word_at_Some [OF q] that(1) by blast
    then show ?thesis using q by simp
  qed
  have l: "l = timer_value (case opt_last os dhcpIPaddrLeaseTime of Some d \<Rightarrow> Some (be_word d)
          | None \<Rightarrow> word_at (do_val (dc_opts s) dhcpIPaddrLeaseTime)) lease"
    using f(6) quad [of dhcpIPaddrLeaseTime] w(3) [of dhcpIPaddrLeaseTime] by (cases "opt_last os dhcpIPaddrLeaseTime") simp_all
  let ?s2 = "?s1\<lparr>dc_out := dc_out s @ (if t = DHCP_ACK then [bytes_of (path @ inet_ntop4 yiaddr @ ''|'') @ pad] else []), dc_opts := o2, dc_yiaddr := ?y\<rparr>"
  have "parseDhcpMsgRecv lease ciaddr ip_src yiaddr (options_field cookie os rest) s = Some (t, ?s2)"
    using n(1) f(1) tv2 by (simp add: parse_run [OF w(1)] byte_at_def Let_def)
  then show ?thesis
    by (intro exI [of _ ?s2] exI [of _ l] exI [of _ pad]) (use f(2,3,7-9) n(2,3) words l cleared in simp)
qed

section \<open>The set-up goes through\<close>

text \<open>What the set-up reads.\<close>

definition conf_ok :: "dhcp_options \<Rightarrow> bool" where
  "conf_ok opts \<longleftrightarrow> (\<forall>c \<in> filled_in. \<exists>w. word_at (do_val opts c) = Some w) \<and>
     (\<forall>c \<in> {routersOnSubnet, dnsOption, nisServers, ntpServers, staticRoute}. \<exists>ws. opt_quads c opts = Some ws) \<and>
     (\<forall>ws. opt_quads staticRoute opts = Some ws \<longrightarrow> even (length ws)) \<and>
     (3 < do_len opts routersOnSubnet \<longrightarrow> (\<exists>w. word_at (do_val opts routersOnSubnet) = Some w)) \<and>
     (\<forall>c \<in> {hostName, domainName, nisDomainName, rootPath}. (do_len opts c \<noteq> 0 \<longrightarrow> do_val opts c \<noteq> None) \<and>
        (\<forall>v. do_val opts c = Some v \<longrightarrow> 0 \<in> set v \<and> unat (do_len opts c) \<le> length v))"

lemma quads_all: "4 dvd n \<Longrightarrow> n \<le> length bs \<Longrightarrow> \<exists>ws. quads n bs = Some ws \<and> length ws = n div 4"
proof (induction n bs rule: quads.induct)
  case (1 n a b c d bs)
  show ?case
  proof (cases "n = 0")
    case False
    then have "4 \<le> n" using 1(2) by (auto dest: dvd_imp_le)
    then have "4 dvd n - 4" "n - 4 \<le> length bs" "n div 4 = Suc ((n - 4) div 4)" using 1(2,3) by (auto simp: le_div_geq)
    then show ?thesis using 1(1) False by auto
  qed simp
qed (auto dest: dvd_imp_le)

lemma pairs_all: "even (length ws) \<Longrightarrow> \<exists>dgs. pairs ws = Some dgs"
  by (induction ws rule: pairs.induct) auto

lemma shaped_quads:
  assumes "shaped opts" "c \<in> {routersOnSubnet, dnsOption, nisServers, ntpServers, staticRoute}"
  shows "\<exists>ws. opt_quads c opts = Some ws \<and> length ws = unat (do_len opts c) div 4"
proof (cases "do_val opts c")
  case None
  then show ?thesis using shaped_len0 [OF assms(1), of c] by (simp add: opt_quads_def)
next
  case (Some v)
  have "8 dvd unat (do_len opts c) \<Longrightarrow> 4 dvd unat (do_len opts c)" by (rule dvd_trans [of 4 8]) simp_all
  then have "4 dvd unat (do_len opts c)" using shapedD(1) [OF assms(1) Some] assms(2) unfolding opt_shape_def by blast
  then obtain ws where "quads (unat (do_len opts c)) v = Some ws" "length ws = unat (do_len opts c) div 4"
    using quads_all [OF _ shapedD(2) [OF assms(1) Some]] by blast
  moreover have "do_len opts c \<noteq> 0" using shapedD(3) [OF assms(1) Some] by (simp add: unat_gt_0)
  ultimately show ?thesis using Some by (simp add: opt_quads_def)
qed

lemma shaped_conf:
  assumes ok: "shaped opts" and full: "\<forall>c \<in> filled_in. do_val opts c \<noteq> None"
  shows "conf_ok opts"
proof -
  have words: "\<exists>w. word_at (do_val opts c) = Some w" if c: "c \<in> filled_in" for c
  proof -
    obtain v where v: "do_val opts c = Some v" using bspec [OF full c] by auto
    show ?thesis by (rule shaped_word [OF ok v c])
  qed
  have static: "even (length ws)" if "opt_quads staticRoute opts = Some ws" for ws
  proof (cases "do_val opts staticRoute")
    case None
    then show ?thesis using shaped_len0 [OF ok, of staticRoute] that by (simp add: opt_quads_def)
  next
    case (Some v)
    have "8 dvd unat (do_len opts staticRoute)" using shapedD(1) [OF ok Some] by (simp add: opt_shape_def)
    then show ?thesis using shaped_quads [OF ok, of staticRoute] that by auto
  qed
  have router: "\<exists>w. word_at (do_val opts routersOnSubnet) = Some w" if "3 < do_len opts routersOnSubnet"
  proof -
    have "do_len opts routersOnSubnet \<noteq> 0" using that by auto
    then obtain v where v: "do_val opts routersOnSubnet = Some v" using shaped_len0 [OF ok, of routersOnSubnet] by blast
    have "3 < unat (do_len opts routersOnSubnet)" using that by (simp add: word_less_nat_alt)
    then show ?thesis using shapedD(2) [OF ok v] v word_at_ok by simp
  qed
  have texts: "(do_len opts c \<noteq> 0 \<longrightarrow> do_val opts c \<noteq> None) \<and> (\<forall>v. do_val opts c = Some v \<longrightarrow> 0 \<in> set v \<and> unat (do_len opts c) \<le> length v)"
    if "c \<in> {hostName, domainName, nisDomainName, rootPath}" for c
  proof -
    have "c \<notin> filled_in" using that by (auto simp: filled_in_def)
    then have "opt_text opts c" using ok by (simp add: shaped_def)
    then show ?thesis using shaped_len0 [OF ok, of c] by (auto simp: opt_text_def)
  qed
  have "\<forall>c \<in> {routersOnSubnet, dnsOption, nisServers, ntpServers, staticRoute}. \<exists>ws. opt_quads c opts = Some ws"
    using shaped_quads [OF ok] by blast
  then show ?thesis unfolding conf_ok_def using words static router texts by blast
qed

text \<open>A text put into the options, and the texts cleaned in place.\<close>

lemma conf_ok_text:
  assumes "conf_ok opts" "c \<in> {hostName, domainName, nisDomainName, rootPath}"
    "\<forall>c'. c' \<noteq> c \<longrightarrow> do_val opts' c' = do_val opts c' \<and> do_len opts' c' = do_len opts c'"
    "do_val opts' c = Some v" "0 \<in> set v" "unat (do_len opts' c) \<le> length v"
  shows "conf_ok opts'"
proof -
  have same: "opt_quads c' opts' = opt_quads c' opts \<and> do_val opts' c' = do_val opts c' \<and> do_len opts' c' = do_len opts c'"
    if "c' \<in> filled_in \<or> c' \<in> {routersOnSubnet, dnsOption, nisServers, ntpServers, staticRoute}" for c'
  proof -
    have "c' \<noteq> c" using that assms(2) by (auto simp: filled_in_def)
    then have "do_val opts' c' = do_val opts c'" "do_len opts' c' = do_len opts c'" using assms(3) by simp_all
    then show ?thesis by (simp only: opt_quads_def)
  qed
  have texts: "(do_len opts' c' \<noteq> 0 \<longrightarrow> do_val opts' c' \<noteq> None) \<and> (\<forall>v. do_val opts' c' = Some v \<longrightarrow> 0 \<in> set v \<and> unat (do_len opts' c') \<le> length v)"
    if "c' \<in> {hostName, domainName, nisDomainName, rootPath}" for c'
  proof (cases "c' = c")
    case True
    then show ?thesis using assms(4-6) by simp
  next
    case False
    have "(do_len opts c' \<noteq> 0 \<longrightarrow> do_val opts c' \<noteq> None) \<and> (\<forall>v. do_val opts c' = Some v \<longrightarrow> 0 \<in> set v \<and> unat (do_len opts c') \<le> length v)"
      using assms(1) that unfolding conf_ok_def by blast
    then show ?thesis using assms(3) False by simp
  qed
  note a = assms(1) [unfolded conf_ok_def]
  have 1: "\<forall>c' \<in> filled_in. \<exists>w. word_at (do_val opts' c') = Some w" using conjunct1 [OF a] same by simp
  have 2: "\<exists>ws. opt_quads c' opts' = Some ws" if "c' \<in> {routersOnSubnet, dnsOption, nisServers, ntpServers, staticRoute}" for c'
    using bspec [OF conjunct1 [OF conjunct2 [OF a]] that] same [OF disjI2 [OF that]] by simp
  have 3: "\<forall>ws. opt_quads staticRoute opts' = Some ws \<longrightarrow> even (length ws)"
    using conjunct1 [OF conjunct2 [OF conjunct2 [OF a]]] same [of staticRoute] by simp
  have 4: "3 < do_len opts' routersOnSubnet \<longrightarrow> (\<exists>w. word_at (do_val opts' routersOnSubnet) = Some w)"
    using conjunct1 [OF conjunct2 [OF conjunct2 [OF conjunct2 [OF a]]]] same [of routersOnSubnet] by simp
  show ?thesis unfolding conf_ok_def using 1 2 3 4 texts by blast
qed

lemma cleanmetas_all: "0 \<in> set v \<Longrightarrow> \<exists>v'. cleanmetas v = Some v' \<and> length v' = length v \<and> 0 \<in> set v'"
proof (induction v)
  case (Cons b bs)
  then show ?case by (cases "b = 0") auto
qed simp

lemma clean_opt_runs:
  assumes "conf_ok opts" "c \<in> {hostName, domainName, nisDomainName, rootPath}"
  shows "\<exists>str opts'. clean_opt key c opts = Some (str, opts') \<and> conf_ok opts' \<and> (\<forall>c'. c' \<noteq> c \<longrightarrow> do_val opts' c' = do_val opts c')"
proof (cases "do_len opts c = 0")
  case True
  then show ?thesis using assms(1) by (simp add: clean_opt_def)
next
  case False
  then obtain v where v: "do_val opts c = Some v" "0 \<in> set v" "unat (do_len opts c) \<le> length v"
    using assms unfolding conf_ok_def by blast
  then obtain v' where v': "cleanmetas v = Some v'" "length v' = length v" "0 \<in> set v'" using cleanmetas_all by blast
  have "conf_ok (opts\<lparr>do_val := (do_val opts)(c \<mapsto> v')\<rparr>)"
    by (rule conf_ok_text [where v = v', OF assms]) (use v v' in simp_all)
  then show ?thesis using False v v' by (simp add: clean_opt_def)
qed

text \<open>The parts of the set-up.\<close>

lemma opt_text_new_conf:
  assumes "conf_ok opts" "c \<in> {hostName, domainName, nisDomainName, rootPath}"
  shows "conf_ok (opt_text_new c str opts)"
proof (rule conf_ok_text [OF assms])
  show "unat (do_len (opt_text_new c str opts) c) \<le> length (bytes_of str @ [0])"
    by (simp add: opt_text_new_def unat_of_nat)
qed (simp_all add: opt_text_new_def)

lemma conf_quads: "conf_ok opts \<Longrightarrow> c \<in> {routersOnSubnet, dnsOption, nisServers, ntpServers, staticRoute} \<Longrightarrow> \<exists>ws. opt_quads c opts = Some ws"
  unfolding conf_ok_def by blast

lemma conf_word: "conf_ok opts \<Longrightarrow> c \<in> filled_in \<Longrightarrow> \<exists>w. word_at (do_val opts c) = Some w"
  unfolding conf_ok_def by blast

lemma conf_pairs: "conf_ok opts \<Longrightarrow> opt_quads staticRoute opts = Some ws \<Longrightarrow> \<exists>dgs. pairs ws = Some dgs"
  unfolding conf_ok_def using pairs_all by blast

lemma conf_router: "conf_ok opts \<Longrightarrow> 3 < do_len opts routersOnSubnet \<Longrightarrow> \<exists>w. word_at (do_val opts routersOnSubnet) = Some w"
  unfolding conf_ok_def by blast

lemma conf_text:
  assumes "conf_ok opts" "c \<in> {hostName, domainName, nisDomainName, rootPath}" "do_val opts c = Some v"
  shows "\<exists>str. c_string (Some v) = Some str" "unat (do_len opts c) \<le> length v"
proof -
  have "0 \<in> set v \<and> unat (do_len opts c) \<le> length v" using assms unfolding conf_ok_def by blast
  then show "\<exists>str. c_string (Some v) = Some str" "unat (do_len opts c) \<le> length v" by (simp_all add: c_string_def)
qed

lemma conf_text_set: "conf_ok opts \<Longrightarrow> c \<in> {hostName, domainName, nisDomainName, rootPath} \<Longrightarrow> do_len opts c \<noteq> 0 \<Longrightarrow> \<exists>v. do_val opts c = Some v"
  unfolding conf_ok_def by blast

lemma set_addresses_runs:
  assumes "conf_ok (dc_opts s)" "ce_setaddr env" "\<forall>m. ce_setmask env m"
  shows "\<exists>m b. word_at (do_val (dc_opts s) subnetMask) = Some m \<and>
    set_addresses env s = Some (True, s\<lparr>dp_addr := di_ciaddr (dc_iface s), dp_mask := m, dp_bcast := b\<rparr>)"
proof -
  obtain m b where m: "word_at (do_val (dc_opts s) subnetMask) = Some m" "word_at (do_val (dc_opts s) broadcastAddr) = Some b"
    using conf_word [OF assms(1), of subnetMask] conf_word [OF assms(1), of broadcastAddr] by (auto simp: filled_in_def)
  let ?b = "if ce_setbcast env then b else dp_bcast s"
  have "set_addresses env s = Some (True, s\<lparr>dp_addr := di_ciaddr (dc_iface s), dp_mask := m, dp_bcast := ?b\<rparr>)"
    using m assms(2,3) by (simp add: set_addresses_def)
  then show ?thesis using m by blast
qed

lemma set_routes_runs:
  assumes "conf_ok (dc_opts s)"
  shows "\<exists>rs. set_routes env a s = Some (s\<lparr>dp_routes := rs\<rparr>)"
proof -
  obtain ws where ws: "opt_quads staticRoute (dc_opts s) = Some ws" using conf_quads [OF assms, of staticRoute] by auto
  obtain dgs where dgs: "pairs ws = Some dgs" using conf_pairs [OF assms ws] by blast
  show ?thesis
  proof (cases "3 < do_len (dc_opts s) routersOnSubnet")
    case True
    then obtain w where "word_at (do_val (dc_opts s) routersOnSubnet) = Some w" using conf_router [OF assms] by blast
    then show ?thesis using ws dgs True by (cases "da_SetDHCPDefaultRoutes a") (auto simp: set_routes_def Let_def)
  next
    case False
    then show ?thesis using ws dgs by (cases "da_SetDHCPDefaultRoutes a") (auto simp: set_routes_def Let_def)
  qed
qed

lemma file_texts:
  assumes "conf_ok opts"
  shows "\<exists>str. resolv_text opts = Some str" "\<exists>str. nis_text opts = Some str" "\<exists>str. ntp_text ciaddr opts = Some str"
proof -
  obtain ws ns ts m where l: "opt_quads dnsOption opts = Some ws" "opt_quads nisServers opts = Some ns" "opt_quads ntpServers opts = Some ts"
      "word_at (do_val opts subnetMask) = Some m"
    using conf_quads [OF assms, of dnsOption] conf_quads [OF assms, of nisServers] conf_quads [OF assms, of ntpServers]
      conf_word [OF assms, of subnetMask] by (auto simp: filled_in_def)
  have tx: "\<exists>str. c_string (do_val opts c) = Some str" if "c \<in> {hostName, domainName, nisDomainName, rootPath}" "do_val opts c \<noteq> None" for c
    using conf_text(1) [OF assms that(1)] that(2) by auto
  show "\<exists>str. resolv_text opts = Some str"
  proof (cases "do_len opts domainName = 0")
    case False
    then obtain d where "c_string (do_val opts domainName) = Some d" using conf_text_set [OF assms] tx [of domainName] by auto
    then show ?thesis using l False by (simp add: resolv_text_def)
  qed (use l in \<open>simp add: resolv_text_def\<close>)
  let ?v = "if do_len opts nisDomainName \<noteq> 0 then do_val opts nisDomainName else do_val opts domainName"
  have "\<exists>d. (if ?v = None then Some ''localdomain'' else c_string ?v) = Some d"
    using tx [of nisDomainName] tx [of domainName] by (auto split: if_splits)
  then show "\<exists>str. nis_text opts = Some str" using l by (auto simp: nis_text_def Let_def)
  show "\<exists>str. ntp_text ciaddr opts = Some str" using l by (cases "4 \<le> do_len opts ntpServers") (simp_all add: ntp_text_def)
qed

lemma write_files_runs:
  assumes "conf_ok (dc_opts s)"
  shows "\<exists>r n t. write_files a s = Some (s\<lparr>dp_resolv := r, dp_nis := n, dp_ntp := t\<rparr>)"
proof -
  obtain x y z where x: "resolv_text (dc_opts s) = Some x" "nis_text (dc_opts s) = Some y" "ntp_text (di_ciaddr (dc_iface s)) (dc_opts s) = Some z"
    using file_texts [OF assms] by blast
  let ?r = "if da_ReplResolvConf a then replace_file x (dp_resolv s) else dp_resolv s"
  let ?n = "if da_ReplNISConf a then replace_file y (dp_nis s) else dp_nis s"
  let ?t = "if da_ReplNTPConf a then replace_file z (dp_ntp s) else dp_ntp s"
  have "write_files a s = Some (s\<lparr>dp_resolv := ?r, dp_nis := ?n, dp_ntp := ?t\<rparr>)"
    using x by (cases "da_ReplResolvConf a"; cases "da_ReplNISConf a"; cases "da_ReplNTPConf a") (simp_all add: write_files_def)
  then show ?thesis by blast
qed

lemma set_names_run:
  assumes "conf_ok (dc_opts s)"
  shows "\<exists>opts h i. set_host_name env s = Some (s\<lparr>dc_opts := opts, dp_hostname := h, dp_InitialHostName := i\<rparr>) \<and> conf_ok opts"
    "\<exists>opts h i. set_domain_name env s = Some (s\<lparr>dc_opts := opts, dp_domainname := h, dp_InitialDomainName := i\<rparr>) \<and> conf_ok opts"
proof -
  have bytes: "\<exists>bs. opt_bytes c opts = Some bs" if o: "conf_ok opts" "c \<in> {hostName, domainName}" "do_len opts c \<noteq> 0" for c opts
  proof -
    have c: "c \<in> {hostName, domainName, nisDomainName, rootPath}" using o(2) by blast
    obtain v where "do_val opts c = Some v" using conf_text_set [OF o(1) c o(3)] by blast
    then show ?thesis using conf_text(2) [OF o(1) c] by (simp add: opt_bytes_def)
  qed
  let ?h = "if do_len (dc_opts s) hostName \<noteq> 0 then dc_opts s
     else case ce_hostbyaddr env (di_ciaddr (dc_iface s)) of None \<Rightarrow> dc_opts s | Some name \<Rightarrow> opt_text_new hostName (host_part name) (dc_opts s)"
  have h: "conf_ok ?h" using assms opt_text_new_conf [OF assms, of hostName] by (simp split: option.split)
  show "\<exists>opts h i. set_host_name env s = Some (s\<lparr>dc_opts := opts, dp_hostname := h, dp_InitialHostName := i\<rparr>) \<and> conf_ok opts"
  proof (cases "do_len ?h hostName = 0")
    case True
    then have "set_host_name env s = Some (s\<lparr>dc_opts := ?h, dp_hostname := dp_hostname s,
        dp_InitialHostName := (if dp_InitialHostName s = None then Some (dp_hostname s) else dp_InitialHostName s)\<rparr>)"
      unfolding set_host_name_def Let_def by simp
    then show ?thesis using h by blast
  next
    case False
    then obtain bs where "opt_bytes hostName ?h = Some bs" using bytes [OF h, of hostName] by blast
    then have "set_host_name env s = Some (s\<lparr>dc_opts := ?h, dp_hostname := map (\<lambda>b. char_of (unat b)) bs,
        dp_InitialHostName := (if dp_InitialHostName s = None then Some (dp_hostname s) else dp_InitialHostName s)\<rparr>)"
      using False unfolding set_host_name_def Let_def by simp
    then show ?thesis using h by blast
  qed
  let ?d = "if do_len (dc_opts s) domainName \<noteq> 0 then dc_opts s
     else case ce_hostbyaddr env (di_ciaddr (dc_iface s)) of None \<Rightarrow> dc_opts s
       | Some name \<Rightarrow> if domain_part name = [] then dc_opts s else opt_text_new domainName (domain_part name) (dc_opts s)"
  have d: "conf_ok ?d" using assms opt_text_new_conf [OF assms, of domainName] by (simp split: option.split)
  have run: "set_domain_name env s = (let s = s\<lparr>dp_InitialDomainName := (if dp_InitialDomainName s = None then Some (dp_domainname s)
      else dp_InitialDomainName s), dc_opts := ?d\<rparr> in if do_len ?d domainName \<noteq> 0 then do {
       bs \<leftarrow> opt_bytes domainName ?d;
       Some (s\<lparr>dp_domainname := map (\<lambda>b. char_of (unat b)) bs\<rparr>)
     } else Some s)"
    by (cases "ce_hostbyaddr env (di_ciaddr (dc_iface s))") (simp_all add: set_domain_name_def Let_def)
  show "\<exists>opts h i. set_domain_name env s = Some (s\<lparr>dc_opts := opts, dp_domainname := h, dp_InitialDomainName := i\<rparr>) \<and> conf_ok opts"
  proof (cases "do_len ?d domainName = 0")
    case True
    then have "set_domain_name env s = Some (s\<lparr>dc_opts := ?d, dp_domainname := dp_domainname s,
        dp_InitialDomainName := (if dp_InitialDomainName s = None then Some (dp_domainname s) else dp_InitialDomainName s)\<rparr>)"
      using run by simp
    then show ?thesis using d by blast
  next
    case False
    then obtain bs where "opt_bytes domainName ?d = Some bs" using bytes [OF d, of domainName] by blast
    then have "set_domain_name env s = Some (s\<lparr>dc_opts := ?d, dp_domainname := map (\<lambda>b. char_of (unat b)) bs,
        dp_InitialDomainName := (if dp_InitialDomainName s = None then Some (dp_domainname s) else dp_InitialDomainName s)\<rparr>)"
      using run False by simp
    then show ?thesis using d by blast
  qed
qed

text \<open>The file of the lease's values, given what the class identifier and the receive buffer must have.\<close>

lemma write_info_runs:
  assumes ok: "conf_ok (dc_opts s)" and z: "0 \<in> set (di_class_id (dc_iface s))" "0 \<in> set (drop (dc_off s + 44) (dc_recv s))"
  shows "\<exists>opts t t'. write_info a s = Some (s\<lparr>dc_opts := opts, dp_info := t, dp_info_old := t'\<rparr>) \<and> conf_ok opts"
proof -
  have A: "\<exists>x. info_addresses (di_ciaddr (dc_iface s)) opts = Some x" if o: "conf_ok opts" for opts
  proof -
    obtain m b rs ws where w: "word_at (do_val opts subnetMask) = Some m" "word_at (do_val opts broadcastAddr) = Some b"
        "opt_quads routersOnSubnet opts = Some rs" "opt_quads staticRoute opts = Some ws"
      using conf_word [OF o, of subnetMask] conf_word [OF o, of broadcastAddr] conf_quads [OF o, of routersOnSubnet]
        conf_quads [OF o, of staticRoute] by (auto simp: filled_in_def)
    obtain dgs where "pairs ws = Some dgs" using conf_pairs [OF o w(4)] by blast
    then show ?thesis using w by (cases "3 < do_len opts routersOnSubnet") (simp_all add: info_addresses_def)
  qed
  have S: "\<exists>x. info_servers opts = Some x" if o: "conf_ok opts" for opts
  proof -
    obtain d ds ns ts where w: "word_at (do_val opts dnsOption) = Some d" "opt_quads dnsOption opts = Some ds"
        "opt_quads nisServers opts = Some ns" "opt_quads ntpServers opts = Some ts"
      using conf_word [OF o, of dnsOption] conf_quads [OF o, of dnsOption] conf_quads [OF o, of nisServers] conf_quads [OF o, of ntpServers]
      by (auto simp: filled_in_def)
    then show ?thesis by (cases "4 \<le> do_len opts ntpServers"; cases "4 \<le> do_len opts nisServers") (simp_all add: info_servers_def)
  qed
  have L: "\<exists>x. info_lease a (s\<lparr>dc_opts := opts\<rparr>) = Some x" if o: "conf_ok opts" for opts
  proof -
    obtain sid l t1 t2 where w: "word_at (do_val opts dhcpServerIdentifier) = Some sid" "word_at (do_val opts dhcpIPaddrLeaseTime) = Some l"
        "word_at (do_val opts dhcpT1value) = Some t1" "word_at (do_val opts dhcpT2value) = Some t2"
      using conf_word [OF o, of dhcpServerIdentifier] conf_word [OF o, of dhcpIPaddrLeaseTime] conf_word [OF o, of dhcpT1value]
        conf_word [OF o, of dhcpT2value] by (auto simp: filled_in_def)
    obtain n where "cleanmetas (drop (dc_off s + 44) (dc_recv s)) = Some n" using cleanmetas_all [OF z(2)] by blast
    then show ?thesis using w z(1) by (simp add: info_lease_def c_string_def Let_def)
  qed
  obtain x0 where x0: "info_addresses (di_ciaddr (dc_iface s)) (dc_opts s) = Some x0" using A [OF ok] by blast
  obtain x1 o1 where o1: "clean_opt ''HOSTNAME'' hostName (dc_opts s) = Some (x1, o1)" "conf_ok o1"
    using clean_opt_runs [OF ok, of hostName] by blast
  obtain x2 o2 where o2: "clean_opt ''DOMAIN'' domainName o1 = Some (x2, o2)" "conf_ok o2"
    using clean_opt_runs [OF o1(2), of domainName] by blast
  obtain x3 o3 where o3: "clean_opt ''NISDOMAIN'' nisDomainName o2 = Some (x3, o3)" "conf_ok o3"
    using clean_opt_runs [OF o2(2), of nisDomainName] by blast
  obtain x4 o4 where o4: "clean_opt ''ROOTPATH'' rootPath o3 = Some (x4, o4)" "conf_ok o4"
    using clean_opt_runs [OF o3(2), of rootPath] by blast
  obtain x5 x6 where x: "info_servers o4 = Some x5" "info_lease a (s\<lparr>dc_opts := o4\<rparr>) = Some x6" using S [OF o4(2)] L [OF o4(2)] by blast
  have "write_info a s = Some (s\<lparr>dc_opts := o4, dp_info := Some (x0 @ x1 @ x2 @ x3 @ x4 @ x5 @ x6),
      dp_info_old := (if dp_info s = None then dp_info_old s else dp_info s)\<rparr>)"
    using x0 o1(1) o2(1) o3(1) o4(1) x by (simp add: write_info_def)
  then show ?thesis using o4(2) by blast
qed

lemma finish_runs:
  assumes ok: "conf_ok (dc_opts s)" and z: "0 \<in> set (di_class_id (dc_iface s))" "0 \<in> set (drop (dc_off s + 44) (dc_recv s))"
  shows "\<exists>opts t t' w. finish_config a s = Some (if w = 0xFFFFFFFF then Exits 0 else Returns 0,
      (write_cache s)\<lparr>dc_opts := opts, dp_info := t, dp_info_old := t', dp_prev_ip := di_ciaddr (dc_iface s),
        dp_hooks := dp_hooks s @ [if di_ciaddr (dc_iface s) = dp_prev_ip s then ''up'' else ''new'']\<rparr>) \<and>
    conf_ok opts \<and> word_at (do_val opts dhcpIPaddrLeaseTime) = Some w"
proof -
  have c: "conf_ok (dc_opts (write_cache s))" "0 \<in> set (di_class_id (dc_iface (write_cache s)))"
      "0 \<in> set (drop (dc_off (write_cache s) + 44) (dc_recv (write_cache s)))"
    using ok z by (simp_all add: write_cache_def Let_def)
  obtain opts t t' where w: "write_info a (write_cache s) = Some ((write_cache s)\<lparr>dc_opts := opts, dp_info := t, dp_info_old := t'\<rparr>)" "conf_ok opts"
    using write_info_runs [OF c] by blast
  obtain l where l: "word_at (do_val opts dhcpIPaddrLeaseTime) = Some l" using conf_word [OF w(2), of dhcpIPaddrLeaseTime] by (auto simp: filled_in_def)
  have s: "di_ciaddr (dc_iface (write_cache s)) = di_ciaddr (dc_iface s)" "dp_prev_ip (write_cache s) = dp_prev_ip s"
      "dp_hooks (write_cache s) = dp_hooks s"
    by (simp_all add: write_cache_def Let_def)
  have same: "(write_cache s)\<lparr>dp_prev_ip := dp_prev_ip s\<rparr> = write_cache s" by (simp add: write_cache_def Let_def)
  show ?thesis
    by (rule exI [of _ opts], rule exI [of _ t], rule exI [of _ t'], rule exI [of _ l])
      (use w l s in \<open>simp add: finish_config_def Let_def write_cache_def\<close>)
qed

lemma config_runs:
  assumes ok: "conf_ok (dc_opts s)" and z: "0 \<in> set (di_class_id (dc_iface s))" "0 \<in> set (drop (dc_off s + 44) (dc_recv s))"
    and e: "ce_setaddr env" "\<forall>m. ce_setmask env m" "\<not> dc_token s" "\<not> da_TestCase a"
  shows "\<exists>s' w m. dhcpConfig env a s = Some (if w = 0xFFFFFFFF then Exits 0 else Returns 0, s') \<and>
    word_at (do_val (dc_opts s') dhcpIPaddrLeaseTime) = Some w \<and> conf_ok (dc_opts s') \<and>
    dp_addr s' = di_ciaddr (dc_iface s) \<and> word_at (do_val (dc_opts s) subnetMask) = Some m \<and> dp_mask s' = m \<and>
    (\<exists>arp. dc_net s' = dc_net s @ [arp]) \<and> dp_prev_ip s' = di_ciaddr (dc_iface s) \<and> dp_cache s' = dp_cache (write_cache s) \<and>
    dp_hooks s' = dp_hooks s @ [if di_ciaddr (dc_iface s) = dp_prev_ip s then ''up'' else ''new''] \<and> dp_ReqSentTime s' = dp_ReqSentTime s"
proof -
  obtain m b where s1: "word_at (do_val (dc_opts s) subnetMask) = Some m"
      "set_addresses env s = Some (True, s\<lparr>dp_addr := di_ciaddr (dc_iface s), dp_mask := m, dp_bcast := b\<rparr>)"
    using set_addresses_runs [OF ok e(1,2)] by blast
  let ?s1 = "s\<lparr>dp_addr := di_ciaddr (dc_iface s), dp_mask := m, dp_bcast := b\<rparr>"
  obtain rs where s2: "set_routes env a ?s1 = Some (?s1\<lparr>dp_routes := rs\<rparr>)" using set_routes_runs [of ?s1 env a] ok by auto
  obtain arp where s3: "arpInform (?s1\<lparr>dp_routes := rs\<rparr>) = Some (?s1\<lparr>dp_routes := rs, dc_net := dc_net s @ [arp]\<rparr>)"
    using e(3) by (simp add: arpInform_def arp_send_def)
  let ?s3 = "?s1\<lparr>dp_routes := rs, dc_net := dc_net s @ [arp]\<rparr>"
  obtain r n t where s4: "write_files a ?s3 = Some (?s3\<lparr>dp_resolv := r, dp_nis := n, dp_ntp := t\<rparr>)"
    using write_files_runs [of ?s3 a] ok by auto
  let ?s4 = "?s3\<lparr>dp_resolv := r, dp_nis := n, dp_ntp := t\<rparr>"
  obtain o5 h i where s5: "(if da_SetHostName a then set_host_name env ?s4 else Some ?s4)
      = Some (?s4\<lparr>dc_opts := o5, dp_hostname := h, dp_InitialHostName := i\<rparr>)" "conf_ok o5"
  proof (cases "da_SetHostName a")
    case True
    then show ?thesis using set_names_run(1) [of ?s4 env] ok that by auto
  next
    case False
    then show ?thesis using ok that [of "dp_InitialHostName s" "dp_hostname s" "dc_opts s"] by simp
  qed
  let ?s5 = "?s4\<lparr>dc_opts := o5, dp_hostname := h, dp_InitialHostName := i\<rparr>"
  obtain o6 d j where s6: "(if da_SetDomainName a then set_domain_name env ?s5 else Some ?s5)
      = Some (?s5\<lparr>dc_opts := o6, dp_domainname := d, dp_InitialDomainName := j\<rparr>)" "conf_ok o6"
  proof (cases "da_SetDomainName a")
    case True
    then show ?thesis using set_names_run(2) [of ?s5 env] s5(2) that by auto
  next
    case False
    then show ?thesis using s5(2) that [of "dp_InitialDomainName s" "dp_domainname s" o5] by simp
  qed
  let ?s6 = "?s5\<lparr>dc_opts := o6, dp_domainname := d, dp_InitialDomainName := j\<rparr>"
  obtain opts t1 t2 w where f: "finish_config a ?s6 = Some (if w = 0xFFFFFFFF then Exits 0 else Returns 0,
      (write_cache ?s6)\<lparr>dc_opts := opts, dp_info := t1, dp_info_old := t2, dp_prev_ip := di_ciaddr (dc_iface s),
        dp_hooks := dp_hooks s @ [if di_ciaddr (dc_iface s) = dp_prev_ip s then ''up'' else ''new'']\<rparr>)"
      "conf_ok opts" "word_at (do_val opts dhcpIPaddrLeaseTime) = Some w"
    using finish_runs [of ?s6 a] s6(2) z by auto
  have "dhcpConfig env a s = finish_config a ?s6"
    using e(4) s1(2) s2 s3 s4 s5(1) s6(1) unfolding dhcpConfig_def by simp
  then show ?thesis using f s1(1) by (auto simp: write_cache_def Let_def)
qed

end
