(* ===== verification/DHCP_Acquire.thy ===== *)
theory DHCP_Acquire
  imports DHCP_Lease DHCP_Values
begin

text \<open>
  How the DHCP client comes to a lease on Ethernet: a server's answer, as a frame, is received, found to be for the client and read; an
  offer and an acknowledgement take the client from \<open>dhcpInit\<close> to \<open>dhcpBound\<close>, with the address on its interface and the text
  for the daemon written.
\<close>

section \<open>An answer as a frame\<close>

text \<open>A server's frame, with the packet built as the client builds its own.\<close>

definition answer_frame :: "byte list \<Rightarrow> byte list \<Rightarrow> NID32 \<Rightarrow> NID32 \<Rightarrow> u16 \<Rightarrow> dhcpMessage \<Rightarrow> byte list run" where
  "answer_frame dhost shost src dst ipid m =
     map_option (\<lambda>(p, i). dhost @ shost @ net16 ETHERTYPE_IP @ p)
       (udpipgen (replicate 28 0 @ encode_dhcp m) src dst DHCP_SERVER_PORT DHCP_CLIENT_PORT (of_nat dhcp_msg_len) ipid)"

text \<open>What the client finds in its receive buffer.\<close>

lemma answer_heard:
  assumes m: "dhcp_msg_ok m" and l: "length dhost = ETH_ALEN" "length shost = ETH_ALEN" and f: "answer_frame dhost shost src dst ipid m = Some f"
  shows "\<exists>p. length f = 590 \<and> (let buf = overlay (take recv_len f) (replicate recv_len 0) in
      buf = dhost @ shost @ net16 ETHERTYPE_IP @ p @ encode_dhcp m @ replicate 964 0 \<and> length p = 28 \<and> p ! 0 = 0x45 \<and>
      ip_offset (drop 14 buf) = 0 \<and> recv_wanted False 590 buf (drop 14 buf) \<and> udpipchk (drop 14 buf) = Some (0, drop 14 buf) \<and>
      take 4 (drop 26 buf) = nid32_bytes src)"
proof -
  let ?b = "replicate 28 0 @ encode_dhcp m" and ?n = "of_nat dhcp_msg_len :: u16"
  have lm: "length (encode_dhcp m) = dhcp_msg_len" using m by simp
  have b: "28 + unat ?n \<le> length ?b" "unat ?n \<le> 65500" using lm by simp_all
  obtain h where h: "length h = 28" "take 4 (drop 12 h) = nid32_bytes src"
      "take 2 (drop 24 h) = net16 (?n + 8)" "take 4 h = [69, 0] @ net16 (?n + 28)" "h ! 9 = IPPROTO_UDP8"
      "\<forall>rest. udpipgen (?b @ rest) src dst DHCP_SERVER_PORT DHCP_CLIENT_PORT ?n ipid = Some (h @ drop 28 ?b @ rest, ipid + 1) \<and>
        udpipchk (h @ drop 28 ?b @ rest) = Some (0, h @ drop 28 ?b @ rest)"
    using udpipchk_built [OF b, of src dst DHCP_SERVER_PORT DHCP_CLIENT_PORT ipid] by (elim exE conjE) (rule that)
  have d: "drop 28 ?b = encode_dhcp m" by simp
  have f': "f = dhost @ shost @ net16 ETHERTYPE_IP @ h @ encode_dhcp m"
    using f spec [OF h(6), of "[]"] by (simp add: answer_frame_def)
  have lf: "length f = 590" using f' l h(1) lm by simp
  let ?buf = "dhost @ shost @ net16 ETHERTYPE_IP @ h @ encode_dhcp m @ replicate 964 0"
  have buf: "overlay (take recv_len f) (replicate recv_len 0) = ?buf" using lf f' by (simp add: overlay_def)
  have dr: "drop 14 ?buf = h @ encode_dhcp m @ replicate 964 0" using l by simp
  have h4: "h ! 0 = 69" "h ! 1 = 0" "take 2 (drop 2 h) = net16 (?n + 28)"
  proof -
    have "take 4 h ! 0 = 69" "take 4 h ! 1 = 0" unfolding h(4) by simp_all
    then show "h ! 0 = 69" "h ! 1 = 0" by simp_all
    have "drop 2 (take 4 h) = net16 (?n + 28)" unfolding h(4) by simp
    then show "take 2 (drop 2 h) = net16 (?n + 28)" by (simp add: drop_take)
  qed
  have off: "ip_offset (drop 14 ?buf) = 0"
    unfolding dr ip_offset_def using h4(1,2) h(1) by (simp add: nth_append)
  have w: "recv_wanted False 590 ?buf (drop 14 ?buf)"
  proof -
    have "take 2 (drop 12 ?buf) = net16 ETHERTYPE_IP" using l by simp
    moreover have "(h @ encode_dhcp m @ replicate 964 0) ! 9 = IPPROTO_UDP8" using h(1,5) by (simp add: nth_append)
    moreover have "take 2 (drop 2 (h @ encode_dhcp m @ replicate 964 0)) = net16 (?n + 28)" using h4(3) h(1) by simp
    moreover have "take 2 (drop 24 (h @ encode_dhcp m @ replicate 964 0)) = net16 (?n + 8)" using h(1,3) by simp
    moreover have "(h @ encode_dhcp m @ replicate 964 0) ! 0 = 69" using h(1) h4(1) by (simp add: nth_append)
    ultimately show ?thesis unfolding dr recv_wanted_def Let_def by (simp add: be_word_be_bytes)
  qed
  have c: "udpipchk (drop 14 ?buf) = Some (0, drop 14 ?buf)" using spec [OF h(6), of "replicate 964 0"] unfolding dr d by blast
  have "take 4 (drop 26 ?buf) = nid32_bytes src" using l h(1,2) by simp
  then show ?thesis using lf buf h(1) h4(1) off w c by (auto simp: Let_def)
qed

text \<open>
  A server's answer of type \<open>t\<close> to the exchange \<open>xid\<close> for the address \<open>y\<close>, with the options \<open>os\<close>, from the card \<open>shost\<close>.
\<close>

definition answers :: "byte \<Rightarrow> u32 \<Rightarrow> NID32 \<Rightarrow> (byte \<times> byte list) list \<Rightarrow> byte list \<Rightarrow> byte list \<Rightarrow> bool" where
  "answers t xid y os shost f \<longleftrightarrow> (\<exists>dhost src dst ipid m cookie rest.
     answer_frame dhost shost src dst ipid m = Some f \<and> length dhost = ETH_ALEN \<and> length shost = ETH_ALEN \<and> dhcp_msg_ok m \<and>
     dm_op m = DHCP_BOOTREPLY \<and> dm_htype m = of_nat ARPHRD_ETHER \<and> dm_xid m = xid \<and> dm_yiaddr m = y \<and>
     dm_options m = options_field cookie os rest \<and> length cookie = 4 \<and> reply_ok os \<and> opt_last os dhcpMessageType = Some [t])"

lemma put_at_same: "take (length bs) (drop k buf) = bs \<Longrightarrow> put_at k bs buf = buf"
  by (metis append_take_drop_id drop_drop put_at_def add.commute)

text \<open>What reading it leaves in the state.\<close>

definition heard :: "byte \<Rightarrow> u32 \<Rightarrow> NID32 \<Rightarrow> (byte \<times> byte list) list \<Rightarrow> byte list \<Rightarrow> u32 \<Rightarrow>
    'a dhcp_client_scheme \<Rightarrow> 'a dhcp_client_scheme \<Rightarrow> bool" where
  "heard t xid y os shost lease s s' \<longleftrightarrow>
     same_client s s' \<and> length (dc_recv s') = recv_len \<and> take 6 (drop 6 (dc_recv s')) = shost \<and>
     dm_yiaddr (recv_msg s') = y \<and> dm_xid (recv_msg s') = xid \<and> 0 \<in> set (drop (dc_off s' + 44) (dc_recv s')) \<and>
     shaped (dc_opts s') \<and> (\<forall>c \<in> filled_in. do_val (dc_opts s') c \<noteq> None) \<and>
     (\<forall>c \<in> {dhcpServerIdentifier, subnetMask, broadcastAddr}. \<forall>d. opt_last os c = Some d \<longrightarrow> word_at (do_val (dc_opts s') c) = Some (be_word d)) \<and>
     (let l = timer_value (case opt_last os dhcpIPaddrLeaseTime of Some d \<Rightarrow> Some (be_word d)
          | None \<Rightarrow> word_at (do_val (dc_opts s) dhcpIPaddrLeaseTime)) lease in
      word_at (do_val (dc_opts s') dhcpIPaddrLeaseTime) = Some l \<and>
      word_at (do_val (dc_opts s') dhcpT1value) = Some (timer_value (map_option be_word (opt_last os dhcpT1value)) (t1_of l)) \<and>
      word_at (do_val (dc_opts s') dhcpT2value) = Some (timer_value (map_option be_word (opt_last os dhcpT2value)) (t2_of l)))"

lemma buffer_message:
  assumes "dhcp_msg_ok m" "length dhost = ETH_ALEN" "length shost = ETH_ALEN" "length p = 28" "dm_options m = options_field cookie os rest"
    and buf: "buf = dhost @ shost @ net16 ETHERTYPE_IP @ p @ encode_dhcp m @ z"
  shows "decode_dhcp (drop 42 buf) = m" "drop 278 buf = options_field cookie os (rest @ z)" "drop 42 buf = encode_dhcp m @ z"
proof -
  show d42: "drop 42 buf = encode_dhcp m @ z" unfolding buf using assms(2-4) by simp
  show "decode_dhcp (drop 42 buf) = m" unfolding d42 by (rule decode_encode_dhcp [OF assms(1)])
  have "drop 278 buf = drop 236 (drop 42 buf)" by (simp add: drop_drop)
  also have "\<dots> = dm_options m @ z" unfolding d42 using assms(1) by (simp add: encode_dhcp_def dhcp_msg_ok_def)
  finally show "drop 278 buf = options_field cookie os (rest @ z)" by (simp add: assms(5) options_field_def)
qed

lemma recv_check_good:
  assumes "ip_offset (drop 14 (dc_recv s)) = 0" "recv_wanted (dc_token s) len (dc_recv s) (drop 14 (dc_recv s))"
    "udpipchk (drop 14 (dc_recv s)) = Some (0, drop 14 (dc_recv s))" "unat (drop 14 (dc_recv s) ! 0) mod 16 = 5"
  shows "recv_check a xid len s = recv_message a xid 42 s"
proof -
  define ip where "ip = drop 14 (dc_recv s)"
  have s: "s\<lparr>dc_recv := take 14 (dc_recv s) @ ip\<rparr> = s" by (simp add: ip_def)
  have "ip_offset ip = 0" "recv_wanted (dc_token s) len (dc_recv s) ip" "udpipchk ip = Some (0, ip)" "unat (ip ! 0) mod 16 = 5"
    using assms by (simp_all only: ip_def)
  then show ?thesis using s ip_def [symmetric]
    by (cases "da_DoCheckSum a") (simp_all only: recv_check_def Let_def add_0_right bind.bind_lunit prod.case if_True if_False simp_thms, simp_all)
qed

lemma answer_received:
  assumes ans: "answers t xid y os shost f" and s: "\<not> dc_token s" "shaped (dc_opts s)" and y: "y \<noteq> 0"
    and ack: "t = DHCP_ACK \<longrightarrow> opt_last os rootPath = Some (bytes_of path)" "no_nul path"
  shows "\<exists>l' s' pad. dhcp_receive env a xid f l s = Some (Some t, l', s') \<and> heard t xid y os shost (da_LeaseTime a) s s' \<and>
    dc_net s' = dc_net s \<and> pad \<noteq> [] \<and> (\<forall>b \<in> set pad. b = 0) \<and>
    dc_out s' = dc_out s @ (if t = DHCP_ACK then [bytes_of (path @ inet_ntop4 y @ ''|'') @ pad] else [])"
proof -
  from ans obtain dhost src dst ipid m cookie rest where m: "answer_frame dhost shost src dst ipid m = Some f"
      "length dhost = ETH_ALEN" "length shost = ETH_ALEN" "dhcp_msg_ok m" "dm_op m = DHCP_BOOTREPLY" "dm_htype m = of_nat ARPHRD_ETHER"
      "dm_xid m = xid" "dm_yiaddr m = y" "dm_options m = options_field cookie os rest" "length cookie = 4" "reply_ok os"
      "opt_last os dhcpMessageType = Some [t]"
    unfolding answers_def by (elim exE conjE) (rule that)
  let ?buf = "overlay (take recv_len f) (replicate recv_len 0)" and ?z = "replicate 964 (0 :: byte)"
  obtain p where p: "length f = 590" "?buf = dhost @ shost @ net16 ETHERTYPE_IP @ p @ encode_dhcp m @ ?z" "length p = 28" "p ! 0 = 0x45"
      "ip_offset (drop 14 ?buf) = 0" "recv_wanted False 590 ?buf (drop 14 ?buf)" "udpipchk (drop 14 ?buf) = Some (0, drop 14 ?buf)"
      "take 4 (drop 26 ?buf) = nid32_bytes src"
    using answer_heard [OF m(4,2,3,1)] unfolding Let_def by (elim exE conjE) (rule that)
  have lm: "length (encode_dhcp m) = dhcp_msg_len" using m(4) by simp
  note d = buffer_message [OF m(4,2,3) p(3) m(9) p(2)]
  have ip0: "drop 14 ?buf ! 0 = 0x45" unfolding p(2) using m(2,3) p(3,4) by (simp add: nth_append)
  let ?s = "s\<lparr>dc_recv := ?buf, dc_off := 42\<rparr>"
  have sh: "shaped (dc_opts ?s)" using s(2) by simp
  let ?lease = "da_LeaseTime a" and ?ci = "be_word (take 4 (drop (14 + 28 + 12) (dc_send s))) :: u32"
  obtain s1 ls pad where r: "parseDhcpMsgRecv ?lease ?ci (be_word (take 4 (drop (14 + 12) ?buf))) y (options_field cookie os (rest @ ?z)) ?s = Some (t, s1)"
      "shaped (dc_opts s1)" "\<forall>c \<in> filled_in. do_val (dc_opts s1) c \<noteq> None" "dc_yiaddr s1 = (if y = 0 then ?ci else y)"
      "dc_out s1 = dc_out ?s @ (if t = DHCP_ACK then [bytes_of (path @ inet_ntop4 y @ ''|'') @ pad] else [])"
      "pad \<noteq> []" "\<forall>b \<in> set pad. b = 0"
      "\<forall>c \<in> {dhcpServerIdentifier, subnetMask, broadcastAddr}. \<forall>d. opt_last os c = Some d \<longrightarrow> word_at (do_val (dc_opts s1) c) = Some (be_word d)"
      "ls = timer_value (case opt_last os dhcpIPaddrLeaseTime of Some d \<Rightarrow> Some (be_word d)
          | None \<Rightarrow> word_at (do_val (dc_opts ?s) dhcpIPaddrLeaseTime)) ?lease"
      "word_at (do_val (dc_opts s1) dhcpIPaddrLeaseTime) = Some ls"
      "word_at (do_val (dc_opts s1) dhcpT1value) = Some (timer_value (map_option be_word (opt_last os dhcpT1value)) (t1_of ls))"
      "word_at (do_val (dc_opts s1) dhcpT2value) = Some (timer_value (map_option be_word (opt_last os dhcpT2value)) (t2_of ls))"
    using parse_shaped [OF sh m(11,10,12) ack, where lease = ?lease and ciaddr = ?ci and ip_src = "be_word (take 4 (drop (14 + 12) ?buf))"
      and yiaddr = y and rest = "rest @ ?z"]
    by (elim exE conjE) (rule that)
  have k: "same_client ?s s1" "dc_recv s1 = ?buf" "dc_off s1 = 42" "dc_net s1 = dc_net s" using parse_same [OF r(1)] by simp_all
  have "take 4 (drop 16 (drop 42 ?buf)) = nid32_bytes y"
    unfolding d(3) using m(4,8) by (simp add: encode_dhcp_def dhcp_msg_ok_def)
  then have "put_at (42 + 16) (nid32_bytes y) ?buf = ?buf" by (intro put_at_same) (simp add: drop_drop add.commute)
  then have same: "s1\<lparr>dc_recv := put_at (42 + 16) (nid32_bytes (dc_yiaddr s1)) (dc_recv s1)\<rparr> = s1" using r(4) k(2) y by simp
  have msg: "recv_message a xid 42 (s\<lparr>dc_recv := ?buf\<rparr>) = Some (Some t, s1)"
    using d(1,2) r(1) m(5-8) same by (simp add: recv_message_def Let_def)
  have chk: "recv_check a xid 590 (s\<lparr>dc_recv := ?buf\<rparr>) = Some (Some t, s1)"
  proof -
    have "unat (drop 14 ?buf ! 0) mod 16 = 5" using ip0 by simp
    then show ?thesis using recv_check_good [of "s\<lparr>dc_recv := ?buf\<rparr>" 590 a xid] s(1) p(5-7) msg by simp
  qed
  obtain b x y' where ts: "timeval_subtract (ev_clk env (lo_n l)) (lo_begin l) = (b, x, y')" by (cases "timeval_subtract (ev_clk env (lo_n l)) (lo_begin l)") auto
  have rc: "\<exists>l'. dhcp_receive env a xid f l s = Some (Some t, l', s1)"
    using s(1) chk p(1) ts by (simp add: dhcp_receive_def)
  have hd: "take 6 (drop 6 ?buf) = shost" unfolding p(2) using m(2,3) by simp
  have z: "0 \<in> set (drop (42 + 44) ?buf)" unfolding p(2) using m(2,3) p(3) lm by simp
  have ls: "ls = timer_value (case opt_last os dhcpIPaddrLeaseTime of Some d \<Rightarrow> Some (be_word d)
      | None \<Rightarrow> word_at (do_val (dc_opts s) dhcpIPaddrLeaseTime)) ?lease"
    using r(9) by (cases "opt_last os dhcpIPaddrLeaseTime") simp_all
  have "heard t xid y os shost ?lease s s1"
    unfolding heard_def Let_def recv_msg_def ls [symmetric]
    using k(1) d(1) hd z m(7,8) r(2,3,8,10-12) unfolding k(2-4) by (simp add: overlay_def p(1))
  then show ?thesis using rc r(5-7) k(4) by auto
qed

section \<open>An exchange that is answered\<close>

lemma heard_frames:
  assumes "more_frames n P s s1" "heard t xid y os shost lease s1 s'"
  shows "heard t xid y os shost lease s s'"
proof -
  have e: "dc_opts s1 = dc_opts s" "same_client s s1" using assms(1) by (auto simp: more_frames_def)
  show ?thesis using assms(2) same_client_trans [OF e(2), of s'] unfolding heard_def e(1) by blast
qed

text \<open>The message goes out until the answer comes, and the answer is read.\<close>

lemma exchange_answered:
  assumes s: "\<not> dc_token s" "shaped (dc_opts s)" "length (dc_hw s) = ETH_ALEN"
    and send: "always_sends build xid s dhost src dst m os'" "length dhost = ETH_ALEN"
    and ans: "answers t xid y os shost f" "y \<noteq> 0" and ack: "t = DHCP_ACK \<longrightarrow> opt_last os rootPath = Some (bytes_of path)" "no_nul path"
  shows "\<exists>s' fs pad. dhcpSendAndRecv env a (replicate n Quiet @ Arrives f # es) xid t build s = Some (Done 0, s') \<and>
    heard t xid y os shost (da_LeaseTime a) s s' \<and>
    dc_net s' = dc_net s @ fs \<and> length fs = n + 1 \<and> (\<forall>f \<in> set fs. frame_reads f dhost (dc_hw s) src dst m os') \<and>
    pad \<noteq> [] \<and> (\<forall>b \<in> set pad. b = 0) \<and>
    dc_out s' = dc_out s @ (if t = DHCP_ACK then [bytes_of (path @ inet_ntop4 y @ ''|'') @ pad] else [])"
proof -
  obtain l1 s1 where s1: "dhcpSendAndRecv env a (replicate n Quiet @ Arrives f # es) xid t build s = dhcp_listen env a build xid t l1 (Arrives f # es) s1"
      "more_frames (n + 1) (\<lambda>f. frame_reads f dhost (dc_hw s) src dst m os') s s1"
    using exchange_quiet [OF s(1) send s(3), of env a n "Arrives f # es" t] by blast
  from s1(2) obtain fs where fs: "dc_net s1 = dc_net s @ fs" "length fs = n + 1" "\<forall>f \<in> set fs. frame_reads f dhost (dc_hw s) src dst m os'"
      "dc_token s1 = dc_token s" "dc_opts s1 = dc_opts s" "dc_out s1 = dc_out s"
    by (auto simp: more_frames_def)
  have k: "\<not> dc_token s1" "shaped (dc_opts s1)" using s(1,2) fs(4,5) by simp_all
  obtain l2 s2 pad where r: "dhcp_receive env a xid f l1 s1 = Some (Some t, l2, s2)" "heard t xid y os shost (da_LeaseTime a) s1 s2"
      "dc_net s2 = dc_net s1" "pad \<noteq> []" "\<forall>b \<in> set pad. b = 0"
      "dc_out s2 = dc_out s1 @ (if t = DHCP_ACK then [bytes_of (path @ inet_ntop4 y @ ''|'') @ pad] else [])"
    using answer_received [OF ans(1) k ans(2) ack, of env a l1] by (elim exE conjE) (rule that)
  have "dhcpSendAndRecv env a (replicate n Quiet @ Arrives f # es) xid t build s = Some (Done 0, s2)"
    using s1(1) r(1) by simp
  then show ?thesis using heard_frames [OF s1(2) r(2)] r(3-6) fs by auto
qed

section \<open>A lease\<close>

definition discover_frame :: "dhcp_args \<Rightarrow> u32 \<Rightarrow> 'a dhcp_client_scheme \<Rightarrow> byte list \<Rightarrow> bool" where
  "discover_frame a xid s f \<longleftrightarrow> (let i = dc_iface s; ci = di_ciaddr i in frame_reads f MAC_BCAST_ADDR (dc_hw s) 0 INADDR_BROADCAST
     ((waiting a (new_msg xid s))\<lparr>dm_ciaddr := (if da_BeRFC1541 a then ci else 0)\<rparr>)
     ((head_os DHCP_DISCOVER @ ask_os (ci \<noteq> 0 \<and> \<not> da_BeRFC1541 a) ci @ quad_os dhcpIPaddrLeaseTime (da_LeaseTime a)) @ tail_os a i))"

text \<open>The request names the server \<open>sid\<close>, and asks for its address \<open>ip\<close> and its lease time.\<close>

definition request_frame :: "dhcp_args \<Rightarrow> u32 \<Rightarrow> u32 \<Rightarrow> NID32 \<Rightarrow> u32 \<Rightarrow> 'a dhcp_client_scheme \<Rightarrow> byte list \<Rightarrow> bool" where
  "request_frame a xid sid ip lease s f \<longleftrightarrow> frame_reads f MAC_BCAST_ADDR (dc_hw s) 0 INADDR_BROADCAST
     ((waiting a (new_msg xid s))\<lparr>dm_ciaddr := (if da_BeRFC1541 a then ip else 0)\<rparr>)
     ((head_os DHCP_REQUEST @ quad_os dhcpServerIdentifier sid @ ask_os (\<not> da_BeRFC1541 a) ip @ quad_os dhcpIPaddrLeaseTime lease) @
       tail_os a (dc_iface s))"

lemma discover_always:
  assumes "iface_ok (dc_iface s)" "args_ok a" "length (dc_hw s) = ETH_ALEN"
  shows "always_sends (buildDhcpDiscover a) xid s MAC_BCAST_ADDR 0 INADDR_BROADCAST
    ((waiting a (new_msg xid s))\<lparr>dm_ciaddr := (if da_BeRFC1541 a then di_ciaddr (dc_iface s) else 0)\<rparr>)
    ((head_os DHCP_DISCOVER @ ask_os (di_ciaddr (dc_iface s) \<noteq> 0 \<and> \<not> da_BeRFC1541 a) (di_ciaddr (dc_iface s)) @
      quad_os dhcpIPaddrLeaseTime (da_LeaseTime a)) @ tail_os a (dc_iface s))"
  unfolding always_sends_def Let_def
proof (intro allI)
  fix f i net
  let ?s = "s\<lparr>dc_send := f, dc_ip_id := i, dc_net := net\<rparr>"
  have same: "dc_iface ?s = dc_iface s" by simp
  have "iface_ok (dc_iface ?s)" "length (dc_hw ?s) = ETH_ALEN" using assms by simp_all
  from discover_sends [OF this(1) assms(2) this(2), of xid]
  show "sends (buildDhcpDiscover a xid ?s) ?s MAC_BCAST_ADDR 0 INADDR_BROADCAST
    ((waiting a (new_msg xid s))\<lparr>dm_ciaddr := (if da_BeRFC1541 a then di_ciaddr (dc_iface s) else 0)\<rparr>)
    ((head_os DHCP_DISCOVER @ ask_os (di_ciaddr (dc_iface s) \<noteq> 0 \<and> \<not> da_BeRFC1541 a) (di_ciaddr (dc_iface s)) @
      quad_os dhcpIPaddrLeaseTime (da_LeaseTime a)) @ tail_os a (dc_iface s))"
    unfolding new_msg_same same .
qed

lemma request_always:
  assumes "iface_ok (dc_iface s)" "args_ok a" "length (dc_hw s) = ETH_ALEN"
    and w: "word_at (do_val (dc_opts s) dhcpServerIdentifier) = Some sid" "word_at (do_val (dc_opts s) dhcpIPaddrLeaseTime) = Some l"
  shows "always_sends (buildDhcpRequest a) xid s MAC_BCAST_ADDR 0 INADDR_BROADCAST
    ((waiting a (new_msg xid s))\<lparr>dm_ciaddr := (if da_BeRFC1541 a then di_ciaddr (dc_iface s) else 0)\<rparr>)
    ((head_os DHCP_REQUEST @ quad_os dhcpServerIdentifier sid @ ask_os (\<not> da_BeRFC1541 a) (di_ciaddr (dc_iface s)) @
      quad_os dhcpIPaddrLeaseTime l) @ tail_os a (dc_iface s))"
  unfolding always_sends_def Let_def
proof (intro allI)
  fix f i net
  let ?s = "s\<lparr>dc_send := f, dc_ip_id := i, dc_net := net\<rparr>"
  have lease: "\<forall>v. do_val (dc_opts ?s) dhcpIPaddrLeaseTime = Some v \<longrightarrow> 4 \<le> length v"
    using w(2) by (auto simp: word_at_def split: if_splits)
  have "iface_ok (dc_iface ?s)" "length (dc_hw ?s) = ETH_ALEN" "word_at (do_val (dc_opts ?s) dhcpServerIdentifier) = Some sid"
    and same: "lease_os (dc_opts ?s) = quad_os dhcpIPaddrLeaseTime l" "dc_iface ?s = dc_iface s"
    using assms by (simp_all add: lease_os_def)
  from request_request_sends [OF this(1) assms(2) this(2,3) lease, of xid]
  show "sends (buildDhcpRequest a xid ?s) ?s MAC_BCAST_ADDR 0 INADDR_BROADCAST
    ((waiting a (new_msg xid s))\<lparr>dm_ciaddr := (if da_BeRFC1541 a then di_ciaddr (dc_iface s) else 0)\<rparr>)
    ((head_os DHCP_REQUEST @ quad_os dhcpServerIdentifier sid @ ask_os (\<not> da_BeRFC1541 a) (di_ciaddr (dc_iface s)) @
      quad_os dhcpIPaddrLeaseTime l) @ tail_os a (dc_iface s))"
    unfolding new_msg_same same .
qed

text \<open>The request of a client that remembers its address.\<close>

definition reboot_frame :: "dhcp_args \<Rightarrow> u32 \<Rightarrow> 'a dhcp_client_scheme \<Rightarrow> byte list \<Rightarrow> bool" where
  "reboot_frame a xid s f \<longleftrightarrow> (let i = dc_iface s; ci = di_ciaddr i in frame_reads f MAC_BCAST_ADDR (dc_hw s) 0 INADDR_BROADCAST
     ((waiting a (new_msg xid s))\<lparr>dm_ciaddr := (if da_BeRFC1541 a then ci else 0)\<rparr>)
     ((head_os DHCP_REQUEST @ ask_os (\<not> da_BeRFC1541 a) ci @ quad_os dhcpIPaddrLeaseTime (da_LeaseTime a)) @ tail_os a i))"

lemma reboot_always:
  assumes "iface_ok (dc_iface s)" "args_ok a" "length (dc_hw s) = ETH_ALEN"
  shows "always_sends (buildDhcpReboot a) xid s MAC_BCAST_ADDR 0 INADDR_BROADCAST
    ((waiting a (new_msg xid s))\<lparr>dm_ciaddr := (if da_BeRFC1541 a then di_ciaddr (dc_iface s) else 0)\<rparr>)
    ((head_os DHCP_REQUEST @ ask_os (\<not> da_BeRFC1541 a) (di_ciaddr (dc_iface s)) @
      quad_os dhcpIPaddrLeaseTime (da_LeaseTime a)) @ tail_os a (dc_iface s))"
  unfolding always_sends_def Let_def
proof (intro allI)
  fix f i net
  let ?s = "s\<lparr>dc_send := f, dc_ip_id := i, dc_net := net\<rparr>"
  have same: "dc_iface ?s = dc_iface s" by simp
  have "iface_ok (dc_iface ?s)" "length (dc_hw ?s) = ETH_ALEN" using assms by simp_all
  from reboot_sends [OF this(1) assms(2) this(2), of xid]
  show "sends (buildDhcpReboot a xid ?s) ?s MAC_BCAST_ADDR 0 INADDR_BROADCAST
    ((waiting a (new_msg xid s))\<lparr>dm_ciaddr := (if da_BeRFC1541 a then di_ciaddr (dc_iface s) else 0)\<rparr>)
    ((head_os DHCP_REQUEST @ ask_os (\<not> da_BeRFC1541 a) (di_ciaddr (dc_iface s)) @
      quad_os dhcpIPaddrLeaseTime (da_LeaseTime a)) @ tail_os a (dc_iface s))"
    unfolding new_msg_same same .
qed

text \<open>The identifiers the requests carry do not depend on the addresses.\<close>

lemma tail_os_addresses [simp]:
  "tail_os a (i\<lparr>di_ciaddr := x\<rparr>) = tail_os a i" "tail_os a (i\<lparr>di_siaddr := x\<rparr>) = tail_os a i"
  "tail_os a (i\<lparr>di_shaddr := m\<rparr>) = tail_os a i" "tail_os a (i\<lparr>di_xid := xid\<rparr>) = tail_os a i"
  by (simp_all add: tail_os_def class_os_def client_os_def)

text \<open>An offer: the discover messages, and the state in which the request is built.\<close>

lemma init_offered:
  assumes ok: "ids_ok s" "args_ok a" "\<not> dc_token s" "\<not> da_SendSecondDiscover a"
    and ev: "ev_events env = replicate m Quiet @ Arrives f # es"
    and ans: "answers DHCP_OFFER (ev_xid env) ip os mac f" "ip \<noteq> 0" "opt_last os dhcpServerIdentifier = Some sidb"
  shows "\<exists>s3 ds l. dhcpInit env a ack s = dhcpRequest env a ack (ev_xid env) (buildDhcpRequest a) s3 \<and>
    dc_net s3 = dc_net s @ ds \<and> length ds = m + 1 \<and> (\<forall>f \<in> set ds. discover_frame a (ev_xid env) s f) \<and>
    ids_ok s3 \<and> shaped (dc_opts s3) \<and> dc_hw s3 = dc_hw s \<and> dc_token s3 = dc_token s \<and> dc_out s3 = dc_out s \<and>
    (\<exists>x y mc. dc_iface s3 = (dc_iface s)\<lparr>di_ciaddr := ip, di_siaddr := x, di_shaddr := mc, di_xid := y\<rparr>) \<and>
    word_at (do_val (dc_opts s3) dhcpServerIdentifier) = Some (be_word sidb) \<and> word_at (do_val (dc_opts s3) dhcpIPaddrLeaseTime) = Some l \<and>
    dp_prev_ip s3 = di_ciaddr (dc_iface s) \<and> dhcp_proc.more s3 = dhcp_proc.more s"
proof -
  let ?s0 = "s\<lparr>dc_opts := releaseDhcpOptions (dc_opts s)\<rparr>"
  have k: "\<not> dc_token ?s0" "shaped (dc_opts ?s0)" "length (dc_hw ?s0) = ETH_ALEN" "iface_ok (dc_iface ?s0)"
    using ok(1,3) by (simp_all add: ids_ok_def)
  have mac: "length MAC_BCAST_ADDR = ETH_ALEN" by simp
  have noack: "DHCP_OFFER = DHCP_ACK \<longrightarrow> opt_last os rootPath = Some (bytes_of [])" "no_nul []" by (simp_all add: no_nul_def)
  obtain s2 ds pad where r: "dhcpSendAndRecv env a (ev_events env) (ev_xid env) DHCP_OFFER (buildDhcpDiscover a) ?s0 = Some (Done 0, s2)"
      "heard DHCP_OFFER (ev_xid env) ip os mac (da_LeaseTime a) ?s0 s2"
      "dc_net s2 = dc_net ?s0 @ ds" "length ds = m + 1"
      "\<forall>f \<in> set ds. frame_reads f MAC_BCAST_ADDR (dc_hw ?s0) 0 INADDR_BROADCAST
        ((waiting a (new_msg (ev_xid env) ?s0))\<lparr>dm_ciaddr := (if da_BeRFC1541 a then di_ciaddr (dc_iface ?s0) else 0)\<rparr>)
        ((head_os DHCP_DISCOVER @ ask_os (di_ciaddr (dc_iface ?s0) \<noteq> 0 \<and> \<not> da_BeRFC1541 a) (di_ciaddr (dc_iface ?s0)) @
          quad_os dhcpIPaddrLeaseTime (da_LeaseTime a)) @ tail_os a (dc_iface ?s0))"
      "pad \<noteq> []" "\<forall>b \<in> set pad. b = 0"
      "dc_out s2 = dc_out ?s0 @ (if DHCP_OFFER = DHCP_ACK then [bytes_of ([] @ inet_ntop4 ip @ ''|'') @ pad] else [])"
    using exchange_answered [OF k(1-3) discover_always [OF k(4) ok(2) k(3)] mac ans(1,2) noack, of env a m es]
    unfolding ev [symmetric] by (elim exE conjE) (rule that)
  have new: "new_msg (ev_xid env) ?s0 = new_msg (ev_xid env) s" by (simp add: new_msg_def hw_type_def)
  have ds: "\<forall>f \<in> set ds. discover_frame a (ev_xid env) s f" using r(5) unfolding new
    by (cases "da_BeRFC1541 a") (simp_all add: discover_frame_def Let_def)
  have h: "same_client ?s0 s2" "length (dc_recv s2) = recv_len" "take 6 (drop 6 (dc_recv s2)) = mac" "dm_yiaddr (recv_msg s2) = ip"
      "dm_xid (recv_msg s2) = ev_xid env" "shaped (dc_opts s2)" "\<forall>c \<in> filled_in. do_val (dc_opts s2) c \<noteq> None"
      "word_at (do_val (dc_opts s2) dhcpServerIdentifier) = Some (be_word sidb)"
    using r(2) ans(3) unfolding heard_def by simp_all
  obtain l where l: "word_at (do_val (dc_opts s2) dhcpIPaddrLeaseTime) = Some l" using r(2) by (simp add: heard_def Let_def)
  have same: "dc_iface s2 = dc_iface s" "dc_hw s2 = dc_hw s" "dc_token s2 = dc_token s" "dhcp_client.more s2 = dhcp_client.more s"
    using h(1) by (simp_all add: same_client_def)
  let ?s3 = "s2\<lparr>dp_prev_ip := di_ciaddr (dc_iface s2), dc_iface := (dc_iface s2)\<lparr>di_ciaddr := ip, di_siaddr := be_word sidb,
    di_shaddr := mac, di_xid := ev_xid env\<rparr>\<rparr>"
  have t: "take_offer s2 = Some ?s3" using h(3-5,8) by (simp add: take_offer_def note_server_def Let_def)
  have run: "dhcpInit env a ack s = dhcpRequest env a ack (ev_xid env) (buildDhcpRequest a) ?s3"
    using r(1) ok(4) t by (simp add: dhcpInit_def)
  have ids: "ids_ok ?s3" using ok(1) h(2,3) same by (auto simp: ids_ok_def iface_ok_def)
  have "dhcp_proc.more s2 = dhcp_proc.more s" using same(4) by (cases s2; cases s) simp
  then show ?thesis using run ids h(6,8) l same r(3,4,8) ds
    by (intro exI [of _ ?s3] exI [of _ ds] exI [of _ l]) auto
qed

text \<open>An acknowledgement: the request messages, and the lease.\<close>

lemma request_acked:
  assumes ok: "ids_ok s" "\<not> dc_token s" "\<not> da_TestCase a" "shaped (dc_opts s)"
    and z: "0 \<in> set (di_class_id (dc_iface s))" and e: "ce_setaddr (ev_config env)" "\<forall>m. ce_setmask (ev_config env) m"
    and send: "always_sends build xid s MAC_BCAST_ADDR src dst m os'"
    and ans: "answers DHCP_ACK xid y os mac f" "y \<noteq> 0" "opt_last os dhcpServerIdentifier = Some sidb" "opt_last os rootPath = Some (bytes_of path)"
      "no_nul path" "opt_last os dhcpIPaddrLeaseTime = Some lb" "be_word lb = l" "l \<notin> {0, 0xFFFFFFFF}"
  shows "\<exists>s' rs arp pad. dhcpRequest env a (replicate n Quiet @ Arrives f # es) xid build s = Some (Goto Bound, s') \<and>
    dc_net s' = dc_net s @ rs @ [arp] \<and> length rs = n + 1 \<and>
    (\<forall>f \<in> set rs. frame_reads f MAC_BCAST_ADDR (dc_hw s) src dst m os') \<and>
    dp_addr s' = di_ciaddr (dc_iface s) \<and> di_ciaddr (dc_iface s') = di_ciaddr (dc_iface s) \<and> di_siaddr (dc_iface s') = be_word sidb \<and>
    di_shaddr (dc_iface s') = mac \<and> pad \<noteq> [] \<and> (\<forall>b \<in> set pad. b = 0) \<and>
    dc_out s' = dc_out s @ [bytes_of (path @ inet_ntop4 y @ ''|'') @ pad] \<and>
    word_at (do_val (dc_opts s') dhcpIPaddrLeaseTime) = Some l \<and>
    word_at (do_val (dc_opts s') dhcpT1value) = Some (timer_value (map_option be_word (opt_last os dhcpT1value)) (t1_of l)) \<and>
    word_at (do_val (dc_opts s') dhcpT2value) = Some (timer_value (map_option be_word (opt_last os dhcpT2value)) (t2_of l)) \<and>
    dp_ReqSentTime s' = ev_now env 1 \<and> dp_cache s' = dp_cache (write_cache s) \<and>
    dp_hooks s' = dp_hooks s @ [if di_ciaddr (dc_iface s) = dp_prev_ip s then ''up'' else ''new''] \<and>
    (\<forall>d. opt_last os subnetMask = Some d \<longrightarrow> dp_mask s' = be_word d) \<and> dhcp_proc.more s' = dhcp_proc.more s"
proof -
  have k: "length (dc_hw s) = ETH_ALEN" using ok(1) by (simp add: ids_ok_def)
  have mac: "length MAC_BCAST_ADDR = ETH_ALEN" by simp
  have ack: "DHCP_ACK = DHCP_ACK \<longrightarrow> opt_last os rootPath = Some (bytes_of path)" using ans(4) by simp
  obtain s1 rs pad where r: "dhcpSendAndRecv env a (replicate n Quiet @ Arrives f # es) xid DHCP_ACK build s = Some (Done 0, s1)"
      "heard DHCP_ACK xid y os mac (da_LeaseTime a) s s1" "dc_net s1 = dc_net s @ rs" "length rs = n + 1"
      "\<forall>f \<in> set rs. frame_reads f MAC_BCAST_ADDR (dc_hw s) src dst m os'"
      "pad \<noteq> []" "\<forall>b \<in> set pad. b = 0"
      "dc_out s1 = dc_out s @ (if DHCP_ACK = DHCP_ACK then [bytes_of (path @ inet_ntop4 y @ ''|'') @ pad] else [])"
    using exchange_answered [OF ok(2,4) k send mac ans(1,2) ack ans(5), of env a n es]
    by (elim exE conjE) (rule that)
  have tv: "timer_value (Some l) v = l" for v using ans(8) by (simp add: timer_value_def)
  have h: "same_client s s1" "length (dc_recv s1) = recv_len" "take 6 (drop 6 (dc_recv s1)) = mac"
      "0 \<in> set (drop (dc_off s1 + 44) (dc_recv s1))" "shaped (dc_opts s1)" "\<forall>c \<in> filled_in. do_val (dc_opts s1) c \<noteq> None"
      "word_at (do_val (dc_opts s1) dhcpServerIdentifier) = Some (be_word sidb)"
      "word_at (do_val (dc_opts s1) dhcpIPaddrLeaseTime) = Some l"
      "word_at (do_val (dc_opts s1) dhcpT1value) = Some (timer_value (map_option be_word (opt_last os dhcpT1value)) (t1_of l))"
      "word_at (do_val (dc_opts s1) dhcpT2value) = Some (timer_value (map_option be_word (opt_last os dhcpT2value)) (t2_of l))"
      "\<forall>d. opt_last os subnetMask = Some d \<longrightarrow> word_at (do_val (dc_opts s1) subnetMask) = Some (be_word d)"
    using r(2) ans(3,6,7) unfolding heard_def by (simp_all add: tv)
  let ?s1 = "s1\<lparr>dp_ReqSentTime := ev_now env 1\<rparr>"
  have same: "dc_iface ?s1 = dc_iface s" "dc_token ?s1 = dc_token s" "dhcp_client.more s1 = dhcp_client.more s"
    using h(1) by (simp_all add: same_client_def)
  have c: "conf_ok (dc_opts ?s1)" "0 \<in> set (di_class_id (dc_iface ?s1))" "0 \<in> set (drop (dc_off ?s1 + 44) (dc_recv ?s1))"
      "\<not> dc_token ?s1" using shaped_conf [OF h(5,6)] h(4) z same ok(2) by simp_all
  obtain s2 l2 where s2: "dhcpConfig (ev_config env) a ?s1 = Some (if l2 = 0xFFFFFFFF then Exits 0 else Returns 0, s2)"
      "word_at (do_val (dc_opts s2) dhcpIPaddrLeaseTime) = Some l2" "dp_addr s2 = di_ciaddr (dc_iface ?s1)"
      "\<exists>arp. dc_net s2 = dc_net ?s1 @ [arp]" "dp_ReqSentTime s2 = dp_ReqSentTime ?s1"
      "\<exists>m. word_at (do_val (dc_opts ?s1) subnetMask) = Some m \<and> dp_mask s2 = m" "dp_cache s2 = dp_cache (write_cache ?s1)"
      "dp_hooks s2 = dp_hooks ?s1 @ [if di_ciaddr (dc_iface ?s1) = dp_prev_ip ?s1 then ''up'' else ''new'']"
    using config_runs [OF c(1-3) e c(4) ok(3)] by blast
  have prc: "dp_hooks s1 = dp_hooks s" "dp_prev_ip s1 = dp_prev_ip s"
    using same(3) by (cases s1; cases s; simp)+
  have cache: "dp_cache (write_cache ?s1) = dp_cache (write_cache s)" using same(1) by (simp add: write_cache_def Let_def)
  have ck: "conf_kept ?s1 s2" by (rule config_kept [OF s2(1)])
  have vals: "do_val (dc_opts s2) c = do_val (dc_opts s1) c"
    if "c \<in> {dhcpIPaddrLeaseTime, dhcpT1value, dhcpT2value, dhcpServerIdentifier}" for c
    using ck that unfolding conf_kept_def by auto
  have l2: "l2 = l" using s2(2) h(8) vals [of dhcpIPaddrLeaseTime] by simp
  have kept: "dc_recv s2 = dc_recv s1" "dc_out s2 = dc_out s1" "dhcp_proc.more s2 = dhcp_proc.more s1"
    using ck by (simp_all add: conf_kept_def)
  obtain arp where arp: "dc_net s2 = dc_net s @ rs @ [arp]" using s2(4) r(3) by auto
  let ?s3 = "s2\<lparr>dc_iface := (dc_iface s2)\<lparr>di_siaddr := be_word sidb, di_shaddr := mac\<rparr>\<rparr>"
  have n: "note_server s2 = Some ?s3" using vals [of dhcpServerIdentifier] h(3,7) kept(1) by (simp add: note_server_def)
  have run: "dhcpRequest env a (replicate n Quiet @ Arrives f # es) xid build s = Some (Goto Bound, ?s3)"
    using r(1) s2(1) l2 ans(8) n by (simp add: dhcpRequest_def)
  have "dhcp_proc.more s1 = dhcp_proc.more s" using same(3) by (cases s1; cases s) simp
  then show ?thesis
    using run arp r(4-8) s2(3,5-8) prc cache conf_kept_iface(2) [OF ck] same(1) kept vals h(8-11)
    by (intro exI [of _ ?s3] exI [of _ rs] exI [of _ arp] exI [of _ pad]) auto
qed

section \<open>A refusal\<close>

lemma nak_received:
  assumes ans: "answers DHCP_NAK xid y os shost f" and s: "\<not> dc_token s" "shaped (dc_opts s)"
  shows "\<exists>l' s'. dhcp_receive env a xid f l s = Some (Some DHCP_NAK, l', s')"
proof -
  from ans obtain dhost src dst ipid m cookie rest where m: "answer_frame dhost shost src dst ipid m = Some f"
      "length dhost = ETH_ALEN" "length shost = ETH_ALEN" "dhcp_msg_ok m" "dm_op m = DHCP_BOOTREPLY" "dm_htype m = of_nat ARPHRD_ETHER"
      "dm_xid m = xid" "dm_yiaddr m = y" "dm_options m = options_field cookie os rest" "length cookie = 4" "reply_ok os"
      "opt_last os dhcpMessageType = Some [DHCP_NAK]"
    unfolding answers_def by (elim exE conjE) (rule that)
  let ?buf = "overlay (take recv_len f) (replicate recv_len 0)" and ?z = "replicate 964 (0 :: byte)"
  obtain p where p: "length f = 590" "?buf = dhost @ shost @ net16 ETHERTYPE_IP @ p @ encode_dhcp m @ ?z" "length p = 28" "p ! 0 = 0x45"
      "ip_offset (drop 14 ?buf) = 0" "recv_wanted False 590 ?buf (drop 14 ?buf)" "udpipchk (drop 14 ?buf) = Some (0, drop 14 ?buf)"
      "take 4 (drop 26 ?buf) = nid32_bytes src"
    using answer_heard [OF m(4,2,3,1)] unfolding Let_def by (elim exE conjE) (rule that)
  note d = buffer_message [OF m(4,2,3) p(3) m(9) p(2)]
  have ip0: "unat (drop 14 ?buf ! 0) mod 16 = 5" unfolding p(2) using m(2,3) p(3,4) by (simp add: nth_append)
  let ?s = "s\<lparr>dc_recv := ?buf, dc_off := 42\<rparr>"
  have sh: "shaped (dc_opts ?s)" using s(2) by simp
  have noack: "DHCP_NAK = DHCP_ACK \<longrightarrow> opt_last os rootPath = Some (bytes_of [])" "no_nul []" by (simp_all add: no_nul_def)
  obtain s1 where s1: "parseDhcpMsgRecv (da_LeaseTime a) (be_word (take 4 (drop 54 (dc_send s)))) (be_word (take 4 (drop 26 ?buf))) y
      (options_field cookie os (rest @ ?z)) ?s = Some (DHCP_NAK, s1)"
    using parse_shaped [OF sh m(11,10,12) noack, where lease = "da_LeaseTime a" and ciaddr = "be_word (take 4 (drop 54 (dc_send s)))"
      and ip_src = "be_word (take 4 (drop 26 ?buf))" and yiaddr = y and rest = "rest @ ?z"] by blast
  obtain s2 where s2: "recv_message a xid 42 (s\<lparr>dc_recv := ?buf\<rparr>) = Some (Some DHCP_NAK, s2)"
    using d s1 m(5-8) by (simp add: recv_message_def Let_def)
  have chk: "recv_check a xid 590 (s\<lparr>dc_recv := ?buf\<rparr>) = Some (Some DHCP_NAK, s2)"
    using recv_check_good [of "s\<lparr>dc_recv := ?buf\<rparr>" 590 a xid] s(1) p(5-7) ip0 s2 by simp
  obtain b x y' where ts: "timeval_subtract (ev_clk env (lo_n l)) (lo_begin l) = (b, x, y')" by (cases "timeval_subtract (ev_clk env (lo_n l)) (lo_begin l)") auto
  show ?thesis using s(1) chk p(1) ts by (simp add: dhcp_receive_def)
qed

lemma exchange_refused:
  assumes s: "\<not> dc_token s" "shaped (dc_opts s)" "length (dc_hw s) = ETH_ALEN"
    and send: "always_sends build xid s dhost src dst m os'" "length dhost = ETH_ALEN" "only_builds build"
    and ans: "answers DHCP_NAK xid y os shost f" "t \<noteq> DHCP_NAK"
  shows "\<exists>s'. dhcpSendAndRecv env a (replicate n Quiet @ Arrives f # es) xid t build s = Some (Done 1, s') \<and> same_client s s'"
proof -
  obtain l1 s1 where s1: "dhcpSendAndRecv env a (replicate n Quiet @ Arrives f # es) xid t build s = dhcp_listen env a build xid t l1 (Arrives f # es) s1"
      "more_frames (n + 1) (\<lambda>f. frame_reads f dhost (dc_hw s) src dst m os') s s1"
    using exchange_quiet [OF s(1) send(1,2) s(3), of env a n "Arrives f # es" t] by blast
  have k: "\<not> dc_token s1" "shaped (dc_opts s1)" using s(1,2) s1(2) by (auto simp: more_frames_def)
  obtain l2 s2 where "dhcp_receive env a xid f l1 s1 = Some (Some DHCP_NAK, l2, s2)" using nak_received [OF ans(1) k, of env a l1] by blast
  then have r: "dhcpSendAndRecv env a (replicate n Quiet @ Arrives f # es) xid t build s = Some (Done 1, s2)"
    using s1(1) ans(2) by simp
  show ?thesis using r exchange_keeps [OF send(3) r] by (auto simp: exchanged_def)
qed

section \<open>A client that remembers its address\<close>

lemma class_zero:
  assumes "classclientsetup uname a s = Some (s\<lparr>dc_iface := i\<rparr>)" "da_ClassID a = None"
  shows "0 \<in> set (di_class_id i)"
proof -
  from assms have "clientIDsetup a (s\<lparr>dc_iface := classIDsetup uname (dc_iface s)\<rparr>) = Some i"
    by (auto simp: classclientsetup_def bind_eq_Some_conv dest: arg_cong [of _ _ dc_iface])
  then have "di_class_id i = di_class_id (classIDsetup uname (dc_iface s))"
    by (auto simp: clientIDsetup_def Let_def split: if_splits)
  then show ?thesis by (simp add: classIDsetup_def overlay_def)
qed

text \<open>Behind the start of a client that finds the cache of an earlier one stands its request for the address in it.\<close>

lemma reboot_asks:
  assumes c: "iface_ok (dc_iface t)" "dp_cache s = dp_cache (write_cache t)" and fit: "args_fit a" "env_fit env" "da_ClassID a = None"
    and e: "\<not> dc_token s" "\<not> ev_token env"
  shows "\<exists>s1. dhcpReboot env a s = dhcpRequest env a (ev_events env) (ev_xid env) (buildDhcpReboot a) s1 \<and>
    ids_ok s1 \<and> \<not> dc_token s1 \<and> shaped (dc_opts s1) \<and> 0 \<in> set (di_class_id (dc_iface s1)) \<and>
    di_ciaddr (dc_iface s1) = di_ciaddr (dc_iface t) \<and> dp_prev_ip s1 = di_ciaddr (dc_iface t) \<and>
    dc_hw s1 = start_hw (ev_hw env) \<and> dc_net s1 = dc_net s \<and> dc_out s1 = dc_out s \<and> dp_hooks s1 = dp_hooks s \<and>
    dhcp_proc.more s1 = dhcp_proc.more s"
proof -
  let ?o = "\<lparr>do_num = 0, do_len = (\<lambda>_. 0), do_val = (\<lambda>_. None)\<rparr>"
  let ?s0 = "(dhcpStart env s)\<lparr>dc_opts := ?o, dc_iface := zero_iface\<rparr>"
  have s0: "?s0\<lparr>dp_cache := dp_cache (write_cache t)\<rparr> = ?s0" using c(2) by (simp add: dhcpStart_def Let_def)
  obtain s1 where s1: "readDhcpCache ?s0 = (0, s1)" "dc_iface s1 = dc_iface (write_cache t)" "dp_prev_ip s1 = di_ciaddr (dc_iface t)"
    using cache_read_back [OF c(1), of ?s0] unfolding s0 by blast
  have same: "s1 = ?s0\<lparr>dc_iface := dc_iface s1, dp_prev_ip := dp_prev_ip s1\<rparr>"
    using s1(1) by (auto simp: readDhcpCache_def Let_def split: option.splits if_splits)
  have hw: "dc_hw s1 = start_hw (ev_hw env)" "dc_token s1 = False" "dc_opts s1 = ?o" "dc_net s1 = dc_net s" "dc_out s1 = dc_out s"
      "dp_hooks s1 = dp_hooks s" "dhcp_proc.more s1 = dhcp_proc.more s"
    by (subst same, use e in \<open>simp add: dhcpStart_def Let_def\<close>)+
  have l: "length (dc_hw s1) = ETH_ALEN" using fit(2) unfolding hw(1) by (simp add: start_hw_def env_fit_def)
  note cl = cache_lengths(1-3) [OF s1(1)]
  obtain i where i: "classclientsetup (ev_uname env) a s1 = Some (s1\<lparr>dc_iface := i\<rparr>)" "iface_ok i" "di_ciaddr i = di_ciaddr (dc_iface s1)"
    using setup_ids [OF fit(1,2) cl l] by blast
  have run: "dhcpReboot env a s = dhcpRequest env a (ev_events env) (ev_xid env) (buildDhcpReboot a) (s1\<lparr>dc_iface := i\<rparr>)"
    using s1(1) i(1) by (simp add: dhcpReboot_def Let_def)
  have "shaped ?o" using shaped_release [of ?o] by (simp add: releaseDhcpOptions_def)
  then show ?thesis using run i(2,3) l hw s1(2,3) class_zero [OF i(1) fit(3)]
    by (intro exI [of _ "s1\<lparr>dc_iface := i\<rparr>"]) (simp add: ids_ok_def write_cache_def Let_def)
qed

end
