(* ===== verification/DHCP_Properties.thy ===== *)
theory DHCP_Properties
  imports DHCP_Acquire
begin

text \<open>
  The properties of the DHCP client's protocol: a lease is taken, kept over a restart, given up when nobody answers; the form
  of the client in all its states; what its messages say; and what a refusal leaves behind. With the client, the server's answers
  and the environments they are applied at.
\<close>

section \<open>A client to apply them at\<close>

definition args0 :: dhcp_args where
  "args0 = \<lparr>da_BeRFC1541 = False, da_BroadcastResp = False, da_DoCheckSum = True, da_SendSecondDiscover = False, da_TestCase = False,
     da_HostName = Some ''nid5'', da_ClassID = None, da_ClientID = None, da_LeaseTime = 0xFFFFFFFF, da_ReplResolvConf = True,
     da_ReplNISConf = False, da_ReplNTPConf = False, da_SetHostName = False, da_SetDomainName = False,
     da_SetDHCPDefaultRoutes = True, da_default_router = 0, da_Window = 0, da_IfNameExt = ''eth0''\<rparr>"

definition mac0 :: "byte list" where "mac0 = [0, 16, 32, 48, 64, 80]"
definition server_mac :: "byte list" where "server_mac = [0, 1, 2, 3, 4, 5]"

definition iface0 :: dhcp_iface where
  "iface0 = zero_iface\<lparr>di_class_id := overlay (bytes_of ''Linux'') (replicate 48 0), di_class_len := 5,
     di_client_id := overlay ([61, 7, 1] @ mac0) (replicate 48 0), di_client_len := 9\<rparr>"

definition file0 :: conf_file where "file0 = \<lparr>cf_text = None, cf_saved = None, cf_renamed = False\<rparr>"

text \<open>A client that was just started, on Ethernet, with an alarm pending.\<close>

definition client_started :: dhcp_main where
  "client_started = \<lparr>dc_opts = \<lparr>do_num = 0, do_len = (\<lambda>_. 0), do_val = (\<lambda>_. None)\<rparr>, dc_yiaddr = 0, dc_out = [], dc_iface = iface0, dc_hw = mac0,
     dc_token = False, dc_inform = 0, dc_ip_id = 7, dc_send = replicate 1554 0, dc_recv = replicate 1554 0, dc_off = 42, dc_net = [],
     dp_addr = 0, dp_mask = 0, dp_bcast = 0, dp_routes = [], dp_resolv = file0, dp_nis = file0, dp_ntp = file0, dp_hostname = [],
     dp_domainname = [], dp_InitialHostName = None, dp_InitialDomainName = None, dp_cache = None, dp_info = None, dp_info_old = None,
     dp_prev_ip = 0, dp_ReqSentTime = 0, dp_hooks = [], pr_alarm = True, pr_daemon = False\<rparr>"

definition kernel0 :: config_env where
  "kernel0 = \<lparr>ce_setaddr = True, ce_setmask = (\<lambda>_. True), ce_setbcast = True, ce_addrt = (\<lambda>_ _. RtOk), ce_hostbyaddr = (\<lambda>_. None)\<rparr>"

text \<open>An environment at the time \<open>t\<close> with the events \<open>es\<close>.\<close>

definition env_at :: "int \<Rightarrow> link_event list \<Rightarrow> client_env" where
  "env_at t es = \<lparr>ev_events = es, ev_more = [], ev_clk = (\<lambda>i. \<lparr>tv_sec = t + int i, tv_usec = 0\<rparr>), ev_now = (\<lambda>_. t), ev_rnd = (\<lambda>_. 0),
     ev_xid = 77, ev_hw = (\<lambda>_. mac0), ev_token = False, ev_uname = ''Linux'', ev_ifaddr = None, ev_config = kernel0\<rparr>"

lemma env_at_fields [simp]:
  "ev_events (env_at t es) = es" "ev_xid (env_at t es) = 77" "ev_config (env_at t es) = kernel0" "ev_now (env_at t es) = (\<lambda>_. t)"
  "ev_hw (env_at t es) = (\<lambda>_. mac0)" "ev_token (env_at t es) = False" "ev_uname (env_at t es) = ''Linux''" "ev_ifaddr (env_at t es) = None"
  by (simp_all add: env_at_def)

lemma kernel0_ok: "ce_setaddr kernel0" "ce_setmask kernel0 m"
  by (simp_all add: kernel0_def)

lemma args0_ok: "args_fit args0" "args_ok args0" "env_fit (env_at t es)"
  by (simp_all add: args_fit_def args_ok_def args0_def env_fit_def mac0_def)

lemma iface0_ok: "iface_ok iface0" "0 \<in> set (di_class_id iface0)"
  by (simp_all add: iface0_def iface_ok_def zero_iface_def mac0_def overlay_def bytes_of_def)

lemma fresh_ids: "ids_ok client_started" "0 \<in> set (di_class_id (dc_iface client_started))" "\<not> dc_token client_started" "client_ok Init client_started"
  using iface0_ok by (simp_all add: ids_ok_def client_ok_def client_started_def mac0_def)

text \<open>The options of a server's answers.\<close>

definition offer_os :: "(byte \<times> byte list) list" where
  "offer_os = [(53, [DHCP_OFFER]), (54, [10, 0, 0, 2])]"

definition root_path :: string where "root_path = ''3ffe::1|3ffe::2|10.0.0.2|3ffe::7|10.0.0.7|3ffe::5|''"

definition ack_os :: "(byte \<times> byte list) list" where
  "ack_os = [(53, [DHCP_ACK]), (54, [10, 0, 0, 2]), (51, [0, 0, 14, 16]), (1, [255, 255, 255, 0]), (17, bytes_of root_path)]"

definition nak_os :: "(byte \<times> byte list) list" where
  "nak_os = [(53, [DHCP_NAK]), (54, [10, 0, 0, 2])]"

text \<open>A server's message with given options.\<close>

definition server_msg :: "u32 \<Rightarrow> NID32 \<Rightarrow> (byte \<times> byte list) list \<Rightarrow> dhcpMessage" where
  "server_msg xid y os = \<lparr>dm_op = DHCP_BOOTREPLY, dm_htype = 1, dm_hlen = 6, dm_hops = 0, dm_xid = xid, dm_secs = 0, dm_flags = 0, dm_ciaddr = 0,
     dm_yiaddr = y, dm_siaddr = 167772162, dm_giaddr = 0, dm_chaddr = overlay mac0 (replicate 16 0), dm_sname = replicate 64 0,
     dm_file = replicate 128 0, dm_options = options_field (be_bytes 4 MAGIC_COOKIE) os (replicate (307 - length (enc_options os)) 0)\<rparr>"

lemma server_answers:
  assumes "reply_ok os" "opt_last os dhcpMessageType = Some [t]"
  shows "\<exists>f. answers t xid y os server_mac f"
proof -
  let ?m = "server_msg xid y os"
  have m: "dhcp_msg_ok ?m" using assms(1)
    by (simp add: dhcp_msg_ok_def server_msg_def mac0_def overlay_def options_field_def reply_ok_def)
  let ?b = "replicate 28 0 @ encode_dhcp ?m"
  have lm: "length (encode_dhcp ?m) = dhcp_msg_len" by (rule length_encode_dhcp [OF m])
  have "28 + unat (of_nat dhcp_msg_len :: u16) \<le> length ?b" "unat (of_nat dhcp_msg_len :: u16) \<le> 65500" using lm by simp_all
  from udpipchk_built [OF this, of 167772162 y DHCP_SERVER_PORT DHCP_CLIENT_PORT 1] obtain h where
    "\<forall>rest. udpipgen (?b @ rest) 167772162 y DHCP_SERVER_PORT DHCP_CLIENT_PORT (of_nat dhcp_msg_len) 1 = Some (h @ drop 28 ?b @ rest, 1 + 1) \<and>
       udpipchk (h @ drop 28 ?b @ rest) = Some (0, h @ drop 28 ?b @ rest)"
    by (elim exE conjE) (rule that)
  from spec [OF this, of "[]"] have "\<exists>f. answer_frame mac0 server_mac 167772162 y 1 ?m = Some f" by (simp add: answer_frame_def)
  then obtain f where f: "answer_frame mac0 server_mac 167772162 y 1 ?m = Some f" by blast
  have "answers t xid y os server_mac f"
    unfolding answers_def
    by (rule exI [of _ mac0], rule exI [of _ 167772162], rule exI [of _ y], rule exI [of _ 1], rule exI [of _ ?m],
        rule exI [of _ "be_bytes 4 MAGIC_COOKIE"], rule exI [of _ "replicate (307 - length (enc_options os)) 0"])
      (use f m assms in \<open>simp add: mac0_def server_mac_def server_msg_def\<close>)
  then show ?thesis by blast
qed

lemma os_ok: "reply_ok offer_os" "reply_ok ack_os" "reply_ok nak_os" "no_nul root_path"
  by (simp_all add: reply_ok_def offer_os_def ack_os_def nak_os_def root_path_def plain_options_def enc_options_def opt_shape_def bytes_of_def no_nul_def)


section \<open>Properties\<close>

lemma request_frame_same:
  assumes "dc_hw s' = dc_hw s" "dc_token s' = dc_token s" "tail_os a (dc_iface s') = tail_os a (dc_iface s)"
  shows "request_frame a xid sid ip l s' = request_frame a xid sid ip l s"
  using assms by (simp add: request_frame_def [abs_def] new_msg_def hw_type_def)

lemma proc_more: "dhcp_proc.more s' = dhcp_proc.more s \<Longrightarrow> pr_alarm s' = pr_alarm s \<and> pr_daemon s' = pr_daemon s"
  by (cases s; cases s') simp

text \<open>The round of a client in \<open>dhcpInit\<close>: the offer is taken, then the acknowledgement.\<close>

lemma init_bound:
  fixes s :: "'a dhcp_main_scheme"
  assumes s: "client_ok Init s" "args_ok a" "\<not> dc_token s" "\<not> da_SendSecondDiscover a" "\<not> da_TestCase a" "0 \<in> set (di_class_id (dc_iface s))"
    and kernel: "ce_setaddr (ev_config env)" "\<forall>m. ce_setmask (ev_config env) m"
    and events: "ev_events env = replicate m Quiet @ Arrives f1 # es1" "acks = replicate n Quiet @ Arrives f2 # es2"
    and offer: "answers DHCP_OFFER (ev_xid env) ip os1 mac1 f1" "ip \<noteq> 0" "opt_last os1 dhcpServerIdentifier = Some sid1"
    and ack: "answers DHCP_ACK (ev_xid env) y os2 mac2 f2" "y \<noteq> 0" "opt_last os2 dhcpServerIdentifier = Some sid2"
      "opt_last os2 rootPath = Some (bytes_of path)" "no_nul path" "opt_last os2 dhcpIPaddrLeaseTime = Some lb" "be_word lb = l" "l \<notin> {0, 0xFFFFFFFF}"
  shows "\<exists>s' ds rs arp pad lo. client_round env a acks Init s = Some (Goto Bound, s') \<and>
    dc_net s' = dc_net s @ ds @ rs @ [arp] \<and>
    length ds = m + 1 \<and> (\<forall>f \<in> set ds. discover_frame a (ev_xid env) s f) \<and>
    length rs = n + 1 \<and> (\<forall>f \<in> set rs. request_frame a (ev_xid env) (be_word sid1) ip lo s f) \<and>
    dp_addr s' = ip \<and> (\<forall>d. opt_last os2 subnetMask = Some d \<longrightarrow> dp_mask s' = be_word d) \<and>
    di_ciaddr (dc_iface s') = ip \<and> di_siaddr (dc_iface s') = be_word sid2 \<and> di_shaddr (dc_iface s') = mac2 \<and>
    pad \<noteq> [] \<and> (\<forall>b \<in> set pad. b = 0) \<and> dc_out s' = dc_out s @ [bytes_of (path @ inet_ntop4 y @ ''|'') @ pad] \<and>
    word_at (do_val (dc_opts s') dhcpIPaddrLeaseTime) = Some l \<and>
    word_at (do_val (dc_opts s') dhcpT1value) = Some (timer_value (map_option be_word (opt_last os2 dhcpT1value)) (t1_of l)) \<and>
    word_at (do_val (dc_opts s') dhcpT2value) = Some (timer_value (map_option be_word (opt_last os2 dhcpT2value)) (t2_of l)) \<and>
    dp_ReqSentTime s' = ev_now env 1 \<and> pr_daemon s' \<and> (pr_alarm s' \<longleftrightarrow> pr_alarm s \<and> pr_daemon s) \<and>
    (\<exists>t :: 'a dhcp_main_scheme. iface_ok (dc_iface t) \<and> di_ciaddr (dc_iface t) = ip \<and> dp_cache s' = dp_cache (write_cache t))"
proof -
  have ids: "ids_ok s" using s(1) by (simp add: client_ok_def ids_ok_def)
  obtain s3 ds lo x z mc where r3: "dhcpInit env a acks s = dhcpRequest env a acks (ev_xid env) (buildDhcpRequest a) s3"
      "dc_net s3 = dc_net s @ ds" "length ds = m + 1" "\<forall>f \<in> set ds. discover_frame a (ev_xid env) s f"
      "ids_ok s3" "shaped (dc_opts s3)" "dc_hw s3 = dc_hw s" "dc_token s3 = dc_token s" "dc_out s3 = dc_out s"
      "dc_iface s3 = (dc_iface s)\<lparr>di_ciaddr := ip, di_siaddr := x, di_shaddr := mc, di_xid := z\<rparr>"
      "word_at (do_val (dc_opts s3) dhcpServerIdentifier) = Some (be_word sid1)" "word_at (do_val (dc_opts s3) dhcpIPaddrLeaseTime) = Some lo"
      "dp_prev_ip s3 = di_ciaddr (dc_iface s)" "dhcp_proc.more s3 = dhcp_proc.more s"
    using init_offered [OF ids s(2-4) events(1) offer, of acks] by (elim exE conjE) (rule that)
  have i3: "di_ciaddr (dc_iface s3) = ip" "tail_os a (dc_iface s3) = tail_os a (dc_iface s)" "0 \<in> set (di_class_id (dc_iface s3))"
    using r3(10) s(6) by auto
  have k: "iface_ok (dc_iface s3)" "length (dc_hw s3) = ETH_ALEN" "\<not> dc_token s3" using r3(5,8) s(3) by (simp_all add: ids_ok_def)
  have send: "always_sends (buildDhcpRequest a) (ev_xid env) s3 MAC_BCAST_ADDR 0 INADDR_BROADCAST
    ((waiting a (new_msg (ev_xid env) s3))\<lparr>dm_ciaddr := (if da_BeRFC1541 a then di_ciaddr (dc_iface s3) else 0)\<rparr>)
    ((head_os DHCP_REQUEST @ quad_os dhcpServerIdentifier (be_word sid1) @ ask_os (\<not> da_BeRFC1541 a) (di_ciaddr (dc_iface s3)) @
      quad_os dhcpIPaddrLeaseTime lo) @ tail_os a (dc_iface s3))"
    by (rule request_always [OF k(1) s(2) k(2) r3(11,12)])
  obtain s4 rs arp pad where r4: "dhcpRequest env a acks (ev_xid env) (buildDhcpRequest a) s3 = Some (Goto Bound, s4)"
      "dc_net s4 = dc_net s3 @ rs @ [arp]" "length rs = n + 1" "\<forall>f \<in> set rs. request_frame a (ev_xid env) (be_word sid1) ip lo s3 f"
      "dp_addr s4 = ip" "di_ciaddr (dc_iface s4) = ip" "di_siaddr (dc_iface s4) = be_word sid2" "di_shaddr (dc_iface s4) = mac2"
      "pad \<noteq> []" "\<forall>b \<in> set pad. b = 0" "dc_out s4 = dc_out s3 @ [bytes_of (path @ inet_ntop4 y @ ''|'') @ pad]"
      "word_at (do_val (dc_opts s4) dhcpIPaddrLeaseTime) = Some l"
      "word_at (do_val (dc_opts s4) dhcpT1value) = Some (timer_value (map_option be_word (opt_last os2 dhcpT1value)) (t1_of l))"
      "word_at (do_val (dc_opts s4) dhcpT2value) = Some (timer_value (map_option be_word (opt_last os2 dhcpT2value)) (t2_of l))"
      "dp_ReqSentTime s4 = ev_now env 1" "dp_cache s4 = dp_cache (write_cache s3)"
      "dp_hooks s4 = dp_hooks s3 @ [if di_ciaddr (dc_iface s3) = dp_prev_ip s3 then ''up'' else ''new'']"
      "\<forall>d. opt_last os2 subnetMask = Some d \<longrightarrow> dp_mask s4 = be_word d" "dhcp_proc.more s4 = dhcp_proc.more s3"
    using request_acked [where build = "buildDhcpRequest a", OF r3(5) k(3) s(5) r3(6) i3(3) kernel send ack, of n es2]
    unfolding events(2) [symmetric] by (elim exE conjE) (rule that; (assumption | simp only: i3(1) request_frame_def))
  have pr: "pr_alarm s4 = pr_alarm s" "pr_daemon s4 = pr_daemon s" using proc_more r3(14) r4(19) by metis+
  have fr: "\<forall>f \<in> set rs. request_frame a (ev_xid env) (be_word sid1) ip lo s f"
    using r4(4) request_frame_same [OF r3(7,8) i3(2)] by simp
  let ?s = "if pr_daemon s then s4 else s4\<lparr>pr_alarm := False, pr_daemon := True\<rparr>"
  have "client_round env a acks Init s = Some (Goto Bound, ?s)"
    using r3(1) r4(1) pr by (simp add: client_round_def run_state_def)
  moreover have "\<exists>t :: 'a dhcp_main_scheme. iface_ok (dc_iface t) \<and> di_ciaddr (dc_iface t) = ip \<and> dp_cache s4 = dp_cache (write_cache t)"
    using k(1) i3(1) r4(16) by blast
  ultimately show ?thesis
    using r3(2-4,9) r4 fr pr
    by (intro exI [of _ ?s] exI [of _ ds] exI [of _ rs] exI [of _ arp] exI [of _ pad] exI [of _ lo]) (cases "pr_daemon s"; simp)
qed




text \<open>C21. A restart resumes the lease. A client that starts with the cache an earlier one wrote asks for the very address in it,
  and when a server acknowledges it is in \<open>dhcpBound\<close> with that address on its interface, without a discovery, and
  calls the script with \<open>up\<close>, not \<open>new\<close>.\<close>

theorem reboot_resumes:
  fixes s :: "'a dhcp_main_scheme"
  assumes cache: "dp_cache s = dp_cache (write_cache t)" "iface_ok (dc_iface t)"
    and fit: "args_fit a" "env_fit env" "da_ClassID a = None" "\<not> da_TestCase a" "\<not> dc_token s" "\<not> ev_token env"
    and kernel: "ce_setaddr (ev_config env)" "\<forall>m. ce_setmask (ev_config env) m"
    and events: "ev_events env = replicate n Quiet @ Arrives f # es"
    and ack: "answers DHCP_ACK (ev_xid env) y os mac f" "y \<noteq> 0" "opt_last os dhcpServerIdentifier = Some sid"
      "opt_last os rootPath = Some (bytes_of path)" "no_nul path" "opt_last os dhcpIPaddrLeaseTime = Some lb" "be_word lb = l" "l \<notin> {0, 0xFFFFFFFF}"
  shows "\<exists>s' (s1 :: 'a dhcp_main_scheme) rs arp pad. client_round env a acks Reboot s = Some (Goto Bound, s') \<and>
    dc_net s' = dc_net s @ rs @ [arp] \<and> length rs = n + 1 \<and>
    di_ciaddr (dc_iface s1) = di_ciaddr (dc_iface t) \<and> (\<forall>f \<in> set rs. reboot_frame a (ev_xid env) s1 f) \<and>
    dp_addr s' = di_ciaddr (dc_iface t) \<and> di_ciaddr (dc_iface s') = di_ciaddr (dc_iface t) \<and>
    dp_hooks s' = dp_hooks s @ [''up''] \<and> di_siaddr (dc_iface s') = be_word sid \<and>
    pad \<noteq> [] \<and> (\<forall>b \<in> set pad. b = 0) \<and> dc_out s' = dc_out s @ [bytes_of (path @ inet_ntop4 y @ ''|'') @ pad] \<and>
    word_at (do_val (dc_opts s') dhcpIPaddrLeaseTime) = Some l \<and> dp_ReqSentTime s' = ev_now env 1 \<and> pr_daemon s'"
proof -
  obtain s1 where r1: "dhcpReboot env a s = dhcpRequest env a (ev_events env) (ev_xid env) (buildDhcpReboot a) s1" "ids_ok s1" "\<not> dc_token s1"
      "shaped (dc_opts s1)" "0 \<in> set (di_class_id (dc_iface s1))" "di_ciaddr (dc_iface s1) = di_ciaddr (dc_iface t)"
      "dp_prev_ip s1 = di_ciaddr (dc_iface t)" "dc_hw s1 = start_hw (ev_hw env)" "dc_net s1 = dc_net s" "dc_out s1 = dc_out s"
      "dp_hooks s1 = dp_hooks s" "dhcp_proc.more s1 = dhcp_proc.more s"
    using reboot_asks [OF cache(2,1) fit(1,2,3,5,6)] by (elim exE conjE) (rule that)
  have k: "iface_ok (dc_iface s1)" "length (dc_hw s1) = ETH_ALEN" "args_ok a" using r1(2) fit(1) by (simp_all add: ids_ok_def args_fit_def)
  obtain s2 rs arp pad where r2: "dhcpRequest env a (ev_events env) (ev_xid env) (buildDhcpReboot a) s1 = Some (Goto Bound, s2)"
      "dc_net s2 = dc_net s1 @ rs @ [arp]" "length rs = n + 1" "\<forall>f \<in> set rs. reboot_frame a (ev_xid env) s1 f"
      "dp_addr s2 = di_ciaddr (dc_iface s1)" "di_ciaddr (dc_iface s2) = di_ciaddr (dc_iface s1)" "di_siaddr (dc_iface s2) = be_word sid"
      "pad \<noteq> []" "\<forall>b \<in> set pad. b = 0" "dc_out s2 = dc_out s1 @ [bytes_of (path @ inet_ntop4 y @ ''|'') @ pad]"
      "word_at (do_val (dc_opts s2) dhcpIPaddrLeaseTime) = Some l" "dp_ReqSentTime s2 = ev_now env 1"
      "dp_hooks s2 = dp_hooks s1 @ [if di_ciaddr (dc_iface s1) = dp_prev_ip s1 then ''up'' else ''new'']"
    using request_acked [where build = "buildDhcpReboot a", OF r1(2,3) fit(4) r1(4,5) kernel reboot_always [OF k(1,3,2)] ack, of n es]
    unfolding events [symmetric] by (elim exE conjE) (rule that; (assumption | simp only: reboot_frame_def Let_def))
  let ?s = "if pr_daemon s2 then s2 else s2\<lparr>pr_alarm := False, pr_daemon := True\<rparr>"
  have "client_round env a acks Reboot s = Some (Goto Bound, ?s)" using r1(1) r2(1) by (simp add: client_round_def run_state_def)
  then show ?thesis using r1(6,7,9-11) r2
    by (intro exI [of _ ?s] exI [of _ s1] exI [of _ rs] exI [of _ arp] exI [of _ pad]) (cases "pr_daemon s2"; simp)
qed

text \<open>The client with a lease for an hour, taken at 1000.\<close>

definition lease_opts :: dhcp_options where
  "lease_opts = \<lparr>do_num = 7, do_len = (\<lambda>c. if c \<in> filled_in then 4 else 0),
     do_val = (\<lambda>c. if c \<in> filled_in then Some (be_bytes 4 (if c = 51 then 3600 :: u32 else if c = 58 then 1800 else if c = 59 then 3150
       else if c = 1 then 0xFFFFFF00 else 167772162) @ [0]) else None)\<rparr>"

definition client_leased :: dhcp_main where
  "client_leased = client_started\<lparr>dc_opts := lease_opts, dc_iface := iface0\<lparr>di_ciaddr := 167772165, di_siaddr := 167772162, di_shaddr := server_mac\<rparr>,
     dp_addr := 167772165, dp_ReqSentTime := 1000, pr_alarm := False, pr_daemon := True\<rparr>"

lemma lease_opts_ok: "shaped lease_opts" "timers_ok lease_opts" "\<forall>c \<in> filled_in. do_val lease_opts c \<noteq> None"
  by (auto simp: shaped_def opts_ok_def opt_text_def lease_opts_def opt_shape_def filled_in_def timers_ok_def)

lemma leased_ok: "client_ok Bound client_leased" "client_ok Rebind client_leased" "\<not> dc_token client_leased" "shaped (dc_opts client_leased)"
  using iface0_ok lease_opts_ok(1,2) by (simp_all add: client_ok_def client_leased_def client_started_def mac0_def server_mac_def iface_ok_def)

lemma leased_runs: "1000 \<le> t \<Longrightarrow> t < 2800 \<Longrightarrow> runs (env_at t es) dhcpT1value client_leased"
  "1000 \<le> t \<Longrightarrow> t < 4150 \<Longrightarrow> runs (env_at t es) dhcpT2value client_leased"
  "1000 \<le> t \<Longrightarrow> t < 4600 \<Longrightarrow> runs (env_at t es) dhcpIPaddrLeaseTime client_leased"
  by (simp_all add: runs_def client_leased_def lease_opts_def filled_in_def)


lemma reboot_resumes_witness:
  "\<exists>f s'. client_round (env_at 5000 [Arrives f]) args0 [] Reboot (client_started\<lparr>dp_cache := dp_cache (write_cache client_leased)\<rparr>) = Some (Goto Bound, s') \<and>
     length (dc_net s') = 2 \<and> dp_addr s' = 167772165 \<and> dp_hooks s' = [''up'']"
proof -
  obtain f where f: "answers DHCP_ACK 77 167772165 ack_os server_mac f"
    using server_answers [OF os_ok(2), of DHCP_ACK 77 167772165] by (auto simp: ack_os_def)
  let ?e = "env_at 5000 [Arrives f]" and ?s = "client_started\<lparr>dp_cache := dp_cache (write_cache client_leased)\<rparr>"
  have c: "dp_cache ?s = dp_cache (write_cache client_leased)" "iface_ok (dc_iface client_leased)" using leased_ok(1) by (simp_all add: client_ok_def)
  have a: "da_ClassID args0 = None" "\<not> da_TestCase args0" "\<not> dc_token ?s" by (simp_all add: args0_def client_started_def)
  have e: "\<not> ev_token ?e" "ev_events ?e = replicate 0 Quiet @ Arrives f # []"
      "ce_setaddr (ev_config ?e)" "\<forall>m. ce_setmask (ev_config ?e) m" "answers DHCP_ACK (ev_xid ?e) 167772165 ack_os server_mac f"
    using kernel0_ok f by simp_all
  have nz: "(167772165 :: NID32) \<noteq> 0" by simp
  have o2: "opt_last ack_os dhcpServerIdentifier = Some [10, 0, 0, 2]" "opt_last ack_os rootPath = Some (bytes_of root_path)"
      "opt_last ack_os dhcpIPaddrLeaseTime = Some [0, 0, 14, 16]" by (simp_all add: ack_os_def)
  have l: "be_word [0, 0, 14, 16] = (3600 :: u32)" "(3600 :: u32) \<notin> {0, 0xFFFFFFFF}" by (simp_all add: be_word_def)
  obtain s' rs arp where "client_round ?e args0 [] Reboot ?s = Some (Goto Bound, s')" "dc_net s' = dc_net ?s @ rs @ [arp]" "length rs = 0 + 1"
      "dp_addr s' = di_ciaddr (dc_iface client_leased)" "dp_hooks s' = dp_hooks ?s @ [''up'']"
    using reboot_resumes [OF c args0_ok(1) args0_ok(3) a e(1,3,4,2,5) nz o2(1,2) os_ok(4) o2(3) l, of "[]"] by blast
  then show ?thesis by (intro exI [of _ f] exI [of _ s']) (simp add: client_leased_def client_started_def)
qed


lemma round_rebind_refused:
  assumes ids: "ids_ok s" "args_ok a" "timers_ok (dc_opts s)" "shaped (dc_opts s)" "\<not> dc_token s" "runs env dhcpIPaddrLeaseTime s"
    and ev: "ev_events env = replicate m Quiet @ Arrives f # es" "answers DHCP_NAK (ev_xid env) y os mac f"
  shows "\<exists>s'. client_round env a ack Rebind s = Some (Goto Stop, s') \<and> pr_alarm s' \<and> ids_ok s' \<and> \<not> dc_token s'"
proof -
  let ?s = "s\<lparr>pr_alarm := True\<rparr>"
  obtain i where i: "timer_left env dhcpIPaddrLeaseTime s = Some i" "0 < i" using runs_left [OF ids(6)] by blast
  have k: "\<not> dc_token ?s" "shaped (dc_opts ?s)" "length (dc_hw ?s) = ETH_ALEN" "iface_ok (dc_iface ?s)" "timers_ok (dc_opts ?s)"
    using ids(1,3-5) by (simp_all add: ids_ok_def)
  have mac: "length MAC_BCAST_ADDR = ETH_ALEN" and t: "DHCP_ACK \<noteq> DHCP_NAK" by simp_all
  obtain s1 where s1: "dhcpSendAndRecv env a (ev_events env) (ev_xid env) DHCP_ACK (buildDhcpRebind a) ?s = Some (Done 1, s1)" "same_client ?s s1"
    using exchange_refused [OF k(1-3) rebind_always [OF k(4) ids(2) k(3,5)] mac builders_only(4) ev(2) t, of env a m es] unfolding ev(1) by blast
  have "dhcp_client.more s1 = dhcp_client.more ?s" using s1(2) by (simp add: same_client_def)
  then have "pr_alarm s1" by (cases s1; cases s) simp
  moreover have "ids_ok s1" "\<not> dc_token s1" using s1(2) ids(1,5) by (auto simp: same_client_def ids_ok_def)
  moreover have "client_round env a ack Rebind s = Some (Goto Stop, s1)"
    using i s1(1) by (simp add: client_round_def run_state_def dhcpRebind_def)
  ultimately show ?thesis by blast
qed

lemma round_init_silent:
  assumes "ids_ok s" "args_ok a" "\<not> dc_token s" "pr_alarm s" "ev_events env = replicate n Quiet"
  shows "\<exists>s'. client_round env a ack Init s = Some (Ended SIGALRM, s') \<and> length (dc_net s') = length (dc_net s) + n + 1"
proof -
  let ?s = "s\<lparr>dc_opts := releaseDhcpOptions (dc_opts s)\<rparr>"
  have k: "iface_ok (dc_iface ?s)" "length (dc_hw ?s) = ETH_ALEN" "\<not> dc_token ?s" using assms(1,3) by (simp_all add: ids_ok_def)
  have mac: "length MAC_BCAST_ADDR = ETH_ALEN" by simp
  obtain s1 P where s1: "dhcpSendAndRecv env a (ev_events env) (ev_xid env) DHCP_OFFER (buildDhcpDiscover a) ?s = Some (Waiting, s1)"
      "more_frames (n + 1) P ?s s1"
    using exchange_silent [OF k(3) discover_always [OF k(1) assms(2) k(2)] mac k(2), of env a n "ev_xid env" DHCP_OFFER] assms(5) by auto
  have "pr_alarm s1" "length (dc_net s1) = length (dc_net s) + n + 1" using s1(2) assms(4) by (auto simp: more_frames_def)
  then show ?thesis using s1(1)
    by (auto simp: client_round_def run_state_def dhcpInit_def alarm_raised dhcpStop_def Let_def)
qed

text \<open>C35. A refusal while rebinding ends the client later. \<open>dhcpRebind\<close> sets the alarm for the end of the lease; when the server
  refuses, the client goes through \<open>dhcpStop\<close> and \<open>dhcpStart\<close> to \<open>dhcpInit\<close> with the alarm still pending, and when it
  goes off there before a new lease is taken, the signal handler ends the process. A client nobody answers at all goes on instead.\<close>

theorem nak_leaves_alarm:
  assumes s: "client_ok Rebind s" "args_ok a" "shaped (dc_opts s)" "\<not> dc_token s" "runs e1 dhcpIPaddrLeaseTime s"
    and nak: "ev_events e1 = replicate m Quiet @ Arrives f # es" "answers DHCP_NAK (ev_xid e1) y os mac f"
    and later: "\<forall>i. length (ev_hw e3 i) = ETH_ALEN" "\<not> ev_token e3" "ev_events e4 = replicate n Quiet"
  shows "\<exists>s'. client_run a [(e1, k1), (e2, k2), (e3, k3), (e4, k4)] Rebind s = Some (Ended SIGALRM, s')"
proof -
  have ids: "ids_ok s" "timers_ok (dc_opts s)" using s(1) by (simp_all add: client_ok_def ids_ok_def)
  obtain s1 where s1: "client_round e1 a k1 Rebind s = Some (Goto Stop, s1)" "pr_alarm s1" "ids_ok s1" "\<not> dc_token s1"
    using round_rebind_refused [OF ids(1) s(2) ids(2) s(3-5) nak, of k1] by blast
  let ?s3 = "dhcpStart e3 (dhcpStop a s1)"
  have s3: "pr_alarm ?s3" "ids_ok ?s3" "\<not> dc_token ?s3"
    using s1(2-4) later(1,2) by (simp_all add: dhcpStart_def dhcpStop_def ids_ok_def start_hw_def Let_def)
  have "client_round e2 a k2 Stop s1 = Some (Goto Start, dhcpStop a s1)" "client_round e3 a k3 Start (dhcpStop a s1) = Some (Goto Init, ?s3)"
    by (simp_all add: client_round_def run_state_def)
  then show ?thesis using s1(1) round_init_silent [OF s3(2) s(2) s3(3,1) later(3), of k4] by auto
qed

theorem nak_leaves_alarm_witness:
  "\<exists>f s'. client_run args0 [(env_at 4200 [Arrives f], []), (env_at 4200 [], []), (env_at 4200 [], []), (env_at 4200 [Quiet], [])] Rebind client_leased
      = Some (Ended SIGALRM, s')"
proof -
  obtain f where f: "answers DHCP_NAK 77 0 nak_os server_mac f"
    using server_answers [OF os_ok(3), of DHCP_NAK 77 0] by (auto simp: nak_os_def)
  let ?e = "env_at 4200 [Arrives f]"
  have e: "ev_events ?e = replicate 0 Quiet @ Arrives f # []" "answers DHCP_NAK (ev_xid ?e) 0 nak_os server_mac f"
      "\<forall>i. length (ev_hw (env_at 4200 []) i) = ETH_ALEN" "\<not> ev_token (env_at 4200 [])" "ev_events (env_at 4200 [Quiet]) = replicate 1 Quiet"
      "runs ?e dhcpIPaddrLeaseTime client_leased"
    using f leased_runs by (simp_all add: mac0_def)
  show ?thesis using nak_leaves_alarm [OF leased_ok(2) args0_ok(2) leased_ok(4,3) e(6,1-5)] by blast
qed



lemma fresh_reboot:
  "client_round (env_at 1000 []) args0 [] Reboot client_started = Some (Goto Init, client_started\<lparr>dc_ip_id := start_id 1000 mac0\<rparr>)"
proof -
  have m: "mac0 \<noteq> replicate ETH_ALEN 0" using replicate_Suc [of 5 "0 :: byte"] replicate_Suc [of 4 "0 :: byte"] by (simp add: mac0_def)
  have z: "replicate 43 (0 :: byte) = 0 # replicate 42 0" using replicate_Suc [of 42 "0 :: byte"] by simp
  have i: "classclientsetup ''Linux'' args0 (client_started\<lparr>dc_iface := zero_iface, dc_ip_id := start_id 1000 mac0\<rparr>)
      = Some (client_started\<lparr>dc_ip_id := start_id 1000 mac0\<rparr>)"
    by (simp add: classclientsetup_def args0_def classIDsetup_def clientIDsetup_def client_started_def iface0_def zero_iface_def mac0_def
        overlay_def bytes_of_def hw_type_def Let_def z)
  have "dhcpStart (env_at 1000 []) client_started = client_started\<lparr>dc_ip_id := start_id 1000 mac0\<rparr>"
    using m by (simp add: dhcpStart_def start_hw_def client_started_def)
  then have "dhcpReboot (env_at 1000 []) args0 client_started = Some (Goto Init, client_started\<lparr>dc_ip_id := start_id 1000 mac0\<rparr>)"
    using i by (simp add: dhcpReboot_def readDhcpCache_def Let_def) (simp add: client_started_def)
  then show ?thesis by (simp add: client_round_def run_state_def)
qed


text \<open>A lease for a client like this one.\<close>

lemma acquired_here:
  assumes s: "ids_ok s" "\<not> dc_token s" "0 \<in> set (di_class_id (dc_iface s))"
    and f: "answers DHCP_OFFER 77 167772165 offer_os server_mac f1" "answers DHCP_ACK 77 167772165 ack_os server_mac f2"
  shows "\<exists>s'. client_round (env_at 1000 [Arrives f1]) args0 [Arrives f2] Init s = Some (Goto Bound, s')"
proof -
  let ?e = "env_at 1000 [Arrives f1]"
  have a: "\<not> da_SendSecondDiscover args0" "\<not> da_TestCase args0" by (simp_all add: args0_def)
  have nz: "(167772165 :: NID32) \<noteq> 0" by simp
  have o1: "opt_last offer_os dhcpServerIdentifier = Some [10, 0, 0, 2]" by (simp add: offer_os_def)
  obtain s3 ds lo x z mc where r3: "dhcpInit ?e args0 [Arrives f2] s = dhcpRequest ?e args0 [Arrives f2] 77 (buildDhcpRequest args0) s3"
      "dc_net s3 = dc_net s @ ds" "ids_ok s3" "shaped (dc_opts s3)" "dc_token s3 = dc_token s"
      "dc_iface s3 = (dc_iface s)\<lparr>di_ciaddr := 167772165, di_siaddr := x, di_shaddr := mc, di_xid := z\<rparr>"
      "word_at (do_val (dc_opts s3) dhcpServerIdentifier) = Some (be_word [10, 0, 0, 2])" "word_at (do_val (dc_opts s3) dhcpIPaddrLeaseTime) = Some lo"
    using init_offered [OF s(1) args0_ok(2) s(2) a(1), of ?e 0 f1 "[]" 167772165 offer_os server_mac "[10, 0, 0, 2]" "[Arrives f2]"] f(1) nz o1 by auto
  have k: "iface_ok (dc_iface s3)" "length (dc_hw s3) = ETH_ALEN" "\<not> dc_token s3" "0 \<in> set (di_class_id (dc_iface s3))"
    using r3(3,5,6) s by (simp_all add: ids_ok_def)
  have e: "ce_setaddr (ev_config ?e)" "\<forall>m. ce_setmask (ev_config ?e) m" using kernel0_ok by simp_all
  have o2: "opt_last ack_os dhcpServerIdentifier = Some [10, 0, 0, 2]" "opt_last ack_os rootPath = Some (bytes_of root_path)"
      "opt_last ack_os dhcpIPaddrLeaseTime = Some [0, 0, 14, 16]" by (simp_all add: ack_os_def)
  have l: "be_word [0, 0, 14, 16] = (3600 :: u32)" "(3600 :: u32) \<notin> {0, 0xFFFFFFFF}" by (simp_all add: be_word_def)
  obtain s4 where "dhcpRequest ?e args0 (replicate 0 Quiet @ Arrives f2 # []) 77 (buildDhcpRequest args0) s3 = Some (Goto Bound, s4)"
    using request_acked [where build = "buildDhcpRequest args0", OF r3(3) k(3) a(2) r3(4) k(4) e
      request_always [OF k(1) args0_ok(2) k(2) r3(7,8)] f(2) nz o2(1,2) os_ok(4) o2(3) l, of 0 "[]"] by blast
  then show ?thesis using r3(1) by (simp add: client_round_def run_state_def)
qed








lemma static_route_mask_witness: "getgenmask 0x0A010000 = 0xFFFF0000"
proof -
  let ?p = "0x0A010000 :: u32"
  have c: "class_bits ?p = 24" by (simp add: class_bits_def)
  obtain j where j: "j \<le> 24" "getgenmask ?p = NOT (mask j)" "?p AND getgenmask ?p = ?p" "\<forall>i. j < i \<and> i \<le> 24 \<longrightarrow> ?p AND mask i \<noteq> 0"
    using static_route_mask [of ?p] unfolding c by blast
  have "\<not> j < 16"
    using spec [OF j(4), of 16] by (auto simp: mask_eq_exp_minus_1)
  moreover have "\<not> 16 < j"
  proof
    assume "16 < j"
    then have "\<not> bit (?p AND NOT (mask j)) 16" by (simp add: bit_and_iff bit_not_iff bit_mask_iff)
    moreover have "bit ?p 16" by simp
    ultimately show False using j(2,3) by simp
  qed
  ultimately have "j = 16" by simp
  then show ?thesis using j(2) by (simp add: mask_eq_exp_minus_1)
qed

end
