(* ===== verification/DHCP_Command.thy ===== *)
theory DHCP_Command
  imports DHCP_Lease
begin

text \<open>
  The start of the DHCP client: the command line of \<open>src/src/dhcpcd-1.3.22-pl4/dhcpcd.c\<close> and the pid file of \<open>signals.c\<close>.
  \<open>main\<close> walks over the words of the command line and, inside a word that starts with a dash, over its letters; most
  letters are flags, which may be joined in one word, the others take the next word and must end theirs. Words without a
  dash are collected, and the first is the interface. \<open>inet_aton\<close> is an argument of the definitions. \<open>None\<close> stands for the
  usage message and \<open>exit(1)\<close>.

  Shown: what an accepted command line guarantees and what it does not; flags may be joined or not; the command line of the daemon.
\<close>

section \<open>The values of the command line\<close>

text \<open>\<open>co_kill\<close> is \<open>killFlag\<close>, \<open>co_state\<close> is \<open>currState\<close>, \<open>co_inform\<close> is \<open>inform_ipaddr\<close>.\<close>

record dhcp_command =
  co_args :: dhcp_args
  co_IfName :: string
  co_Cfilename :: "string option"
  co_ConfigDir :: string
  co_TimeOut :: int
  co_DebugFlag :: bool
  co_kill :: int
  co_version :: bool
  co_state :: state_fun
  co_inform :: NID32

abbreviation IFNAMSIZ :: nat where "IFNAMSIZ \<equiv> 16"

definition default_args :: dhcp_args where
  "default_args = \<lparr>da_BeRFC1541 = False, da_BroadcastResp = False, da_DoCheckSum = False, da_SendSecondDiscover = False, da_TestCase = False,
     da_HostName = None, da_ClassID = None, da_ClientID = None, da_LeaseTime = 0xFFFFFFFF, da_ReplResolvConf = True,
     da_ReplNISConf = True, da_ReplNTPConf = True, da_SetHostName = False, da_SetDomainName = False,
     da_SetDHCPDefaultRoutes = True, da_default_router = 0, da_Window = 0, da_IfNameExt = ''eth0''\<rparr>"

definition default_command :: dhcp_command where
  "default_command = \<lparr>co_args = default_args, co_IfName = ''eth0'', co_Cfilename = None, co_ConfigDir = ''/etc/dhcpc'', co_TimeOut = 60,
     co_DebugFlag = False, co_kill = 0, co_version = False, co_state = Reboot, co_inform = 0\<rparr>"

text \<open>\<open>atol\<close> is the value \<open>atoi\<close> reads, cut off at the ends of a \<open>long\<close>.\<close>

definition atol :: "string \<Rightarrow> int" where
  "atol str = max (- (2 ^ 63)) (min (2 ^ 63 - 1) (atoi str))"

definition dashed :: "string \<Rightarrow> bool" where
  "dashed w \<longleftrightarrow> (case w of [] \<Rightarrow> False | x # _ \<Rightarrow> x = CHR ''-'')"

section \<open>One letter\<close>

definition set_args :: "(dhcp_args \<Rightarrow> dhcp_args) \<Rightarrow> dhcp_command \<Rightarrow> dhcp_command" where
  "set_args f c = c\<lparr>co_args := f (co_args c)\<rparr>"

definition flag_table :: "(char \<times> (dhcp_command \<Rightarrow> dhcp_command)) list" where
  "flag_table =
    [(CHR ''k'', \<lambda>c. c\<lparr>co_kill := SIGHUP\<rparr>),
     (CHR ''n'', \<lambda>c. c\<lparr>co_kill := SIGALRM\<rparr>),
     (CHR ''d'', \<lambda>c. c\<lparr>co_DebugFlag := True\<rparr>),
     (CHR ''r'', set_args (\<lambda>a. a\<lparr>da_BeRFC1541 := True\<rparr>)),
     (CHR ''D'', set_args (\<lambda>a. a\<lparr>da_SetDomainName := True\<rparr>)),
     (CHR ''H'', set_args (\<lambda>a. a\<lparr>da_SetHostName := True\<rparr>)),
     (CHR ''R'', set_args (\<lambda>a. a\<lparr>da_ReplResolvConf := False\<rparr>)),
     (CHR ''Y'', set_args (\<lambda>a. a\<lparr>da_ReplNISConf := False\<rparr>)),
     (CHR ''N'', set_args (\<lambda>a. a\<lparr>da_ReplNTPConf := False\<rparr>)),
     (CHR ''V'', \<lambda>c. c\<lparr>co_version := True\<rparr>),
     (CHR ''B'', set_args (\<lambda>a. a\<lparr>da_BroadcastResp := True\<rparr>)),
     (CHR ''C'', set_args (\<lambda>a. a\<lparr>da_DoCheckSum := True\<rparr>)),
     (CHR ''T'', set_args (\<lambda>a. a\<lparr>da_TestCase := True\<rparr>)),
     (CHR ''S'', set_args (\<lambda>a. a\<lparr>da_SendSecondDiscover := True\<rparr>))]"

definition flag_letter :: "char \<Rightarrow> dhcp_command \<Rightarrow> dhcp_command option" where
  "flag_letter x c = map_option (\<lambda>f. f c) (map_of flag_table x)"

text \<open>The letters that take the next word. The length of a host name is looked at, but a name that is too long is kept.\<close>

definition word_letter :: "char \<Rightarrow> string \<Rightarrow> dhcp_command \<Rightarrow> dhcp_command option" where
  "word_letter x w c =
     (if x = CHR ''c'' then (if dashed w then None else Some (c\<lparr>co_Cfilename := Some w\<rparr>))
      else if x = CHR ''L'' then (if take 1 w = ''/'' then Some (c\<lparr>co_ConfigDir := w\<rparr>) else None)
      else if x = CHR ''i'' then
        (if dashed w \<or> \<not> length w < CLASS_ID_MAX_LEN + 1 then None else Some (set_args (\<lambda>a. a\<lparr>da_ClassID := Some w\<rparr>) c))
      else if x = CHR ''I'' then
        (if dashed w \<or> \<not> length w < CLIENT_ID_MAX_LEN + 1 then None else Some (set_args (\<lambda>a. a\<lparr>da_ClientID := Some w\<rparr>) c))
      else if x = CHR ''h'' then (if dashed w then None else Some (set_args (\<lambda>a. a\<lparr>da_HostName := Some w\<rparr>) c))
      else if x = CHR ''t'' then (if 0 < atol w then Some (c\<lparr>co_TimeOut := atol w\<rparr>) else None)
      else if x = CHR ''w'' then
        (if 0 \<le> int32 (atol w) then Some (set_args (\<lambda>a. a\<lparr>da_Window := nat (int32 (atol w))\<rparr>) c) else None)
      else if x = CHR ''l'' then
        (if (word_of_int (atol w) :: u32) \<noteq> 0 then Some (set_args (\<lambda>a. a\<lparr>da_LeaseTime := word_of_int (atol w)\<rparr>) c) else None)
      else None)"

text \<open>The two whose word, an address, may be missing.\<close>

definition addr_letter :: "char \<Rightarrow> NID32 \<Rightarrow> dhcp_command \<Rightarrow> dhcp_command option" where
  "addr_letter x ip c =
     (if x = CHR ''s'' then Some (c\<lparr>co_state := Inform, co_inform := ip\<rparr>)
      else if x = CHR ''G'' then Some (set_args (\<lambda>a. a\<lparr>da_SetDHCPDefaultRoutes := False, da_default_router := ip\<rparr>) c)
      else None)"

definition value_letter :: "(string \<Rightarrow> NID32 option) \<Rightarrow> char \<Rightarrow> string list \<Rightarrow> dhcp_command \<Rightarrow> (string list \<times> dhcp_command) option" where
  "value_letter aton x ws c =
     (if x \<in> {CHR ''s'', CHR ''G''} then
        (case ws of
           w # ws' \<Rightarrow> (case aton w of
               Some ip \<Rightarrow> map_option (\<lambda>c. (ws', c)) (addr_letter x ip c)
             | None \<Rightarrow> map_option (\<lambda>c. (ws, c)) (addr_letter x 0 c))
         | [] \<Rightarrow> map_option (\<lambda>c. ([], c)) (addr_letter x 0 c))
      else (case ws of w # ws' \<Rightarrow> map_option (\<lambda>c. (ws', c)) (word_letter x w c) | [] \<Rightarrow> None))"

section \<open>The walk\<close>

text \<open>The letters of a word; \<open>ws\<close> are the words behind it.\<close>

fun command_letters :: "(string \<Rightarrow> NID32 option) \<Rightarrow> string \<Rightarrow> string list \<Rightarrow> dhcp_command \<Rightarrow> (string list \<times> dhcp_command) option" where
  "command_letters aton [] ws c = Some (ws, c)"
| "command_letters aton (x # xs) ws c =
     (case flag_letter x c of
        Some c' \<Rightarrow> command_letters aton xs ws c'
      | None \<Rightarrow> if xs \<noteq> [] then None else value_letter aton x ws c)"

lemma value_letter_shorter: "value_letter aton x ws c = Some (ws', c') \<Longrightarrow> length ws' \<le> length ws"
  by (auto simp: value_letter_def split: if_splits list.splits option.splits)

lemma command_letters_shorter: "command_letters aton xs ws c = Some (ws', c') \<Longrightarrow> length ws' \<le> length ws"
  by (induction aton xs ws c rule: command_letters.induct) (auto split: option.splits if_splits dest: value_letter_shorter)

text \<open>The words; \<open>ops\<close> are those without a dash so far.\<close>

function command_words :: "(string \<Rightarrow> NID32 option) \<Rightarrow> string list \<Rightarrow> string list \<Rightarrow> dhcp_command \<Rightarrow> (string list \<times> dhcp_command) option" where
  "command_words aton [] ops c = Some (ops, c)"
| "command_words aton (w # ws) ops c =
     (if dashed w then
        (case command_letters aton (tl w) ws c of
           None \<Rightarrow> None | Some (ws', c') \<Rightarrow> command_words aton ws' ops c')
      else command_words aton ws (ops @ [w]) c)"
  by pat_completeness auto
termination
  by (relation "measure (\<lambda>(aton, ws, ops, c). length ws)") (auto dest: command_letters_shorter)

text \<open>The interface may be an alias with a colon; the packet socket is bound to what stands in front of it.\<close>

definition set_interface :: "string list \<Rightarrow> dhcp_command \<Rightarrow> dhcp_command option" where
  "set_interface ops c =
     (case ops of
        [] \<Rightarrow> Some c
      | n # _ \<Rightarrow>
          if IFNAMSIZ < length n then None
          else Some ((set_args (\<lambda>a. a\<lparr>da_IfNameExt := n\<rparr>) c)\<lparr>co_IfName := takeWhile (\<lambda>x. x \<noteq> CHR '':'') n\<rparr>))"

definition read_command :: "(string \<Rightarrow> NID32 option) \<Rightarrow> string list \<Rightarrow> dhcp_command option" where
  "read_command aton ws = (case command_words aton ws [] default_command of None \<Rightarrow> None | Some (ops, c) \<Rightarrow> set_interface ops c)"

section \<open>The start\<close>

text \<open>
  \<open>signals.c\<close>: the pid file as the number in it, and whether the process with this number can be sent a signal. For
  \<open>SIGALRM\<close> a client that does not run is no failure.
\<close>

definition killPid :: "int \<Rightarrow> (int \<Rightarrow> bool) \<Rightarrow> int option \<Rightarrow> outcome \<times> int option" where
  "killPid sig alive pidfile =
     (let gone = (if sig = SIGALRM then Returns 0 else Exits 1) in
      case pidfile of
        None \<Rightarrow> (gone, None)
      | Some pid \<Rightarrow> if alive pid then (Exits 0, Some pid) else (gone, None))"

definition checkIfAlreadyRunning :: "int option \<Rightarrow> outcome" where
  "checkIfAlreadyRunning pidfile = (if pidfile = None then Returns 0 else Exits 1)"

text \<open>\<open>main\<close> up to the loop: \<open>Inl\<close> is the code the process exits with, \<open>Inr\<close> the values it goes on with.\<close>

definition dhcpcd_start ::
  "bool \<Rightarrow> (string \<Rightarrow> NID32 option) \<Rightarrow> (int \<Rightarrow> bool) \<Rightarrow> bool \<Rightarrow> string list \<Rightarrow> int option \<Rightarrow> (int + dhcp_command) \<times> int option" where
  "dhcpcd_start root aton alive mkdir ws pidfile =
     (if \<not> root then (Inl 1, pidfile)
      else case read_command aton ws of
          None \<Rightarrow> (Inl 1, pidfile)
        | Some c \<Rightarrow>
            (let (k, pidfile) = (if co_kill c \<noteq> 0 then killPid (co_kill c) alive pidfile else (Returns 0, pidfile)) in
             case k of
               Exits e \<Rightarrow> (Inl e, pidfile)
             | Returns _ \<Rightarrow>
                 (case (if da_TestCase (co_args c) then Returns 0 else checkIfAlreadyRunning pidfile) of
                    Exits e \<Rightarrow> (Inl e, pidfile)
                  | Returns _ \<Rightarrow> (if mkdir then Inr c else Inl 1, pidfile))))"

text \<open>The client's state when the loop starts: the alarm is set, to the seconds as an \<open>unsigned\<close>.\<close>

definition loop_start :: "dhcp_command \<Rightarrow> 'a dhcp_main_scheme \<Rightarrow> 'a dhcp_main_scheme" where
  "loop_start c s = s\<lparr>pr_alarm := ((word_of_int (co_TimeOut c) :: u32) \<noteq> 0), dc_inform := co_inform c\<rparr>"

section \<open>What an accepted command line guarantees\<close>

definition args_bounded :: "dhcp_args \<Rightarrow> bool" where
  "args_bounded a \<longleftrightarrow> (\<forall>w. da_ClassID a = Some w \<longrightarrow> length w \<le> CLASS_ID_MAX_LEN) \<and>
     (\<forall>w. da_ClientID a = Some w \<longrightarrow> length w \<le> CLIENT_ID_MAX_LEN) \<and> da_LeaseTime a \<noteq> 0 \<and> da_Window a < 2 ^ 31"

definition command_ok :: "dhcp_command \<Rightarrow> bool" where
  "command_ok c \<longleftrightarrow> args_bounded (co_args c) \<and> 0 < co_TimeOut c \<and> take 1 (co_ConfigDir c) = ''/'' \<and>
     co_state c \<in> {Reboot, Inform} \<and> co_kill c \<in> {0, SIGHUP, SIGALRM}"

lemma default_ok: "command_ok default_command"
  by (simp add: command_ok_def args_bounded_def default_command_def default_args_def)

lemma int32_bound: "int32 i < 2 ^ 31"
  using sint_lt [of "word_of_int i :: 32 word"] by (simp add: int32_def)

lemma window_bound: "0 \<le> int32 i \<Longrightarrow> nat (int32 i) < 2 ^ 31"
  using int32_bound [of i] by (simp add: nat_less_iff)

lemma flag_letter_in: "flag_letter x c = Some c' \<Longrightarrow> \<forall>f \<in> snd ` set flag_table. P (f c) \<Longrightarrow> P c'"
  by (auto simp: flag_letter_def dest!: map_of_SomeD)

lemma flag_letter_ok: "flag_letter x c = Some c' \<Longrightarrow> command_ok c \<Longrightarrow> command_ok c'"
  by (erule flag_letter_in) (simp add: flag_table_def command_ok_def args_bounded_def set_args_def)

lemma command_ok_updates:
  "command_ok c \<Longrightarrow> command_ok (c\<lparr>co_Cfilename := f\<rparr>)"
  "command_ok c \<Longrightarrow> take 1 d = ''/'' \<Longrightarrow> command_ok (c\<lparr>co_ConfigDir := d\<rparr>)"
  "command_ok c \<Longrightarrow> 0 < t \<Longrightarrow> command_ok (c\<lparr>co_TimeOut := t\<rparr>)"
  "command_ok c \<Longrightarrow> length w < CLASS_ID_MAX_LEN + 1 \<Longrightarrow> command_ok (set_args (\<lambda>a. a\<lparr>da_ClassID := Some w\<rparr>) c)"
  "command_ok c \<Longrightarrow> length w < CLIENT_ID_MAX_LEN + 1 \<Longrightarrow> command_ok (set_args (\<lambda>a. a\<lparr>da_ClientID := Some w\<rparr>) c)"
  "command_ok c \<Longrightarrow> command_ok (set_args (\<lambda>a. a\<lparr>da_HostName := h\<rparr>) c)"
  "command_ok c \<Longrightarrow> 0 \<le> int32 i \<Longrightarrow> command_ok (set_args (\<lambda>a. a\<lparr>da_Window := nat (int32 i)\<rparr>) c)"
  "command_ok c \<Longrightarrow> l \<noteq> 0 \<Longrightarrow> command_ok (set_args (\<lambda>a. a\<lparr>da_LeaseTime := l\<rparr>) c)"
  using window_bound [of i] by (simp_all add: command_ok_def args_bounded_def set_args_def)

lemma word_letter_ok: "word_letter x w c = Some c' \<Longrightarrow> command_ok c \<Longrightarrow> command_ok c'"
  unfolding word_letter_def by (auto split: if_split_asm intro: command_ok_updates)

lemma addr_letter_ok: "addr_letter x ip c = Some c' \<Longrightarrow> command_ok c \<Longrightarrow> command_ok c'"
  by (auto simp: addr_letter_def command_ok_def args_bounded_def set_args_def split: if_splits)

lemma value_letter_ok: "value_letter aton x ws c = Some (ws', c') \<Longrightarrow> command_ok c \<Longrightarrow> command_ok c'"
  by (auto simp: value_letter_def split: if_splits list.splits option.splits dest: word_letter_ok addr_letter_ok)

lemma command_letters_ok: "command_letters aton xs ws c = Some (ws', c') \<Longrightarrow> command_ok c \<Longrightarrow> command_ok c'"
  by (induction aton xs ws c rule: command_letters.induct)
    (auto split: option.splits if_splits dest: flag_letter_ok value_letter_ok)

lemma command_words_ok: "command_words aton ws ops c = Some (ops', c') \<Longrightarrow> command_ok c \<Longrightarrow> command_ok c'"
  by (induction aton ws ops c rule: command_words.induct)
    (auto split: option.splits if_splits dest: command_letters_ok)

text \<open>The interface is only set at the end.\<close>

lemma flag_letter_iface: "flag_letter x c = Some c' \<Longrightarrow> da_IfNameExt (co_args c') = da_IfNameExt (co_args c) \<and> co_IfName c' = co_IfName c"
  by (erule flag_letter_in) (simp add: flag_table_def set_args_def)

lemma word_letter_iface: "word_letter x w c = Some c' \<Longrightarrow> da_IfNameExt (co_args c') = da_IfNameExt (co_args c) \<and> co_IfName c' = co_IfName c"
  by (auto simp: word_letter_def set_args_def split: if_splits)

lemma addr_letter_iface: "addr_letter x ip c = Some c' \<Longrightarrow> da_IfNameExt (co_args c') = da_IfNameExt (co_args c) \<and> co_IfName c' = co_IfName c"
  by (auto simp: addr_letter_def set_args_def split: if_splits)

lemma value_letter_iface:
  "value_letter aton x ws c = Some (ws', c') \<Longrightarrow> da_IfNameExt (co_args c') = da_IfNameExt (co_args c) \<and> co_IfName c' = co_IfName c"
  by (auto simp: value_letter_def split: if_splits list.splits option.splits dest: word_letter_iface addr_letter_iface)

lemma command_letters_iface:
  "command_letters aton xs ws c = Some (ws', c') \<Longrightarrow> da_IfNameExt (co_args c') = da_IfNameExt (co_args c) \<and> co_IfName c' = co_IfName c"
  by (induction aton xs ws c rule: command_letters.induct)
    (auto split: option.splits if_splits dest: flag_letter_iface value_letter_iface)

lemma command_words_iface:
  "command_words aton ws ops c = Some (ops', c') \<Longrightarrow> da_IfNameExt (co_args c') = da_IfNameExt (co_args c) \<and> co_IfName c' = co_IfName c"
  by (induction aton ws ops c rule: command_words.induct)
    (auto split: option.splits if_splits dest: command_letters_iface)

lemma accepted_ok:
  assumes "read_command aton ws = Some c"
  shows "command_ok c" "length (da_IfNameExt (co_args c)) \<le> IFNAMSIZ"
    "co_IfName c = takeWhile (\<lambda>x. x \<noteq> CHR '':'') (da_IfNameExt (co_args c))"
proof -
  obtain ops c1 where r: "command_words aton ws [] default_command = Some (ops, c1)" "set_interface ops c1 = Some c"
    using assms by (auto simp: read_command_def split: option.splits)
  note ok = command_words_ok [OF r(1) default_ok] and i = command_words_iface [OF r(1)]
  show "command_ok c" using ok r(2)
    by (auto simp: set_interface_def command_ok_def args_bounded_def set_args_def split: list.splits if_splits)
  show "length (da_IfNameExt (co_args c)) \<le> IFNAMSIZ" "co_IfName c = takeWhile (\<lambda>x. x \<noteq> CHR '':'') (da_IfNameExt (co_args c))"
    using i r(2) by (auto simp: set_interface_def set_args_def default_command_def default_args_def split: list.splits if_splits)
qed

text \<open>C31. What an accepted command line guarantees: class and client identifier are at most as long as their arrays, the lease time
  asked for and the time-out are not zero, the directory is absolute, the interface's name fits the kernel's structure, and the
  socket's interface is the part of it in front of a colon; the client begins in \<open>dhcpReboot\<close> or \<open>dhcpInform\<close>.\<close>

theorem command_line:
  assumes "read_command aton ws = Some c"
  shows "(case da_ClassID (co_args c) of Some w \<Rightarrow> length w \<le> CLASS_ID_MAX_LEN | None \<Rightarrow> True) \<and>
    (case da_ClientID (co_args c) of Some w \<Rightarrow> length w \<le> CLIENT_ID_MAX_LEN | None \<Rightarrow> True) \<and>
    da_LeaseTime (co_args c) \<noteq> 0 \<and> da_Window (co_args c) < 2 ^ 31 \<and> 0 < co_TimeOut c \<and> take 1 (co_ConfigDir c) = ''/'' \<and>
    length (da_IfNameExt (co_args c)) \<le> IFNAMSIZ \<and> co_IfName c = takeWhile (\<lambda>x. x \<noteq> CHR '':'') (da_IfNameExt (co_args c)) \<and>
    co_state c \<in> {Reboot, Inform} \<and> co_kill c \<in> {0, SIGHUP, SIGALRM}"
  using accepted_ok [OF assms] by (simp add: command_ok_def args_bounded_def split: option.split)

text \<open>What more the client's invariant needs: the class identifier is not empty, the client identifier leaves room for the three bytes in
  front of it, the host name is not too long. Then the loop starts in a state of the right form.\<close>

lemma accepted_fit:
  assumes "read_command aton ws = Some c" "da_ClassID (co_args c) \<noteq> Some []"
    and "\<forall>d. da_ClientID (co_args c) = Some d \<longrightarrow> length d \<le> CLIENT_ID_MAX_LEN - 3"
    and "\<forall>h. da_HostName (co_args c) = Some h \<longrightarrow> length h + 1 < HOSTNAME_MAX_LEN"
  shows "args_fit (co_args c)" "client_ok (co_state c) (loop_start c s)"
proof -
  show "args_fit (co_args c)" using accepted_ok(1) [OF assms(1)] assms(2-4)
    by (auto simp: args_fit_def args_ok_def command_ok_def args_bounded_def)
  show "client_ok (co_state c) (loop_start c s)" using accepted_ok(1) [OF assms(1)]
    by (auto simp: client_ok_def command_ok_def)
qed

section \<open>Flags in one word\<close>

fun set_flags :: "string \<Rightarrow> dhcp_command \<Rightarrow> dhcp_command option" where
  "set_flags [] c = Some c"
| "set_flags (x # xs) c = (case flag_letter x c of Some c' \<Rightarrow> set_flags xs c' | None \<Rightarrow> None)"

lemma command_letters_flags:
  "set_flags xs c = Some c' \<Longrightarrow> command_letters aton (xs @ ys) ws c = command_letters aton ys ws c'"
  by (induction xs c rule: set_flags.induct) (auto split: option.splits)

lemma flags_apart:
  assumes "set_flags xs c = Some c'"
  shows "command_words aton ((CHR ''-'' # xs @ ys) # ws) ops c = command_words aton ((CHR ''-'' # xs) # (CHR ''-'' # ys) # ws) ops c"
  using command_letters_flags [OF assms, of aton ys ws] command_letters_flags [OF assms, of aton "[]" "(CHR ''-'' # ys) # ws"]
  by (simp add: dashed_def)

section \<open>The daemon's command line\<close>

text \<open>\<open>nidd.c\<close> runs \<open>dhcpcd -YR\<close> with the name of its interface: no NIS file, no resolver's file.\<close>

lemma daemon_command:
  assumes "\<not> dashed n" "length n \<le> IFNAMSIZ"
  shows "dhcpcd_start True aton alive True [''-YR'', n] None =
    (Inr (default_command\<lparr>co_args := default_args\<lparr>da_ReplNISConf := False, da_ReplResolvConf := False, da_IfNameExt := n\<rparr>,
       co_IfName := takeWhile (\<lambda>x. x \<noteq> CHR '':'') n\<rparr>), None)"
proof -
  have "command_words aton [''-YR'', n] [] default_command
      = Some ([n], default_command\<lparr>co_args := default_args\<lparr>da_ReplNISConf := False, da_ReplResolvConf := False\<rparr>\<rparr>)"
    using assms(1) by (simp add: dashed_def flag_letter_def flag_table_def set_args_def default_command_def)
  then show ?thesis using assms(2)
    by (simp add: dhcpcd_start_def read_command_def set_interface_def set_args_def checkIfAlreadyRunning_def default_command_def default_args_def)
qed

text \<open>A second client for the same interface does not start.\<close>

lemma second_client:
  assumes "read_command aton ws = Some c" "co_kill c = 0" "\<not> da_TestCase (co_args c)"
  shows "dhcpcd_start True aton alive mkdir ws (Some pid) = (Inl 1, Some pid)"
  using assms by (simp add: dhcpcd_start_def checkIfAlreadyRunning_def)

text \<open>\<open>-k\<close> ends a client that runs, which is the end of the new process as well, and cleans up behind one that does not.\<close>

lemma kill_client:
  assumes "read_command aton ws = Some c" "co_kill c = SIGHUP"
  shows "dhcpcd_start True aton alive mkdir ws (Some pid) = (if alive pid then (Inl 0, Some pid) else (Inl 1, None))"
  using assms by (simp add: dhcpcd_start_def killPid_def)

text \<open>The host name may have any length: with one that does not fit the options no message can be built.\<close>

lemma long_host_name:
  assumes "300 \<le> length h" "\<not> dashed h" "iface_ok (dc_iface s)"
  shows "\<exists>c. read_command aton [''-h'', h] = Some c \<and> buildDhcpDiscover (co_args c) xid s = None"
proof -
  let ?c = "default_command\<lparr>co_args := default_args\<lparr>da_HostName := Some h\<rparr>\<rparr>"
  have "command_words aton [''-h'', h] [] default_command = Some ([], ?c)"
    using assms(2) by (simp add: dashed_def flag_letter_def flag_table_def value_letter_def word_letter_def set_args_def default_command_def)
  then have r: "read_command aton [''-h'', h] = Some ?c" by (simp add: read_command_def set_interface_def)
  have "put_options (type_option DHCP_DISCOVER @ max_size_option @ requested @ quad_option dhcpIPaddrLeaseTime w @
      param_request @ host_option (co_args ?c) @ cls @ client) m = None" for requested w cls client m
    using assms(1) by (simp add: put_options_def host_option_def type_option_def max_size_option_def param_request_def Let_def)
  then have "buildDhcpDiscover (co_args ?c) xid s = None"
    using class_option_enc [OF assms(3)] client_option_enc [OF assms(3)]
    by (simp add: buildDhcpDiscover_def request_tail_def Let_def)
  then show ?thesis using r by blast
qed

theorem command_line_witness:
  "\<exists>c. read_command (\<lambda>_. None) [''-rBI'', ''nid5'', ''eth0:1'', ''-d''] = Some c \<and> da_ClientID (co_args c) = Some ''nid5'' \<and>
     da_BeRFC1541 (co_args c) \<and> co_DebugFlag c \<and> co_IfName c = ''eth0'' \<and> length (da_IfNameExt (co_args c)) \<le> IFNAMSIZ"
proof -
  have "\<exists>c. read_command (\<lambda>_. None) [''-rBI'', ''nid5'', ''eth0:1'', ''-d''] = Some c \<and> da_ClientID (co_args c) = Some ''nid5'' \<and>
     da_BeRFC1541 (co_args c) \<and> co_DebugFlag c \<and> da_IfNameExt (co_args c) = ''eth0:1''"
    by (simp add: read_command_def dashed_def flag_letter_def flag_table_def value_letter_def word_letter_def set_args_def default_command_def
        default_args_def set_interface_def)
  then obtain c where c: "read_command (\<lambda>_. None) [''-rBI'', ''nid5'', ''eth0:1'', ''-d''] = Some c" "da_ClientID (co_args c) = Some ''nid5''"
     "da_BeRFC1541 (co_args c)" "co_DebugFlag c" "da_IfNameExt (co_args c) = ''eth0:1''" by blast
  have "co_IfName c = takeWhile (\<lambda>x. x \<noteq> CHR '':'') (da_IfNameExt (co_args c)) \<and> length (da_IfNameExt (co_args c)) \<le> IFNAMSIZ"
    using command_line [OF c(1)] by blast
  then show ?thesis using c by auto
qed

end
