(* ===== verification/Spec2Isabelle.thy ===== *)
theory Spec2Isabelle
  imports Component_Properties Service_Properties DHCP_Properties DHCP_Command
begin

text \<open>
  The NID daemon and its DHCP client.

  The repository is an overlay that separates identity and locator: every node has a 128-bit identity (NID, a
  \<open>struct in6_addr\<close>), applications address each other by 32-bit identities derived from it, and the daemon
  \<open>nidd\<close> carries their packets over UDP to the locator (IPv4 address) where the identity is at the moment. A
  node is a mobile node, the rendez-vous node, a gateway or a core gateway; all run the same daemon with different threads.

  \<^bold>\<open>The parts and their theories.\<close> Sources are under \<open>src/src/\<close>; definitions keep the names of the C
  functions (\<open>getCMEntry\<close>, \<open>thread_ph_output\<close>, ...), parts of a function have names of their own.

  \<^item> \<open>NID_Prelude\<close>: machine types, the result type \<open>run\<close>, datagram reads into persistent buffers, byte codecs.
  \<^item> \<open>NID_Types\<close>: \<open>nid.h\<close>; header and message with their byte layout; \<open>nid2nid32\<close>. \<open>Inet\<close>: libc's
    \<open>inet_ntop\<close> and \<open>inet_pton\<close>.
  \<^item> \<open>LList\<close>, \<open>Hash_Tables\<close>: \<open>llist.c\<close>, \<open>hash.c\<close>, \<open>hash32.c\<close>, \<open>fqdn_hash.c\<close>; the locale \<open>kv_table\<close> is the
    interface all components use, interpreted on the three tables.
  \<^item> \<open>Configuration\<close>: \<open>configuration.c\<close>. \<open>Queue_Tables\<close>: \<open>rvs_queue_table.c\<close>, \<open>dht_queue_table.c\<close>, with a
    locale for a lock table interpreted on both.
  \<^item> \<open>Connection_Mapper\<close>, \<open>NID_Mapper\<close>, \<open>Routing_Table\<close>, \<open>Gateway\<close>, \<open>DHT\<close>: the tables of \<open>connection_mapper.c\<close>,
    \<open>nid_mapper.c\<close>, \<open>nid_routing.c\<close>, \<open>gwc.c\<close>, \<open>dhtc.c\<close> and the threads of the last two.
  \<^item> \<open>NID_Routing\<close>, \<open>Packet_Handler\<close>, \<open>Control\<close>, \<open>Rendezvous\<close>, \<open>Mobility\<close>, \<open>DNS_Handler\<close>: the threads of \<open>nid_routing.c\<close>,
    \<open>packetHandler.c\<close> and \<open>nidfilter.c\<close>, \<open>control.c\<close>, \<open>rvsc.c\<close> and the server \<open>rvs.c\<close>, \<open>mobility.c\<close> and \<open>dhcp.c\<close>,
    \<open>dnshandler.c\<close> and \<open>fqdn_table.c\<close>.
  \<^item> \<open>Daemon\<close>: start-up and shutdown of \<open>nidd.c\<close>, and the running daemon as a step relation \<open>nidd_step\<close>.
    \<open>Daemon_Safety\<close>: its invariant \<open>node_ok\<close>, kept by every step.
  \<^item> The DHCP client the daemon starts, \<open>dhcpcd-1.3.22-pl4/\<close>. \<open>DHCP_Client\<close>: the routine \<open>parseDhcpMsgRecv\<close> the project changed to
    hand the server's answer to the daemon. \<open>DHCP_Packet\<close>: \<open>udpipgen.c\<close>. \<open>DHCP_Build\<close>: \<open>buildmsg.c\<close>, the structures of
    \<open>client.h\<close>, the identifiers. \<open>DHCP_Link\<close>: the token ring conversions of \<open>client.c\<close>, \<open>arp.c\<close>. \<open>DHCP_Config\<close>: \<open>dhcpconfig.c\<close>,
    \<open>cache.c\<close>. \<open>DHCP_Protocol\<close>: the exchange of messages and the state functions of \<open>client.c\<close>, \<open>signals.c\<close>, the loop of \<open>dhcpcd.c\<close>.
    \<open>DHCP_Command\<close>: the command line of \<open>dhcpcd.c\<close> and the pid file.
    \<open>DHCP_Values\<close>: the shape of the options' values. \<open>DHCP_Lease\<close>: the client's invariant, its transitions as the step relation
    \<open>client_step\<close>, the end of a lease. \<open>DHCP_Acquire\<close>: how a lease is taken. \<open>DHCP_Properties\<close>: the client's properties.
  \<^item> \<open>Network\<close>: the threads of one node composed along the way of a datagram, and several nodes with the server.
    \<open>Concrete_Nodes\<close>: the states the properties are instantiated at. \<open>Component_Properties\<close>,
    \<open>Service_Properties\<close> and this theory: the properties.

  \<^bold>\<open>How the state corresponds to the code.\<close> The file-scope variables of the modules and the local variables that
  live across the iterations of a thread are the fields of one record, extended module by module (\<open>conf\<close>, \<open>lock_state\<close>,
  \<open>cm_state\<close>, ..., \<open>node\<close>), so every operation of a module is stated for all extensions. Libraries are opened
  with their symbols resolved to the executable's, so there is one instance of every table. A socket pair is the list
  of the datagrams in it, oldest first. A thread is the function of one iteration of its loop; with nothing to read it leaves the state
  alone, as \<open>select\<close> blocks. What the code sends to the network, to raw sockets or to clients is appended to an output field.
  The clock, the kernel's interface addresses, what arrives from the network, libxml2's document, the DHT's and the DNS
  server's answers are arguments; \<open>clk i\<close> is the \<open>i\<close>-th reading of the clock an operation makes. The DHCP client is a process of its own
  with the state \<open>dhcp_main\<close>; a round of its loop runs in an environment \<open>client_env\<close> that says what happens on the packet socket
  while the client waits, what the clock, the random numbers and the kernel answer, and the alarm that goes off when the events end.

  \<^bold>\<open>Failure.\<close> \<open>None\<close> of the type \<open>run\<close> means that the process dies or that C gives the operation no meaning: a division by
  the size 0 of a table, a null pointer, a copy past a buffer, \<open>exit\<close>. Integers keep their width (\<open>u16\<close>, \<open>u32\<close>, bytes);
  \<open>time_t\<close> is unbounded. The host is little-endian, addresses are their big-endian readings.

  \<^bold>\<open>Bounds and termination.\<close> The loops run over lists and are structural recursions; the walk over DHCP
  options has a measure, the bytes left. No fuel is used. That an operation returns is stated as such: every
  specification lemma gives the result \<open>Some\<close>. The DHCP walk needs 256 bytes behind the option field, which the
  receive buffer of 1500 bytes has.

  \<^bold>\<open>What is shown.\<close> Tables are finite maps (refinement by \<open>tbl_view\<close>), mappers, routing table, registry, cache and
  locks are specified over these maps on every branch; start-up returns with sound tables and every
  step keeps the invariant, from which the packet, routing, control, gateway, mobility and rendez-vous threads cannot
  die; packets arrive unchanged where the tables say, registrations travel to the server and up the gateways, roaming and moving
  nodes are reached at their new locators, names lead to packets, the DHCP server's addresses reach the
  daemon; formats and checksums round-trip. The DHCP client takes a lease, resumes it after a restart, gives it up when nobody answers, keeps
  its form in every state, and its messages read back. The theorems also pin down where the code does otherwise than it means to: a lock that
  never expires, a clean-up that keeps what it should delete, a datagram that kills a node, a wrong
  locator from the DHT, one answer for all names, a start-up that overruns its command line, a refusal that ends the DHCP client.

  \<^bold>\<open>Not modelled.\<close> Thread interleaving inside an iteration: the code takes no locks, an iteration is atomic here. Failing system
  calls, beyond those the code reacts to by ending the process. \<open>tools.c\<close>, \<open>tuntap.c\<close> and \<open>conecta.c\<close> (system calls only),
  the OpenSSL experiments \<open>dh_client2.c\<close> and \<open>dh_server2.c\<close>, the user interface, build files and scripts. Of the DHCP
  client its logging, the installation of the signal handler, the detaching from the terminal and \<open>unix_server.c\<close>, a test program.
\<close>


section \<open>Packets\<close>



section \<open>The rendez-vous service\<close>

text \<open>C4. Registration of a locator. A node's periodic update travels to the node of the rendez-vous service,
  from there to the server, and the server then holds the node's current address under its identity, stamped with
  the server's clock; the acknowledgement is on its way back to the node and to the gateway talker.\<close>

theorem rvs_registration:
  assumes a: "node_ok a" "sp_nf2ph a = []" "sp_rvs2ph a = []" "sp_ph2nr a = []" "cf_nidrvs a = cf_nid r"
    "rvsu_nmsg a = zero_msg\<lparr>m_type := RVS_UPDATE, m_srcNID := cf_nid a, m_nid := cf_nid a, m_srcNIDgw := home\<rparr>"
    and r: "node_ok r" "sp_nr2ph r = []" "sp_ph2co r = []" "sp_co2rvs r = []" "sp_rvs2ph r = []" and v: "rvs_ok v"
  shows "\<exists>a1 a2 d r1 r2 v' ack. thread_rvs_update ifaddr a = Some a1 \<and> originate clk a1 = Some a2 \<and>
    net_out a2 = net_out a @ [(cm_locator clk (cf_nid r) a, d)] \<and>
    arrive raw_ok clk1 src d r = Some r1 \<and> rvs_round clk2 now r1 v = Some (r2, v') \<and> rvs_ok v' \<and>
    rvs_map v' = (rvs_map v)(cf_nid a := Some \<lparr>ce_ip = ifaddr (cf_primaryIface a), ce_tstamp = now\<rparr>) \<and>
    ack = \<lparr>m_type = RVS_ACK, m_srcNID = cf_nid r, m_destNID = cf_nid a, m_srcNIDgw = home, m_destNIDgw = 0,
            m_nid = cf_nid a, m_ip = ifaddr (cf_primaryIface a)\<rparr> \<and>
    sp_rvs2ph r2 = [encode_msg ack] \<and> sp_rvs2gwt r2 = sp_rvs2gwt r @ [encode_msg ack]"
proof -
  let ?m = "\<lparr>m_type = RVS_UPDATE, m_srcNID = cf_nid a, m_destNID = cf_nid r, m_srcNIDgw = home, m_destNIDgw = 0,
     m_nid = cf_nid a, m_ip = ifaddr (cf_primaryIface a)\<rparr>"
  let ?a1 = "a\<lparr>rvsu_nmsg := ?m, sp_rvs2ph := [encode_msg ?m]\<rparr>"
  have a1: "thread_rvs_update ifaddr a = Some ?a1"
    using a by (simp add: thread_rvs_update_def zero_msg_def Let_def)
  have "node_ok ?a1" using safe_step [OF safe_rvs_update [OF a(1)] a1] .
  then obtain a2 where a2: "originate clk ?a1 = Some a2"
      "net_out a2 = net_out a @ [(cm_locator clk (cf_nid r) a, encode_header (own_header ?a1 ?m) @ encode_msg ?m)]"
    using originate_msg [of ?a1 ?m "[]" clk] a by (auto simp: cm_locator_def)
  obtain r1 where r1: "arrive raw_ok clk1 src (encode_header (own_header ?a1 ?m) @ encode_msg ?m) r = Some r1"
      "node_ok r1" "cf_nid r1 = cf_nid r" "sp_ph2co r1 = encode_msg ?m # []" "same_out r r1"
    using arrive_msg [OF r(1) _ _ r(2), of "encode_msg ?m" "own_header ?a1 ?m" raw_ok clk1 src] r(3)
    by (auto simp: own_header_def control_type_def learnt_from_def)
  have co: "sp_co2rvs r1 = []" using r1(5) r(4) by (simp add: same_out_def)
  obtain r2 v' where rv: "rvs_round clk2 now r1 v = Some (r2, v')" "rvs_ok v'"
      "rvs_map v' = rvs_next now ?m (rvs_map v)"
      "sp_rvs2ph r2 = sp_rvs2ph r1 @ [encode_msg (swap_ends (rvs_reply now ?m (rvs_map v)))]"
      "sp_rvs2gwt r2 = sp_rvs2gwt r1 @ [encode_msg (swap_ends (rvs_reply now ?m (rvs_map v)))]"
    using rvs_round_spec [OF r1(2) v r1(4) co, of clk2 now] by (auto simp del: encode_msg_def)
  have "swap_ends (rvs_reply now ?m (rvs_map v)) = \<lparr>m_type = RVS_ACK, m_srcNID = cf_nid r, m_destNID = cf_nid a,
      m_srcNIDgw = home, m_destNIDgw = 0, m_nid = cf_nid a, m_ip = ifaddr (cf_primaryIface a)\<rparr>"
    by (simp add: rvs_reply_def swap_ends_def)
  then show ?thesis using a1 a2 r1 rv r(5) by (auto simp: rvs_next_def same_out_def)
qed

theorem rvs_registration_witness:
  "\<exists>a1 a2 d r1 r2 v'. thread_rvs_update (\<lambda>_. 167772161) (host_a\<lparr>sp_nf2ph := [],
       rvsu_nmsg := zero_msg\<lparr>m_type := RVS_UPDATE, m_srcNID := 9, m_nid := 9, m_srcNIDgw := 8\<rparr>\<rparr>) = Some a1 \<and>
    originate noon a1 = Some a2 \<and> net_out a2 = [(cm_locator noon 7 host_a, d)] \<and>
    arrive (\<lambda>_ _. True) noon 167772161 d rvs_7 = Some r1 \<and> rvs_round noon 43200 r1 server0 = Some (r2, v') \<and>
    rvs_map v' 9 = Some \<lparr>ce_ip = 167772161, ce_tstamp = 43200\<rparr>"
proof -
  let ?a = "host_a\<lparr>sp_nf2ph := [],
       rvsu_nmsg := zero_msg\<lparr>m_type := RVS_UPDATE, m_srcNID := 9, m_nid := 9, m_srcNIDgw := 8\<rparr>\<rparr>"
  have a: "node_ok ?a" "sp_rvs2ph ?a = []" "sp_ph2nr ?a = []" "cf_nidrvs ?a = cf_nid rvs_7" "cf_nid ?a = 9"
      "cf_nid rvs_7 = 7" "net_out ?a = []" "cm_locator noon 7 ?a = cm_locator noon 7 host_a"
    by (simp_all add: cm_locator_def) (simp_all add: host_a_def rvs_7_def node0_def boot_def)
  have r: "sp_nr2ph rvs_7 = []" "sp_ph2co rvs_7 = []" "sp_co2rvs rvs_7 = []" "sp_rvs2ph rvs_7 = []"
    by (simp_all add: rvs_7_def)
  from rvs_registration [of ?a rvs_7 8 server0 "\<lambda>_. 167772161" noon "\<lambda>_ _. True" noon 167772161 noon 43200]
  show ?thesis using a r server0_ok by fastforce
qed

text \<open>C3. Resolution of an identity. The request a node's connection mapper made for an identity travels to the
  node of the rendez-vous service and to its server; if the server has a registration that has not expired, its
  answer travels back and the control thread of the asking node enters that locator for the identity and
  releases the lock on the request.\<close>

theorem rvs_resolution:
  assumes b: "node_ok b" "sp_cm2rvs b = nid_bytes nid # reqs" "sp_nf2ph b = []" "sp_rvs2ph b = []" "sp_ph2nr b = []"
    "sp_nr2ph b = []" "sp_ph2co b = []" "cf_nidrvs b = cf_nid r" "m_type (rvsg_nmsg b) = RVS_GET"
    "m_srcNID (rvsg_nmsg b) = cf_nid b"
    and r: "node_ok r" "sp_nf2ph r = []" "sp_ph2nr r = []" "sp_nr2ph r = []" "sp_ph2co r = []" "sp_co2rvs r = []"
      "sp_rvs2ph r = []"
    and v: "rvs_ok v" "rvs_map v nid = Some \<lparr>ce_ip = ip, ce_tstamp = t0\<rparr>" "now < t0 + RVS_TIMEOUT" "ip \<noteq> 0"
  shows "\<exists>b1 b2 d r1 r2 v' r3 d' b3 b4. thread_rvs_get b = Some b1 \<and> originate clk b1 = Some b2 \<and>
    net_out b2 = net_out b @ [(cm_locator clk (cf_nid r) b, d)] \<and>
    arrive raw_ok clk1 src d r = Some r1 \<and> rvs_round clk2 now r1 v = Some (r2, v') \<and> rvs_map v' = rvs_map v \<and>
    originate clk3 r2 = Some r3 \<and> (\<exists>peer. net_out r3 = net_out r2 @ [(peer, d')]) \<and>
    arrive raw_ok clk4 src' d' b2 = Some b3 \<and> thread_control clk5 b3 = Some b4 \<and>
    conns b4 = learn (tv_sec (clk5 0)) nid ip (conns b3) \<and> rvs_locks b4 = (rvs_locks b3)(nid := None)"
proof -
  let ?m = "(rvsg_nmsg b)\<lparr>m_nid := nid, m_destNID := cf_nid r\<rparr>"
  let ?b1 = "b\<lparr>sp_cm2rvs := reqs, rvsg_nmsg := ?m, sp_rvs2ph := [encode_msg ?m]\<rparr>"
  have b1: "thread_rvs_get b = Some ?b1" using thread_rvs_get_spec [OF b(2)] b by simp
  have "node_ok ?b1" using safe_step [OF safe_rvs_get [OF b(1)] b1] .
  then obtain b2 where b2: "originate clk ?b1 = Some b2" "node_ok b2" "same_in ?b1 b2"
      "net_out b2 = net_out b @ [(cm_locator clk (cf_nid r) b, encode_header (own_header ?b1 ?m) @ encode_msg ?m)]"
    using originate_msg [of ?b1 ?m "[]" clk] b by (auto simp: cm_locator_def)
  obtain r1 where r1: "arrive raw_ok clk1 src (encode_header (own_header ?b1 ?m) @ encode_msg ?m) r = Some r1"
      "node_ok r1" "sp_ph2co r1 = encode_msg ?m # []" "same_out r r1"
    using arrive_msg [OF r(1) _ _ r(4), of "encode_msg ?m" "own_header ?b1 ?m" raw_ok clk1 src] r(5) b(9)
    by (auto simp: own_header_def control_type_def learnt_from_def)
  let ?rep = "swap_ends (rvs_reply now ?m (rvs_map v))"
  have fresh: "rvs_fresh now nid (rvs_map v)" using v by (simp add: rvs_fresh_def)
  have rep: "m_type ?rep = RVS_RESPONSE" "m_nid ?rep = nid" "m_ip ?rep = ip" "m_destNID ?rep = cf_nid b"
    using b v fresh by (simp_all add: rvs_reply_def swap_ends_def rvs_answer_def)
  have co: "sp_co2rvs r1 = []" using r1(4) r(6) by (simp add: same_out_def)
  obtain r2 v' where rv: "rvs_round clk2 now r1 v = Some (r2, v')" "node_ok r2"
      "rvs_map v' = rvs_next now ?m (rvs_map v)" "sp_nf2ph r2 = []" "sp_ph2nr r2 = []" "sp_rvs2ph r2 = encode_msg ?rep # []"
    using rvs_round_spec [OF r1(2) v(1) r1(3) co, of clk2 now] r1(4) r b(9) by (auto simp: same_out_def)
  obtain r3 where r3: "originate clk3 r2 = Some r3"
      "net_out r3 = net_out r2 @ [(cm_locator clk3 (cf_nid b) r2, encode_header (own_header r2 ?rep) @ encode_msg ?rep)]"
    using originate_msg [OF rv(2,4,6,5), of clk3] rep by auto
  have q2: "sp_nr2ph b2 = []" "sp_ph2co b2 = []" "cf_nid b2 = cf_nid b" using b2(3) b by (simp_all add: same_in_def)
  obtain b3 where b3: "arrive raw_ok clk4 src' (encode_header (own_header r2 ?rep) @ encode_msg ?rep) b2 = Some b3"
      "node_ok b3" "sp_ph2co b3 = encode_msg ?rep # []"
    using arrive_msg [OF b2(2) _ _ q2(1), of "encode_msg ?rep" "own_header r2 ?rep" raw_ok clk4 src'] q2 rep
    by (auto simp: own_header_def control_type_def learnt_from_def)
  obtain b4 where b4: "thread_control clk5 b3 = Some b4" "conns b4 = learn (tv_sec (clk5 0)) nid ip (conns b3)"
      "rvs_locks b4 = (rvs_locks b3)(nid := None)"
    using thread_control_spec [OF node_okD(3) [OF b3(2)] b3(3), of clk5] rep v(4)
    by (auto simp: control_conns_def control_locks_def)
  have "rvs_map v' = rvs_map v" using rv(3) b(9) fresh by (simp add: rvs_next_def)
  then show ?thesis using b1 b2 r1 rv r3 b3 b4 by blast
qed

theorem rvs_resolution_witness:
  "\<exists>b1 b2 d r1 r2 v' r3 d' b3 b4. thread_rvs_get (host_b\<lparr>sp_cm2rvs := [nid_bytes 9],
       rvsg_nmsg := zero_msg\<lparr>m_type := RVS_GET, m_srcNID := 5\<rparr>\<rparr>) = Some b1 \<and> originate noon b1 = Some b2 \<and>
    arrive (\<lambda>_ _. True) noon 167772162 d rvs_7 = Some r1 \<and> rvs_round noon 43205 r1 server9 = Some (r2, v') \<and>
    originate noon r2 = Some r3 \<and> arrive (\<lambda>_ _. True) noon 167772163 d' b2 = Some b3 \<and>
    thread_control noon b3 = Some b4 \<and> conns b4 = learn 43200 9 167772161 (conns b3)"
proof -
  let ?b = "host_b\<lparr>sp_cm2rvs := [nid_bytes 9], rvsg_nmsg := zero_msg\<lparr>m_type := RVS_GET, m_srcNID := 5\<rparr>\<rparr>"
  have b: "node_ok ?b" "sp_nf2ph ?b = []" "sp_rvs2ph ?b = []" "sp_ph2nr ?b = []" "sp_nr2ph ?b = []" "sp_ph2co ?b = []"
      "cf_nidrvs ?b = cf_nid rvs_7" "cf_nid ?b = 5"
    using node0_ok by (simp_all add: host_b_def rvs_7_def node_ok_defs)
  have r: "sp_nf2ph rvs_7 = []" "sp_ph2nr rvs_7 = []" "sp_nr2ph rvs_7 = []" "sp_ph2co rvs_7 = []" "sp_co2rvs rvs_7 = []"
      "sp_rvs2ph rvs_7 = []" by (simp_all add: rvs_7_def)
  have m: "sp_cm2rvs ?b = nid_bytes 9 # []" "m_type (rvsg_nmsg ?b) = RVS_GET" "m_srcNID (rvsg_nmsg ?b) = cf_nid ?b"
    using b(8) by simp_all
  from rvs_resolution [OF b(1) m(1) b(2-7) m(2,3) nodes_ok(4) r server9_ok,
      of 43205 noon "\<lambda>_ _. True" noon 167772162 noon noon noon 167772163 noon]
  show ?thesis by fastforce
qed

section \<open>Gateways\<close>

text \<open>C6. Registration of a node up the gateways. From the acknowledgement of a node's registration the
  rendez-vous node makes a registry message for its gateway; the gateway enters the node's locator as its route,
  and passes the message up with its own address in it; the core gateway enters that address. So for the
  lifetime of a route, a packet for the node goes from the core gateway to the gateway and from there to the node.\<close>

theorem gateway_registration:
  assumes r: "node_ok r" "sp_rvs2gwt r = [encode_msg m]" "sp_gwt2ph r = []"
    and g: "node_ok g" "sp_co2gwl g = []" "sp_rvs2gwt g = []" "sp_gwl2gwt g = []" "sp_gwt2ph g = []"
      "\<forall>ce. routes g (m_nid m) = Some ce \<longrightarrow> \<not> is_static ce"
    and c: "node_ok c" "sp_co2gwl c = []" "\<forall>ce. routes c (m_nid m) = Some ce \<longrightarrow> \<not> is_static ce"
    and ip: "m_ip m \<noteq> 0" "ifaddr (cf_primaryIface g) \<noteq> 0"
    and time: "tv_sec (now 0) < tv_sec (clk 0) + GATEWAY_TIMEOUT" "tv_sec (now 0) < tv_sec (clk' 0) + GATEWAY_TIMEOUT"
  shows "\<exists>r' d1 g' d2 c'. thread_rvs2gw r = Some r' \<and> sp_gwt2ph r' = [d1] \<and>
    gw_register ifaddr clk (g\<lparr>sp_ph2co := [d1]\<rparr>) = Some g' \<and> sp_gwt2ph g' = [d2] \<and>
    core_register ifaddr' clk' (c\<lparr>sp_ph2co := [d2]\<rparr>) = Some c' \<and>
    m_destNID (decode_msg d1) = cf_nidgw r \<and> m_destNID (decode_msg d2) = cf_nidgw g \<and>
    rt_locator now (m_nid m) g' = m_ip m \<and> rt_locator now (m_nid m) c' = ifaddr (cf_primaryIface g)"
proof -
  let ?m1 = "m\<lparr>m_type := REGISTRY, m_destNID := cf_nidgw r\<rparr>"
  let ?g = "g\<lparr>sp_ph2co := [encode_msg ?m1]\<rparr>" and ?m2 = "passed_up ifaddr g ?m1"
  let ?c = "c\<lparr>sp_ph2co := [encode_msg ?m2]\<rparr>"
  have r': "thread_rvs2gw r = Some (r\<lparr>sp_rvs2gwt := [], rvs2gw_nmsg := ?m1, sp_gwt2ph := [encode_msg ?m1]\<rparr>)"
    using r by (simp add: thread_rvs2gw_def codec_simps Let_def)
  obtain g' where g': "gw_register ifaddr clk ?g = Some g'"
      "routes g' = learn (tv_sec (clk 0)) (m_nid m) (m_ip m) (routes g)" "sp_gwt2ph g' = [encode_msg ?m2]"
    using gw_register_spec [of ?g ?m1 "[]" ifaddr clk] g by (auto simp: passed_up_def)
  obtain c' where c': "core_register ifaddr' clk' ?c = Some c'"
      "routes c' = learn (tv_sec (clk' 0)) (m_nid m) (ifaddr (cf_primaryIface g)) (routes c)"
    using core_register_spec [of ?c ?m2 "[]" ifaddr' clk'] c by (auto simp: passed_up_def)
  have "rt_locator now (m_nid m) g' = m_ip m"
    using rt_locator_learnt [of g' "tv_sec (clk 0)" "m_nid m" "m_ip m" g now] g'(2) ip(1) time(1) g(6) by blast
  moreover have "rt_locator now (m_nid m) c' = ifaddr (cf_primaryIface g)"
    using rt_locator_learnt [of c' "tv_sec (clk' 0)" "m_nid m" "ifaddr (cf_primaryIface g)" c now] c'(2) ip(2)
      time(2) c(3) by blast
  ultimately show ?thesis using r' g' c'
    by - (rule exI [of _ "r\<lparr>sp_rvs2gwt := [], rvs2gw_nmsg := ?m1, sp_gwt2ph := [encode_msg ?m1]\<rparr>"],
        rule exI [of _ "encode_msg ?m1"], rule exI [of _ g'], rule exI [of _ "encode_msg ?m2"], rule exI [of _ c'],
        simp add: codec_simps passed_up_def)
qed

theorem gateway_registration_witness:
  "\<exists>r' d1 g' d2 c'. thread_rvs2gw (rvs_7\<lparr>sp_rvs2gwt := [encode_msg (zero_msg\<lparr>m_nid := 9, m_ip := 167772161\<rparr>)]\<rparr>) = Some r' \<and>
    gw_register (\<lambda>_. 167772163) noon (gw_3\<lparr>sp_ph2co := [d1]\<rparr>) = Some g' \<and>
    core_register (\<lambda>_. 0) noon (node0\<lparr>sp_ph2co := [d2]\<rparr>) = Some c' \<and>
    rt_locator noon 9 g' = 167772161 \<and> rt_locator noon 9 c' = 167772163"
proof -
  let ?m = "zero_msg\<lparr>m_nid := 9, m_ip := 167772161\<rparr>"
  let ?r = "rvs_7\<lparr>sp_rvs2gwt := [encode_msg ?m]\<rparr>"
  have r: "node_ok ?r" "sp_rvs2gwt ?r = [encode_msg ?m]" "sp_gwt2ph ?r = []" by simp_all (simp add: rvs_7_def)
  have g: "sp_co2gwl gw_3 = []" "sp_rvs2gwt gw_3 = []" "sp_gwl2gwt gw_3 = []" "sp_gwt2ph gw_3 = []"
      "routes gw_3 = (\<lambda>_. None)" by (simp_all add: gw_3_def)
  from gateway_registration [OF r nodes_ok(3) g(1-4) _ node0_ok, of "\<lambda>_. 167772163" noon noon noon "\<lambda>_. 0"]
  show ?thesis using g(5) by fastforce
qed

text \<open>C7. A node that roams in another domain. A registry message of a visitor makes the visited core gateway
  write a message for the visitor's home core gateway; the home gateway enters the visited one as the
  place to reach the node, so that, while it has no live route of its own for the node, it relays packets
  for the node to the visited core gateway, which relays them to the locator in the registry message.\<close>

theorem roaming:
  assumes c: "node_ok c" "sp_co2gwl c = []" "sp_gwt2ph c = []" "\<forall>ce. routes c (m_nid m) = Some ce \<longrightarrow> \<not> is_static ce"
    and m: "m_type m = REGISTRY" "m_srcNIDgw m = cf_nid h" "m_ip m \<noteq> 0"
    and h: "node_ok h" "cf_nid h \<noteq> cf_nid c" "route_hit (tv_sec (now 0)) (m_nid m) (routes h) = None"
    and ip: "ifaddr (cf_primaryIface c) \<noteq> 0" and time: "tv_sec (now 0) < tv_sec (clk 0) + GATEWAY_TIMEOUT"
  shows "\<exists>c' d h'. core_register ifaddr clk (c\<lparr>sp_ph2co := [encode_msg m]\<rparr>) = Some c' \<and> sp_gwt2ph c' = [d] \<and>
    m_destNID (decode_msg d) = cf_nid h \<and>
    thread_control_gw_core clk' (h\<lparr>sp_ph2co := [d]\<rparr>) = Some h' \<and>
    (\<forall>nh. h_destNID nh = m_nid m \<longrightarrow> core_locator now nh h' = Some (ifaddr (cf_primaryIface c))) \<and>
    rt_locator now (m_nid m) c' = m_ip m"
proof -
  let ?r = "redirect_core_msg ifaddr c m"
  have red: "redirect_core_msg ifaddr (c\<lparr>sp_ph2co := [encode_msg m]\<rparr>) m = ?r" by (simp add: redirect_core_msg_def)
  obtain c' where c': "core_register ifaddr clk (c\<lparr>sp_ph2co := [encode_msg m]\<rparr>) = Some c'"
      "routes c' = learn (tv_sec (clk 0)) (m_nid m) (m_ip m) (routes c)" "sp_gwt2ph c' = [encode_msg ?r]"
    using core_register_spec [of "c\<lparr>sp_ph2co := [encode_msg m]\<rparr>" m "[]" ifaddr clk] c m(1,2) h(2) red by auto
  have rt: "rt_locator now (m_nid m) c' = m_ip m"
    using rt_locator_learnt [of c' "tv_sec (clk 0)" "m_nid m" "m_ip m" c now] c'(2) m(3) time c(4) by blast
  have "nid_ok (registry_table h)" using h(1) by (simp add: node_ok_defs)
  then obtain t where t: "thread_control_gw_core clk' (h\<lparr>sp_ph2co := [encode_msg ?r]\<rparr>)
        = Some (h\<lparr>registry_table := t, sp_ph2co := [], co_nmsg := ?r\<rparr>)"
      "nid_view t = set_static (m_nid m) (ifaddr (cf_primaryIface c)) (registry h)"
    using control_gw_core_redirect [of "h\<lparr>sp_ph2co := [encode_msg ?r]\<rparr>" ?r "[]" clk']
    by (auto simp: redirect_core_msg_def)
  have "core_locator now nh (h\<lparr>registry_table := t, sp_ph2co := [], co_nmsg := ?r\<rparr>)
      = Some (ifaddr (cf_primaryIface c))" if "h_destNID nh = m_nid m" for nh
    using that t(2) h(3) ip
    by (simp add: core_locator_def reg_hit_def set_static_def split: option.split)
  moreover have "m_destNID (decode_msg (encode_msg ?r)) = cf_nid h" using m(2) by (simp add: codec_simps redirect_core_msg_def)
  ultimately show ?thesis using c' rt t(1) by blast
qed

theorem roaming_witness:
  "\<exists>c' d h'. core_register (\<lambda>_. 167772163) noon (gw_3\<lparr>sp_ph2co := [encode_msg (zero_msg\<lparr>m_type := REGISTRY, m_nid := 9,
       m_srcNIDgw := 8, m_ip := 167772161\<rparr>)]\<rparr>) = Some c' \<and> sp_gwt2ph c' = [d] \<and>
    thread_control_gw_core noon ((node0\<lparr>cf_nid := 8\<rparr>)\<lparr>sp_ph2co := [d]\<rparr>) = Some h' \<and>
    core_locator noon (zero_header\<lparr>h_destNID := 9\<rparr>) h' = Some 167772163 \<and> rt_locator noon 9 c' = 167772161"
proof -
  let ?m = "zero_msg\<lparr>m_type := REGISTRY, m_nid := 9, m_srcNIDgw := 8, m_ip := 167772161\<rparr>" and ?h = "node0\<lparr>cf_nid := 8\<rparr>"
  have c: "node_ok gw_3" "sp_co2gwl gw_3 = []" "sp_gwt2ph gw_3 = []" "routes gw_3 = (\<lambda>_. None)" "cf_nid gw_3 = 3"
    using nodes_ok(3) by (simp_all add: gw_3_def)
  have h: "node_ok ?h" using node0_ok by simp
  from roaming [OF c(1-3) _ _ _ _ h, of ?m noon "\<lambda>_. 167772163" noon noon] show ?thesis
    using c(4,5) by (fastforce simp: route_hit_def)
qed

section \<open>Mobility\<close>







section \<open>Start-up and safety\<close>

text \<open>C2. Safety of the running daemon. Whatever configuration it was started with, and whatever the clock, the
  network, the kernel and the servers did since, a reachable state has sound tables (every key in the bucket of its
  hash, each once, the array of the declared size; every identity with a gateway has its 32-bit entry; requests
  to the rendez-vous thread are 16 bytes), and no next iteration of the packet handler's output, of the
  routing, control, gateway, mobility and rendez-vous threads can kill the process.\<close>

theorem daemon_safety:
  assumes "fresh s" "nidd_main libs content doc j32 j jgw s = Some s0" "nidd_reach s0 s1"
  shows "node_ok s1 \<and> thread_ph_output s1 \<noteq> None \<and>
    thread_nr_output clk s1 \<noteq> None \<and> thread_nr_output_gw clk clk1 s1 \<noteq> None \<and>
    thread_nr_output_core clk clk1 clk2 s1 \<noteq> None \<and> thread_nr_input clk src d s1 \<noteq> None \<and>
    thread_nr_input_gw clk src d s1 \<noteq> None \<and> thread_gw_listener clk s1 \<noteq> None \<and>
    thread_gw_core_listener ifaddr clk s1 \<noteq> None \<and> thread_gw_talker ifaddr s1 \<noteq> None \<and>
    thread_control clk s1 \<noteq> None \<and> thread_control_rvs clk s1 \<noteq> None \<and> thread_control_gw clk s1 \<noteq> None \<and>
    thread_control_gw_core clk s1 \<noteq> None \<and> thread_rvs_update ifaddr s1 \<noteq> None \<and> thread_rvs_get s1 \<noteq> None \<and>
    thread_rvs_proxy_send s1 \<noteq> None \<and> thread_rvs_proxy_recv d s1 \<noteq> None \<and> thread_rvs2gw s1 \<noteq> None \<and>
    thread_mobility ifaddr clk clk1 clk2 newaddr s1 \<noteq> None"
proof -
  have ok: "node_ok s1" by (rule nidd_reach_ok [OF assms(3) nidd_main_kept [OF assms(1,2)]])
  show ?thesis by (intro conjI ok safe_threads [OF ok, THEN safe_not_None])
qed

theorem daemon_safety_witness:
  "\<exists>s0. nidd_main (\<lambda>_ _. True) (\<lambda>_. None) (Some []) 0 0 0 boot = Some s0 \<and> nidd_reach s0 s0 \<and> node_ok s0"
proof -
  obtain s0 where s0: "nidd_main (\<lambda>_ _. True) (\<lambda>_. None) (Some []) 0 0 0 boot = Some s0"
    using nidd_main_starts [of boot "\<lambda>_. None" "Some []" boot "\<lambda>_ _. True" 0 0 0] boot_fresh
    by (auto simp: starts_def read_config_def boot_def)
  have "nidd_reach s0 s0" by (rule nidd_reach.start)
  then show ?thesis using s0 daemon_safety [OF boot_fresh s0] by blast
qed





end
